(* ===== verification/Go_Base.thy ===== *)
theory Go_Base
  imports Main "HOL-Library.AList" "HOL-Library.Monad_Syntax" "HOL-Library.Multiset"
begin

text \<open>
  The prelude of the development: the parts of Go that every component uses.

  \<^item> A Go map is an association list with distinct keys (\<open>gomap\<close>), read by \<open>map_of\<close> and
    written by \<open>map_put\<close> and \<open>map_del\<close>.  The contract of a map is the locale \<open>go_map\<close>.
  \<^item> Go visits the keys of a map in an unspecified order.  Every \<open>range\<close> statement of the model
    takes the order from an argument \<open>ord\<close>, which gets the name of the statement and the keys
    and returns them in the order of the visit.  \<open>permutes_keys ord\<close> says that it is a
    permutation, the only thing Go promises; a theorem for every such \<open>ord\<close> holds for every run.
  \<^item> A run-time panic (an index out of range, a nil dereference) is the value \<open>None\<close> of an
    option; \<open>fold_opt\<close> is a loop whose body may panic.
\<close>

section \<open>Collections of facts\<close>

named_theorems go_map_simps \<open>what the map operations do to a lookup and to the keys\<close>
named_theorems go_order_simps \<open>what an iteration order keeps of the keys it permutes\<close>
named_theorems io_simps \<open>the run of the API calls\<close>

section \<open>Loops whose body may panic\<close>

fun fold_opt :: "('a \<Rightarrow> 's \<Rightarrow> 's option) \<Rightarrow> 'a list \<Rightarrow> 's \<Rightarrow> 's option" where
  "fold_opt f [] s = Some s"
| "fold_opt f (x # xs) s = do { s' \<leftarrow> f x s; fold_opt f xs s' }"

lemma fold_opt_append:
  "fold_opt f (xs @ ys) s = do { s' \<leftarrow> fold_opt f xs s; fold_opt f ys s' }"
  by (induction xs arbitrary: s) (auto split: Option.bind_splits)

lemma fold_opt_invariant:
  assumes "fold_opt f xs s = Some t" and "P s"
    and "\<And>x s t. x \<in> set xs \<Longrightarrow> P s \<Longrightarrow> f x s = Some t \<Longrightarrow> P t"
  shows "P t"
  using assms
proof (induction xs arbitrary: s)
  case Nil
  then show ?case by simp
next
  case (Cons x xs)
  then obtain u where u: "f x s = Some u" "fold_opt f xs u = Some t"
    by (auto split: Option.bind_splits)
  then have "P u" using Cons.prems(2,3) by auto
  with u(2) show ?case using Cons.prems(3) by (intro Cons.IH [of u]) auto
qed

lemma fold_opt_total:
  assumes "P s" and "\<And>x s. x \<in> set xs \<Longrightarrow> P s \<Longrightarrow> \<exists>t. f x s = Some t \<and> P t"
  shows "\<exists>t. fold_opt f xs s = Some t \<and> P t"
  using assms
proof (induction xs arbitrary: s)
  case Nil
  then show ?case by simp
next
  case (Cons x xs)
  from Cons.prems obtain u where u: "f x s = Some u" "P u" by fastforce
  with Cons.IH [of u] Cons.prems(2) show ?case by auto
qed

lemma fold_opt_Some: "(\<And>x s. x \<in> set xs \<Longrightarrow> f x s = Some (g x s)) \<Longrightarrow>
    fold_opt f xs s = Some (fold g xs s)"
  by (induction xs arbitrary: s) auto

lemma fold_invariant_set:
  assumes "P s" and "\<And>x s. x \<in> set xs \<Longrightarrow> P s \<Longrightarrow> P (f x s)"
  shows "P (fold f xs s)"
  using assms by (induction xs arbitrary: s) auto

section \<open>The contract of a map\<close>

locale go_map =
  fixes empty :: "'m" and get :: "'m \<Rightarrow> 'k \<Rightarrow> 'v option"
    and put :: "'k \<Rightarrow> 'v \<Rightarrow> 'm \<Rightarrow> 'm" and del :: "'k \<Rightarrow> 'm \<Rightarrow> 'm"
    and keys :: "'m \<Rightarrow> 'k list" and ok :: "'m \<Rightarrow> bool"
  assumes get_empty: "get empty = (\<lambda>_. None)"
    and get_put: "get (put k v m) = (get m)(k \<mapsto> v)"
    and get_del: "get (del k m) = (get m)(k := None)"
    and ok_empty: "ok empty"
    and ok_put: "ok m \<Longrightarrow> ok (put k v m)"
    and ok_del: "ok m \<Longrightarrow> ok (del k m)"
    and set_keys: "set (keys m) = dom (get m)"
    and distinct_keys: "ok m \<Longrightarrow> distinct (keys m)"
begin

text \<open>
  A loop whose body changes only the entry of the key it visits computes entry by entry,
  whatever the order of the visit is.
\<close>

lemma pointwise_loop:
  assumes body: "\<And>k m. get (body k m) = (get m)(k := F k (get m k))"
    and "distinct ks"
  shows "get (fold body ks m) = (\<lambda>k. if k \<in> set ks then F k (get m k) else get m k)"
  using \<open>distinct ks\<close>
proof (induction ks arbitrary: m)
  case Nil
  then show ?case by simp
next
  case (Cons k ks)
  have "get (fold body (k # ks) m) =
      (\<lambda>j. if j \<in> set ks then F j (get (body k m) j) else get (body k m) j)"
    using Cons by simp
  also have "\<dots> = (\<lambda>j. if j \<in> set (k # ks) then F j (get m j) else get m j)"
    using Cons.prems by (auto simp: body fun_eq_iff)
  finally show ?case .
qed

lemma range_pointwise:
  assumes body: "\<And>k m. get (body k m) = (get m)(k := F k (get m k))"
    and absent: "\<And>k. F k None = None" and "ok m" and ks: "mset ks = mset (keys m)"
  shows "get (fold body ks m) = (\<lambda>k. F k (get m k))"
proof -
  have ks_set: "set ks = dom (get m)" using ks set_keys mset_eq_setD by metis
  have "distinct ks" using ks \<open>ok m\<close> distinct_keys mset_eq_imp_distinct_iff by metis
  from pointwise_loop [OF body this] ks_set absent show ?thesis
    by (auto simp: fun_eq_iff domIff)
qed

lemma ok_loop:
  assumes "\<And>k m. ok m \<Longrightarrow> ok (body k m)" and "ok m"
  shows "ok (fold body ks m)"
  using assms by (induction ks arbitrary: m) auto

lemma keys_get: "k \<in> set (keys m) \<longleftrightarrow> (\<exists>v. get m k = Some v)"
  by (auto simp: set_keys)

end

section \<open>Go maps as association lists\<close>

type_synonym ('k, 'v) gomap = "('k \<times> 'v) list"

text \<open>A map variable may be nil; reading a nil map is reading an empty one.\<close>

type_synonym ('k, 'v) nilmap = "('k, 'v) gomap option"

definition map_put :: "'k \<Rightarrow> 'v \<Rightarrow> ('k, 'v) gomap \<Rightarrow> ('k, 'v) gomap" where
  "map_put k v m = AList.update k v m"

definition map_del :: "'k \<Rightarrow> ('k, 'v) gomap \<Rightarrow> ('k, 'v) gomap" where
  "map_del k m = AList.delete k m"

definition map_keys :: "('k, 'v) gomap \<Rightarrow> 'k list" where
  "map_keys m = map fst m"

definition map_ok :: "('k, 'v) gomap \<Rightarrow> bool" where
  "map_ok m \<longleftrightarrow> distinct (map_keys m)"

definition entries :: "('k, 'v) nilmap \<Rightarrow> ('k, 'v) gomap" where
  "entries n = (case n of None \<Rightarrow> [] | Some m \<Rightarrow> m)"

text \<open>The read \<open>v, ok := m[k]\<close> gives the zero value for an absent key.\<close>

definition map_get_zero :: "'v \<Rightarrow> ('k, 'v) gomap \<Rightarrow> 'k \<Rightarrow> 'v" where
  "map_get_zero zero m k = (case map_of m k of None \<Rightarrow> zero | Some v \<Rightarrow> v)"

text \<open>A write to a nil map panics.\<close>

definition nilmap_put :: "'k \<Rightarrow> 'v \<Rightarrow> ('k, 'v) nilmap \<Rightarrow> ('k, 'v) nilmap option" where
  "nilmap_put k v n = (case n of None \<Rightarrow> None | Some m \<Rightarrow> Some (Some (map_put k v m)))"

lemma entries_simps [simp]: "entries None = []" "entries (Some m) = m"
  by (simp_all add: entries_def)

lemma map_of_put [simp, go_map_simps]: "map_of (map_put k v m) = (map_of m)(k \<mapsto> v)"
  by (simp add: map_put_def update_conv')

lemma map_of_del [simp, go_map_simps]: "map_of (map_del k m) = (map_of m)(k := None)"
  by (simp add: map_del_def delete_conv')

lemma set_map_keys [simp, go_map_simps]: "set (map_keys m) = dom (map_of m)"
  by (simp add: map_keys_def dom_map_of_conv_image_fst)

lemma map_ok_Nil [simp, go_map_simps]: "map_ok []"
  by (simp add: map_ok_def map_keys_def)

lemma map_ok_put [simp, go_map_simps]: "map_ok m \<Longrightarrow> map_ok (map_put k v m)"
  by (simp add: map_ok_def map_keys_def map_put_def distinct_update)

lemma map_ok_del [simp, go_map_simps]: "map_ok m \<Longrightarrow> map_ok (map_del k m)"
  by (simp add: map_ok_def map_keys_def map_del_def distinct_delete)

lemma map_ok_keys [go_map_simps]: "map_ok m \<Longrightarrow> distinct (map_keys m)"
  by (simp add: map_ok_def)

interpretation gm: go_map "[]" map_of map_put map_del map_keys map_ok
  by unfold_locales (auto simp: go_map_simps)

lemma map_get_zero_simps [simp]:
  "map_of m k = None \<Longrightarrow> map_get_zero z m k = z"
  "map_of m k = Some v \<Longrightarrow> map_get_zero z m k = v"
  by (simp_all add: map_get_zero_def)

lemma map_keys_put:
  "map_keys (map_put k v m) = (if k \<in> dom (map_of m) then map_keys m else map_keys m @ [k])"
  unfolding map_put_def map_keys_def update_keys by (simp add: dom_map_of_conv_image_fst)

lemma map_keys_put_present [simp]: "map_of m k = Some w \<Longrightarrow> map_keys (map_put k v m) = map_keys m"
  by (auto simp: map_keys_put)

lemma map_of_Some_in_set: "map_ok m \<Longrightarrow> map_of m k = Some v \<longleftrightarrow> (k, v) \<in> set m"
  by (simp add: map_ok_def map_keys_def)

section \<open>Iteration orders\<close>

definition permutes_keys :: "('l \<Rightarrow> 'k list \<Rightarrow> 'k list) \<Rightarrow> bool" where
  "permutes_keys ord \<longleftrightarrow> (\<forall>l ks. mset (ord l ks) = mset ks)"

lemma permutes_keysD: "permutes_keys ord \<Longrightarrow> mset (ord l ks) = mset ks"
  by (simp add: permutes_keys_def)

lemma permutes_keys_set [go_order_simps]: "permutes_keys ord \<Longrightarrow> set (ord l ks) = set ks"
  using permutes_keysD mset_eq_setD by metis

lemma permutes_keys_distinct [go_order_simps]:
  "permutes_keys ord \<Longrightarrow> distinct (ord l ks) \<longleftrightarrow> distinct ks"
  using permutes_keysD mset_eq_imp_distinct_iff by metis

lemma permutes_keys_Nil [go_order_simps]: "permutes_keys ord \<Longrightarrow> ord l ks = [] \<longleftrightarrow> ks = []"
  using permutes_keys_set [of ord l ks] by auto

lemma permutes_keys_id [simp]: "permutes_keys (\<lambda>_ ks. ks)"
  by (simp add: permutes_keys_def)

lemma permutes_keys_rev [simp]: "permutes_keys (\<lambda>_. rev)"
  by (simp add: permutes_keys_def)

section \<open>Index and slice expressions\<close>

text \<open>\<open>xs[i]\<close> and \<open>xs[i:]\<close>, which panic out of range.\<close>

definition go_index :: "'a list \<Rightarrow> nat \<Rightarrow> 'a option" where
  "go_index xs i = (if i < length xs then Some (xs ! i) else None)"

definition go_slice_from :: "'a list \<Rightarrow> int \<Rightarrow> 'a list option" where
  "go_slice_from xs i = (if 0 \<le> i \<and> i \<le> int (length xs) then Some (drop (nat i) xs) else None)"

lemma those_Some_iff: "those xs = Some ys \<longleftrightarrow> xs = map Some ys"
  by (induction xs arbitrary: ys) (auto split: option.splits)

lemma those_total: "(\<And>x. x \<in> set xs \<Longrightarrow> \<exists>y. f x = Some y) \<Longrightarrow> \<exists>ys. those (map f xs) = Some ys"
  by (induction xs) fastforce+

lemma those_map_Some [simp]: "those (map (\<lambda>x. Some (f x)) xs) = Some (map f xs)"
  by (simp add: those_Some_iff)

end
