(* ===== verification/Go_Text.thy ===== *)
theory Go_Text
  imports Go_Base "HOL-Library.List_Lexorder" "HOL-Library.Char_ord" "HOL-Library.Word"
begin

text \<open>
  The functions of Go's standard library that the program calls: \<open>strings.Split\<close> on one
  character, \<open>strings.Index\<close>, \<open>strings.LastIndex\<close>, the comparison of strings, the instants
  and durations of \<open>time\<close>, and \<open>encoding/hex\<close>.
\<close>

section \<open>Strings\<close>

fun split_on :: "char \<Rightarrow> string \<Rightarrow> string list" where
  "split_on c [] = [[]]"
| "split_on c (x # xs) =
     (if x = c then [] # split_on c xs
      else case split_on c xs of [] \<Rightarrow> [[x]] | p # ps \<Rightarrow> (x # p) # ps)"

fun index_of :: "char \<Rightarrow> string \<Rightarrow> int" where
  "index_of c [] = - 1"
| "index_of c (x # xs) =
     (if x = c then 0 else if index_of c xs < 0 then - 1 else index_of c xs + 1)"

fun last_index_of :: "char \<Rightarrow> string \<Rightarrow> int" where
  "last_index_of c [] = - 1"
| "last_index_of c (x # xs) =
     (if 0 \<le> last_index_of c xs then last_index_of c xs + 1 else if x = c then 0 else - 1)"

lemma split_on_nonempty [simp]: "split_on c s \<noteq> []"
  by (induction s) (auto split: list.splits)

lemma split_on_absent: "c \<notin> set s \<Longrightarrow> split_on c s = [s]"
  by (induction s) auto

lemma split_on_append: "c \<notin> set a \<Longrightarrow> split_on c (a @ c # b) = a # split_on c b"
  by (induction a) auto

lemma split_on_join: "split_on c (a @ c # b) = split_on c a @ split_on c b"
  by (induction a) (auto split: list.splits)

lemma split_on_first: "split_on c (a @ c # b) ! 0 = takeWhile (\<lambda>x. x \<noteq> c) a"
  by (induction a) (auto split: list.splits simp: nth_Cons')

lemma length_split_on: "length (split_on c s) = Suc (count_list s c)"
  by (induction s) (auto split: list.splits)

lemma index_of_absent: "index_of c s < 0 \<longleftrightarrow> c \<notin> set s"
  by (induction s) auto

lemma index_of_append: "c \<notin> set a \<Longrightarrow> index_of c (a @ c # b) = int (length a)"
  by (induction a) auto

lemma last_index_of_lower: "- 1 \<le> last_index_of c s"
  by (induction s) auto

lemma last_index_of_absent: "last_index_of c s < 0 \<longleftrightarrow> c \<notin> set s"
  by (induction s) (auto simp: not_less)

lemma last_index_of_bound: "last_index_of c s < int (length s)"
  by (induction s) auto

lemma last_index_of_append: "c \<notin> set b \<Longrightarrow> last_index_of c (a @ c # b) = int (length a)"
proof (induction a)
  case Nil
  then have "last_index_of c b < 0" by (simp add: last_index_of_absent)
  then show ?case by simp
qed auto

text \<open>\<open>s[strings.LastIndex(s, c):]\<close> is defined exactly when the character occurs.\<close>

lemma slice_last_index:
  "go_slice_from s (last_index_of c s) = None \<longleftrightarrow> c \<notin> set s"
  using last_index_of_bound [of c s] last_index_of_absent [of c s]
  by (auto simp: go_slice_from_def)

section \<open>Instants and durations\<close>

text \<open>
  An instant is the number of nanoseconds since the Unix epoch.  A \<open>time.Duration\<close> is a signed
  64-bit number of nanoseconds, and so is the \<open>int\<close> that is multiplied by \<open>time.Second\<close>: the
  product wraps around.  \<open>Time.Add\<close> is exact for the instants of the program.
\<close>

type_synonym instant = int
type_synonym int64 = "64 word"

definition seconds :: "int64 \<Rightarrow> int64" where
  "seconds n = 1000000000 * n"

definition time_add :: "instant \<Rightarrow> int64 \<Rightarrow> instant" where
  "time_add t d = t + sint d"

definition unix :: "instant \<Rightarrow> int" where
  "unix t = t div 1000000000"

lemma sint_seconds:
  assumes "- 9223372036 \<le> sint n" and "sint n \<le> 9223372036"
  shows "sint (seconds n) = 1000000000 * sint n"
proof -
  have "sint (seconds n) = signed_take_bit 63 (1000000000 * sint n)"
    unfolding seconds_def sint_word_ariths by simp
  also have "\<dots> = 1000000000 * sint n"
    by (rule signed_take_bit_int_eq_self) (use assms in auto)
  finally show ?thesis .
qed

lemma sint_seconds_add:
  assumes "0 \<le> sint m" and "0 \<le> sint n" and "sint m + sint n \<le> 9223372036"
  shows "sint (seconds m + seconds n) = 1000000000 * (sint m + sint n)"
proof -
  have "sint (seconds m) = 1000000000 * sint m" and "sint (seconds n) = 1000000000 * sint n"
    using assms by (auto intro: sint_seconds)
  then have "sint (seconds m + seconds n)
      = signed_take_bit 63 (1000000000 * sint m + 1000000000 * sint n)"
    unfolding sint_word_ariths by simp
  also have "\<dots> = 1000000000 * sint m + 1000000000 * sint n"
    by (rule signed_take_bit_int_eq_self) (use assms in auto)
  finally show ?thesis by simp
qed

section \<open>Hexadecimal text\<close>

definition hex_digit :: "nat \<Rightarrow> char" where
  "hex_digit n = ''0123456789abcdef'' ! n"

definition hex_encode :: "8 word list \<Rightarrow> string" where
  "hex_encode bs = concat (map (\<lambda>b. [hex_digit (unat b div 16), hex_digit (unat b mod 16)]) bs)"

lemma hex_digit_inj: "m < 16 \<Longrightarrow> n < 16 \<Longrightarrow> hex_digit m = hex_digit n \<longleftrightarrow> m = n"
proof -
  have "distinct ''0123456789abcdef''" by simp
  then show "m < 16 \<Longrightarrow> n < 16 \<Longrightarrow> hex_digit m = hex_digit n \<longleftrightarrow> m = n"
    unfolding hex_digit_def by (subst nth_eq_iff_index_eq) auto
qed

lemma hex_encode_inj: "hex_encode as = hex_encode bs \<longleftrightarrow> as = bs"
proof (induction as arbitrary: bs)
  case Nil
  then show ?case by (cases bs) (auto simp: hex_encode_def)
next
  case (Cons a as)
  show ?case
  proof (cases bs)
    case Nil
    then show ?thesis by (simp add: hex_encode_def)
  next
    case (Cons b bs')
    have lt: "unat x div 16 < 16" for x :: "8 word"
    proof -
      have "unat x < 2 ^ LENGTH(8)" by (rule unsigned_less)
      then show ?thesis by simp
    qed
    have digits: "hex_digit (unat a div 16) = hex_digit (unat b div 16) \<and>
        hex_digit (unat a mod 16) = hex_digit (unat b mod 16) \<longleftrightarrow> a = b"
      by (simp add: hex_digit_inj lt) (metis div_mult_mod_eq word_unat_eq_iff)
    from Cons digits Cons.IH [of bs'] show ?thesis by (auto simp: hex_encode_def)
  qed
qed

end
