(* ===== verification/Api_Types.thy ===== *)
theory Api_Types
  imports Go_Text
begin

text \<open>
  The data that the controllers exchange with the API server: the custom resources of
  \<open>controllers/session/api/v1alpha1/session_types.go\<close> and
  \<open>controllers/gc/api/v1alpha1/gcregistration_types.go\<close>, field by field, and of the Kubernetes
  types (\<open>Pod\<close>, \<open>Service\<close>, \<open>Ingress\<close>, \<open>Condition\<close>) the fields that the program reads or writes.
  A field is named after its Go type and its Go name.
\<close>

section \<open>Pods and pod templates of Kubernetes\<close>

record containerPort =
  port_Name :: string
  port_Protocol :: string
  port_ContainerPort :: int

record container =
  container_Ports :: "containerPort list"

record podSpec =
  podSpec_Containers :: "container list"

record podTemplate =
  template_Name :: string
  template_Spec :: podSpec

record podCondition =
  podCondition_Type :: string
  podCondition_Status :: string

text \<open>The owner that \<open>metav1.GetControllerOf\<close> finds for an object.\<close>

record ownerReference =
  owner_APIVersion :: string
  owner_Kind :: string
  owner_Name :: string

record kpod =
  kpod_Name :: string
  kpod_Namespace :: string
  kpod_Labels :: "(string, string) nilmap"
  kpod_Controller :: "ownerReference option"
  kpod_Spec :: podSpec
  kpod_Conditions :: "podCondition list"

section \<open>Services and ingresses of Kubernetes\<close>

record servicePort =
  svcPort_Protocol :: string
  svcPort_Port :: int
  svcPort_Name :: string

record service =
  svc_Name :: string
  svc_Namespace :: string
  svc_Labels :: "(string, string) nilmap"
  svc_Ports :: "servicePort list"
  svc_Selector :: "(string, string) gomap"
  svc_LoadBalancerIPs :: "string list"

record httpIngressPath =
  path_Path :: string
  path_PathType :: string
  path_ServiceName :: string
  path_PortNumber :: int

text \<open>The field \<open>HTTP\<close> of a rule is a pointer, nil in a rule without paths.\<close>

record ingressRule =
  rule_HTTP :: "httpIngressPath list option"

record ingress =
  ingress_Rules :: "ingressRule list"

section \<open>The Session resource\<close>

text \<open>\<open>ClientPodTemplate\<close> embeds \<open>corev1.PodTemplate\<close>.\<close>

record clientPodTemplate = podTemplate +
  template_MaxClients :: int

record sessionSpec =
  spec_SessionPodTemplates :: "podTemplate list"
  spec_ClientPodTemplates :: "clientPodTemplate list"
  spec_TimeoutSeconds :: int64
  spec_ReutilizeTimeoutSeconds :: int64
  spec_Clients :: "(string, bool) nilmap"

record podStatus =
  podStatus_Paths :: "string list"
  podStatus_Ready :: bool

record clientStatus =
  clientStatus_LastSeenAt :: instant
  clientStatus_Ready :: bool
  clientStatus_PodStatus :: "(string, podStatus) gomap"

record condition =
  condition_Type :: string
  condition_Status :: string
  condition_Reason :: string
  condition_Message :: string
  condition_LastTransitionTime :: instant

record sessionPodsStatus =
  podsStatus_Conditions :: "condition list"
  podsStatus_PodsStatus :: "(string, podStatus) nilmap"

record sessionStatus =
  status_SessionPods :: sessionPodsStatus
  status_Clients :: "(string, clientStatus) nilmap"

record session =
  session_Name :: string
  session_Namespace :: string
  session_Annotations :: "(string, string) nilmap"
  session_Spec :: sessionSpec
  session_Status :: sessionStatus

section \<open>The GCRegistration resource\<close>

text \<open>\<open>RegistrationType\<close> is a string with two named values.\<close>

datatype registrationType = Timeout | ReutilizeTimeout | OtherType string

record objectReference =
  ref_Name :: string
  ref_Namespace :: string

record gcRegistration =
  gc_Name :: string
  gc_Namespace :: string
  gc_CreationTimestamp :: instant
  gc_Session :: objectReference
  gc_Type :: registrationType

section \<open>Zero values\<close>

definition zero_podSpec :: podSpec where
  "zero_podSpec = \<lparr>podSpec_Containers = []\<rparr>"

definition zero_clientPodTemplate :: clientPodTemplate where
  "zero_clientPodTemplate =
     \<lparr>template_Name = [], template_Spec = zero_podSpec, template_MaxClients = 0\<rparr>"

definition zero_podStatus :: podStatus where
  "zero_podStatus = \<lparr>podStatus_Paths = [], podStatus_Ready = False\<rparr>"

text \<open>The zero instant of Go is the first of January of the year 1.\<close>

definition zero_time :: instant where
  "zero_time = - 62135596800 * 1000000000"

definition zero_clientStatus :: clientStatus where
  "zero_clientStatus =
     \<lparr>clientStatus_LastSeenAt = zero_time, clientStatus_Ready = False,
      clientStatus_PodStatus = []\<rparr>"

end
