(* ===== verification/Client_Lifecycle.thy ===== *)
theory Client_Lifecycle
  imports Api_Types
begin

text \<open>
  The part of \<open>client_pods.go\<close> that follows the clients of a session:
  \<open>clientHasExpired\<close>, \<open>cleanExpiredClientsFromStatus\<close> and \<open>handleClientChanges\<close>, and the names of
  the \<open>range\<close> statements of the session controller, which index the iteration orders.
  The abstract counterpart is \<open>client_next\<close>, a state machine per client with the states absent,
  online and away since an instant; the lemmas show that the loops implement it client by client,
  in every iteration order.
\<close>

section \<open>The range statements of the session controller\<close>

datatype loop =
    RangeExpired
  | RangeSpecClients
  | RangeStatusClients
  | RangePodStatus string
  | RangeAllocation string
  | RangeReutilizePod string string
  | RangeReutilizeMap
  | RangeReutilizePods string
  | RangeAllocationGC
  | RangeAllocationSpawn
  | RangeSessionPods

type_synonym iteration = "loop \<Rightarrow> string list \<Rightarrow> string list"

section \<open>Expiry\<close>

text \<open>\<open>time.Date(1, 1, 1, 1, 1, 1, 1, time.UTC)\<close>: the mark of a connected client.\<close>

definition defaultTime :: instant where
  "defaultTime = zero_time + (3600 + 60 + 1) * 1000000000 + 1"

definition clientHasExpired :: "instant \<Rightarrow> instant \<Rightarrow> int64 \<Rightarrow> bool" where
  "clientHasExpired now lastSeen timeoutSeconds \<longleftrightarrow>
     (if unix lastSeen = unix defaultTime then False
      else time_add lastSeen (seconds timeoutSeconds) < now \<or>
           time_add lastSeen (seconds timeoutSeconds) = now)"

definition cleanExpiredClient ::
    "instant \<Rightarrow> int64 \<Rightarrow> string \<Rightarrow> (string, clientStatus) gomap \<Rightarrow> (string, clientStatus) gomap" where
  "cleanExpiredClient now timeoutSeconds k clients =
     (case map_of clients k of
        None \<Rightarrow> clients
      | Some v \<Rightarrow>
          if clientHasExpired now (clientStatus_LastSeenAt v) timeoutSeconds
          then map_del k clients else clients)"

definition cleanExpiredClientsFromStatus ::
    "iteration \<Rightarrow> instant \<Rightarrow> (string, clientStatus) gomap \<Rightarrow> int64
       \<Rightarrow> (string, clientStatus) gomap" where
  "cleanExpiredClientsFromStatus ord now clients timeoutSeconds =
     fold (cleanExpiredClient now timeoutSeconds) (ord RangeExpired (map_keys clients)) clients"

section \<open>New clients, lost and restored connections\<close>

definition handleClientChange ::
    "instant \<Rightarrow> (string, bool) gomap \<Rightarrow> string
       \<Rightarrow> (string, clientStatus) gomap \<times> string list
       \<Rightarrow> (string, clientStatus) gomap \<times> string list" where
  "handleClientChange now specClients specClient = (\<lambda>(statusClients, newClients).
     let connected = map_get_zero False specClients specClient;
         ok = (map_of statusClients specClient \<noteq> None);
         match = map_get_zero zero_clientStatus statusClients specClient
     in if ok \<and> \<not> connected \<and> unix (clientStatus_LastSeenAt match) = unix defaultTime then
          (map_put specClient (match\<lparr>clientStatus_LastSeenAt := now\<rparr>) statusClients, newClients)
        else if \<not> ok \<and> connected then
          (statusClients, newClients @ [specClient])
        else if connected then
          (map_put specClient (match\<lparr>clientStatus_LastSeenAt := defaultTime\<rparr>) statusClients,
           newClients)
        else (statusClients, newClients))"

definition handleClientChanges ::
    "iteration \<Rightarrow> instant \<Rightarrow> (string, bool) gomap \<Rightarrow> (string, clientStatus) gomap
       \<Rightarrow> (string, clientStatus) gomap \<times> string list" where
  "handleClientChanges ord now specClients statusClients =
     fold (handleClientChange now specClients) (ord RangeSpecClients (map_keys specClients))
       (statusClients, [])"

section \<open>What the loops compute, client by client\<close>

lemma map_of_cleanExpired:
  assumes "permutes_keys ord" and "map_ok clients"
  shows "map_of (cleanExpiredClientsFromStatus ord now clients timeoutSeconds) =
    (\<lambda>k. case map_of clients k of None \<Rightarrow> None
       | Some v \<Rightarrow> if clientHasExpired now (clientStatus_LastSeenAt v) timeoutSeconds then None
                 else Some v)"
  unfolding cleanExpiredClientsFromStatus_def
proof (rule gm.range_pointwise [where F = "\<lambda>k o'. case o' of None \<Rightarrow> None
       | Some v \<Rightarrow> if clientHasExpired now (clientStatus_LastSeenAt v) timeoutSeconds then None
                 else Some v"])
  show "map_of (cleanExpiredClient now timeoutSeconds k m) =
      (map_of m)(k := case map_of m k of None \<Rightarrow> None
       | Some v \<Rightarrow> if clientHasExpired now (clientStatus_LastSeenAt v) timeoutSeconds then None
                 else Some v)" for k m
    by (auto simp: cleanExpiredClient_def fun_eq_iff split: option.splits)
qed (use assms in \<open>auto simp: permutes_keysD\<close>)

lemma map_ok_cleanExpired [simp]:
  "map_ok clients \<Longrightarrow> map_ok (cleanExpiredClientsFromStatus ord now clients timeoutSeconds)"
  unfolding cleanExpiredClientsFromStatus_def
  by (rule gm.ok_loop) (auto simp: cleanExpiredClient_def split: option.splits)

text \<open>The new status of a client that is in the status, and the test for a new client.\<close>

definition changed_status :: "instant \<Rightarrow> bool \<Rightarrow> clientStatus \<Rightarrow> clientStatus" where
  "changed_status now connected v =
     (if connected then v\<lparr>clientStatus_LastSeenAt := defaultTime\<rparr>
      else if unix (clientStatus_LastSeenAt v) = unix defaultTime
      then v\<lparr>clientStatus_LastSeenAt := now\<rparr> else v)"

definition is_new_client ::
    "(string, bool) gomap \<Rightarrow> (string, clientStatus) gomap \<Rightarrow> string \<Rightarrow> bool" where
  "is_new_client specClients statusClients c \<longleftrightarrow>
     map_of specClients c = Some True \<and> map_of statusClients c = None"

lemma handleClientChange_status:
  "c \<in> dom (map_of spec) \<Longrightarrow> map_of (fst (handleClientChange now spec c (st, new))) =
     (map_of st)(c := map_option (changed_status now (the (map_of spec c))) (map_of st c))"
  by (auto simp: handleClientChange_def changed_status_def Let_def fun_eq_iff)

lemma handleClientChange_new:
  "c \<in> dom (map_of spec) \<Longrightarrow> snd (handleClientChange now spec c (st, new)) =
     new @ (if is_new_client spec st c then [c] else [])"
  by (auto simp: handleClientChange_def is_new_client_def Let_def)

lemma handleClientChange_ok:
  "map_ok st \<Longrightarrow> map_ok (fst (handleClientChange now spec c (st, new)))"
  by (auto simp: handleClientChange_def Let_def)

lemma handleClientChange_loop:
  assumes "set cs \<subseteq> dom (map_of spec)" and "distinct cs"
  shows "map_of (fst (fold (handleClientChange now spec) cs (st, new))) =
      (\<lambda>c. if c \<in> set cs
         then map_option (changed_status now (the (map_of spec c))) (map_of st c)
         else map_of st c) \<and>
    snd (fold (handleClientChange now spec) cs (st, new)) =
      new @ filter (is_new_client spec st) cs"
  using assms
proof (induction cs arbitrary: st new)
  case Nil
  then show ?case by simp
next
  case (Cons c cs)
  obtain st' new' where s: "handleClientChange now spec c (st, new) = (st', new')" by force
  have c: "c \<in> dom (map_of spec)" using Cons.prems(1) by simp
  have st': "map_of st' =
      (map_of st)(c := map_option (changed_status now (the (map_of spec c))) (map_of st c))"
    using handleClientChange_status [OF c, of now st new] s by simp
  have new': "new' = new @ (if is_new_client spec st c then [c] else [])"
    using handleClientChange_new [OF c, of now st new] s by simp
  have "filter (is_new_client spec st') cs = filter (is_new_client spec st) cs"
    using Cons.prems(2) by (intro filter_cong) (auto simp: is_new_client_def st')
  with Cons.IH [of st' new'] Cons.prems show ?case
    by (auto simp: s new' st' fun_eq_iff)
qed

lemma handleClientChanges_spec:
  assumes "permutes_keys ord" and "map_ok spec"
    and "handleClientChanges ord now spec st = (st', new)"
  shows "map_of st' = (\<lambda>c. case map_of spec c of None \<Rightarrow> map_of st c
      | Some connected \<Rightarrow> map_option (changed_status now connected) (map_of st c))"
    and "new = filter (is_new_client spec st) (ord RangeSpecClients (map_keys spec))"
proof -
  let ?cs = "ord RangeSpecClients (map_keys spec)"
  have cs: "set ?cs = dom (map_of spec)" "distinct ?cs"
    using assms(1,2) by (auto simp: go_order_simps map_ok_keys)
  then have "set ?cs \<subseteq> dom (map_of spec)" by simp
  from handleClientChange_loop [OF this cs(2), of now st "[]"] assms(3)
  show "map_of st' = (\<lambda>c. case map_of spec c of None \<Rightarrow> map_of st c
      | Some connected \<Rightarrow> map_option (changed_status now connected) (map_of st c))"
    and "new = filter (is_new_client spec st) ?cs"
    by (auto simp: handleClientChanges_def cs fun_eq_iff domIff split: option.splits)
qed

lemma map_ok_handleClientChanges:
  assumes "map_ok st" and "handleClientChanges ord now spec st = (st', new)"
  shows "map_ok st'"
proof -
  have "map_ok (fst (fold (handleClientChange now spec) cs p))" if "map_ok (fst p)" for cs p
    using that by (rule fold_invariant_set) (metis handleClientChange_ok prod.collapse)
  from this [of "(st, [])"] assms show ?thesis
    unfolding handleClientChanges_def by (metis fst_conv)
qed

section \<open>The state machine of a client\<close>

datatype presence = Absent | Online | Away instant

fun presence_of :: "clientStatus option \<Rightarrow> presence" where
  "presence_of None = Absent"
| "presence_of (Some v) =
     (if unix (clientStatus_LastSeenAt v) = unix defaultTime then Online
      else Away (clientStatus_LastSeenAt v))"

text \<open>
  One reconciliation: an away client whose grace period is over is forgotten; then a client that
  left the spec is forgotten, a connected one is online (a new one is allocated), and an online
  one that lost its connection is away from now on.
\<close>

fun expire :: "instant \<Rightarrow> int64 \<Rightarrow> presence \<Rightarrow> presence" where
  "expire now timeoutSeconds (Away t) =
     (if time_add t (seconds timeoutSeconds) \<le> now then Absent else Away t)"
| "expire now timeoutSeconds p = p"

fun client_next :: "instant \<Rightarrow> int64 \<Rightarrow> bool option \<Rightarrow> presence \<Rightarrow> presence" where
  "client_next now timeoutSeconds None p = Absent"
| "client_next now timeoutSeconds (Some True) p = Online"
| "client_next now timeoutSeconds (Some False) p =
     (case expire now timeoutSeconds p of Online \<Rightarrow> Away now | p' \<Rightarrow> p')"

lemma clientHasExpired_expire:
  "clientHasExpired now (clientStatus_LastSeenAt v) ts \<longleftrightarrow>
     expire now ts (presence_of (Some v)) = Absent"
  by (auto simp: clientHasExpired_def)

text \<open>
  The grace period in seconds.  Up to 9223372036 seconds the product with a second does not wrap
  around, and a client expires exactly when the period is over.
\<close>

lemma clientHasExpired_exact:
  assumes "0 \<le> sint ts" and "sint ts \<le> 9223372036"
  shows "clientHasExpired now t ts \<longleftrightarrow>
    unix t \<noteq> unix defaultTime \<and> t + 1000000000 * sint ts \<le> now"
proof -
  have "sint (seconds ts) = 1000000000 * sint ts" using assms by (intro sint_seconds) auto
  then show ?thesis by (auto simp: clientHasExpired_def time_add_def)
qed

end
