(* ===== verification/Pod_Names.thy ===== *)
theory Pod_Names
  imports Api_Types
begin

text \<open>
  The text that ties a pod to its session, its template and its URL paths: the names built in
  \<open>client_pods.go\<close> and \<open>session_pods.go\<close>, the template name read back from a pod name by
  \<open>strings.Split(podName, "-")[2]\<close>, and the paths of \<open>buildPodStatus\<close> and
  \<open>concatIngressExternalIpToPodPaths\<close>.
\<close>

section \<open>Pod names\<close>

text \<open>
  The name of a new client pod (\<open>allocateClients\<close>).  \<open>uuid\<close> is the text of a fresh
  \<open>uuid.New()\<close>, always 36 characters long, so that its slice \<open>[:4]\<close> is defined.
\<close>

definition newPodName :: "string \<Rightarrow> string \<Rightarrow> string \<Rightarrow> string" where
  "newPodName sessionName templateName uuid =
     sessionName @ ''-'' @ templateName @ ''-'' @ take 4 uuid"

definition sessionPodName :: "string \<Rightarrow> string \<Rightarrow> string" where
  "sessionPodName sessionName templateName = sessionName @ ''-'' @ templateName"

definition templateNameOf :: "string \<Rightarrow> string option" where
  "templateNameOf podName = go_index (split_on (CHR ''-'') podName) 2"

lemma templateNameOf_panics: "templateNameOf n = None \<longleftrightarrow> count_list n (CHR ''-'') < 2"
  by (auto simp: templateNameOf_def go_index_def length_split_on)

lemma templateNameOf_general:
  assumes "CHR ''-'' \<notin> set a" and "CHR ''-'' \<notin> set b" and "CHR ''-'' \<notin> set t"
  shows "templateNameOf (a @ ''-'' @ b @ ''-'' @ t @ ''-'' @ rest) = Some t"
  using assms by (simp add: templateNameOf_def go_index_def split_on_append)

lemma one_dash_split:
  assumes "count_list s (CHR ''-'') = 1"
  obtains a b where "s = a @ CHR ''-'' # b" "CHR ''-'' \<notin> set a" "CHR ''-'' \<notin> set b"
proof -
  have "CHR ''-'' \<in> set s" using assms by (metis count_list_0_iff zero_neq_one)
  then obtain a b where ab: "s = a @ CHR ''-'' # b" "CHR ''-'' \<notin> set a"
    by (auto dest: split_list_first)
  then have "count_list b (CHR ''-'') = 0" using assms by simp
  with ab that show thesis by (simp add: count_list_0_iff)
qed

lemma templateNameOf_newPodName:
  assumes "count_list s (CHR ''-'') = 1" and "CHR ''-'' \<notin> set t"
  shows "templateNameOf (newPodName s t u) = Some t"
proof -
  obtain a b where s: "s = a @ CHR ''-'' # b" "CHR ''-'' \<notin> set a" "CHR ''-'' \<notin> set b"
    using assms(1) by (rule one_dash_split)
  from templateNameOf_general [OF s(2,3) assms(2)] s(1) show ?thesis
    by (simp add: newPodName_def)
qed

lemma templateNameOf_dashed:
  assumes "CHR ''-'' \<notin> set b"
  shows "templateNameOf (newPodName (a @ ''-'' @ b) t u) = Some (if CHR ''-'' \<in> set a
    then split_on (CHR ''-'') (a @ ''-'' @ b) ! 2 else takeWhile (\<lambda>c. c \<noteq> CHR ''-'') t)"
proof (cases "CHR ''-'' \<in> set a")
  case True
  then have "count_list a (CHR ''-'') \<noteq> 0" by (simp add: count_list_0_iff)
  then have "2 < length (split_on (CHR ''-'') (a @ ''-'' @ b))" by (simp add: length_split_on)
  with True show ?thesis
    using split_on_join [of "CHR ''-''" "a @ ''-'' @ b" "t @ ''-'' @ take 4 u"]
    by (simp add: templateNameOf_def newPodName_def go_index_def nth_append)
next
  case False
  have "split_on (CHR ''-'') (a @ ''-'' @ b @ ''-'' @ t @ ''-'' @ take 4 u)
      = a # b # split_on (CHR ''-'') (t @ CHR ''-'' # take 4 u)"
    using False assms by (simp add: split_on_append)
  then show ?thesis using False
    by (simp add: templateNameOf_def newPodName_def go_index_def split_on_first)
qed

lemma newPodName_inject:
  assumes "newPodName s t u = newPodName s t' u'"
    and "CHR ''-'' \<notin> set t" and "CHR ''-'' \<notin> set t'"
  shows "t = t' \<and> take 4 u = take 4 u'"
proof -
  from assms(1) have eq: "t @ CHR ''-'' # take 4 u = t' @ CHR ''-'' # take 4 u'"
    by (simp add: newPodName_def)
  then have "split_on (CHR ''-'') (t @ CHR ''-'' # take 4 u)
      = split_on (CHR ''-'') (t' @ CHR ''-'' # take 4 u')" by simp
  with assms(2,3) have "t = t'" by (simp add: split_on_append)
  with eq show ?thesis by simp
qed

section \<open>Paths\<close>

definition buildPodStatus :: "string \<Rightarrow> podSpec \<Rightarrow> podStatus" where
  "buildPodStatus podName spec =
     \<lparr>podStatus_Paths =
        concat (map (\<lambda>c. map (\<lambda>p. ''/'' @ podName @ ''/'' @ port_Name p) (container_Ports c))
          (podSpec_Containers spec)),
      podStatus_Ready = False\<rparr>"

definition scheme :: string where
  "scheme = ''https://''"

lemma length_scheme [simp]: "length scheme = 8"
  by (simp add: scheme_def)

lemma scheme_head: "go_index (scheme @ p) 0 = Some (CHR ''h'')"
  by (simp add: scheme_def go_index_def)

text \<open>
  One turn of the loop of \<open>concatIngressExternalIpToPodPaths\<close>: a path that starts with a slash
  gets the scheme and the address, a path that has them gets the new address.  An empty path, a
  path shorter than the scheme and one without a slash behind the scheme panic.
\<close>

definition concatIngressExternalIpToPath :: "string \<Rightarrow> string \<Rightarrow> string option" where
  "concatIngressExternalIpToPath ipAddress path = do {
     c \<leftarrow> go_index path 0;
     if c = CHR ''/'' then Some (scheme @ ipAddress @ path)
     else do {
       p \<leftarrow> go_slice_from path (int (length scheme));
       q \<leftarrow> go_slice_from p (index_of (CHR ''/'') p);
       Some (scheme @ ipAddress @ q) } }"

definition concatIngressExternalIpToPodPaths :: "string \<Rightarrow> podStatus \<Rightarrow> podStatus option" where
  "concatIngressExternalIpToPodPaths ipAddress st = do {
     ps \<leftarrow> those (map (concatIngressExternalIpToPath ipAddress) (podStatus_Paths st));
     Some (st\<lparr>podStatus_Paths := ps\<rparr>) }"

lemma concat_path_rooted [simp]:
  "concatIngressExternalIpToPath ip (CHR ''/'' # p) = Some (scheme @ ip @ CHR ''/'' # p)"
  by (simp add: concatIngressExternalIpToPath_def go_index_def)

lemma concat_path_again:
  assumes "CHR ''/'' \<notin> set ip"
  shows "concatIngressExternalIpToPath ip' (scheme @ ip @ CHR ''/'' # p)
    = Some (scheme @ ip' @ CHR ''/'' # p)"
  using assms
  by (simp add: concatIngressExternalIpToPath_def scheme_head go_slice_from_def index_of_append)

text \<open>
  The paths a pod status has in the program: rooted ones, or the same behind the scheme and an
  address without a slash.
\<close>

definition path_ok :: "string \<Rightarrow> bool" where
  "path_ok p \<longleftrightarrow> (\<exists>q. p = CHR ''/'' # q) \<or>
     (\<exists>ip q. CHR ''/'' \<notin> set ip \<and> p = scheme @ ip @ CHR ''/'' # q)"

definition paths_ok :: "podStatus \<Rightarrow> bool" where
  "paths_ok st \<longleftrightarrow> list_all path_ok (podStatus_Paths st)"

lemma concat_path_ok:
  assumes "path_ok p" and "CHR ''/'' \<notin> set ip"
  shows "\<exists>p'. concatIngressExternalIpToPath ip p = Some p' \<and> path_ok p'"
proof -
  have ok: "path_ok (scheme @ ip @ CHR ''/'' # q)" for q
    using assms(2) by (auto simp: path_ok_def)
  from assms(1) show ?thesis
    by (auto simp: path_ok_def [of p] concat_path_again ok)
qed

lemma concat_path_refresh:
  assumes "path_ok p" and "CHR ''/'' \<notin> set ip" and "concatIngressExternalIpToPath ip p = Some p'"
  shows "concatIngressExternalIpToPath ip' p' = concatIngressExternalIpToPath ip' p"
  using assms unfolding path_ok_def by (auto simp: concat_path_again)

lemma concat_paths_ok:
  assumes "paths_ok st" and "CHR ''/'' \<notin> set ip"
  shows "\<exists>st'. concatIngressExternalIpToPodPaths ip st = Some st' \<and> paths_ok st'
    \<and> podStatus_Ready st' = podStatus_Ready st"
proof -
  have "\<forall>p \<in> set (podStatus_Paths st). \<exists>p'. concatIngressExternalIpToPath ip p = Some p' \<and> path_ok p'"
    using assms concat_path_ok by (auto simp: paths_ok_def list_all_iff)
  then obtain f where f: "\<forall>p \<in> set (podStatus_Paths st).
      concatIngressExternalIpToPath ip p = Some (f p) \<and> path_ok (f p)" by metis
  then have "those (map (concatIngressExternalIpToPath ip) (podStatus_Paths st))
      = Some (map f (podStatus_Paths st))" by (simp add: those_Some_iff)
  with f show ?thesis
    by (simp add: concatIngressExternalIpToPodPaths_def paths_ok_def list_all_iff)
qed

lemma paths_ok_build: "paths_ok (buildPodStatus podName spec)"
  by (auto simp: paths_ok_def buildPodStatus_def path_ok_def list_all_iff)

lemma podStatus_Ready_build [simp]: "podStatus_Ready (buildPodStatus podName spec) = False"
  by (simp add: buildPodStatus_def)

lemma concat_paths_refresh:
  assumes "paths_ok st" and "CHR ''/'' \<notin> set ip"
    and "concatIngressExternalIpToPodPaths ip st = Some st'"
  shows "concatIngressExternalIpToPodPaths ip' st' = concatIngressExternalIpToPodPaths ip' st"
proof -
  from assms(3) obtain ps where ps:
    "map (concatIngressExternalIpToPath ip) (podStatus_Paths st) = map Some ps"
    "st' = st\<lparr>podStatus_Paths := ps\<rparr>"
    by (auto simp: concatIngressExternalIpToPodPaths_def those_Some_iff split: Option.bind_splits)
  have "length ps = length (podStatus_Paths st)" using ps(1) by (metis length_map)
  moreover have "concatIngressExternalIpToPath ip' (ps ! i)
      = concatIngressExternalIpToPath ip' (podStatus_Paths st ! i)"
    if "i < length ps" for i
  proof (rule concat_path_refresh)
    show "path_ok (podStatus_Paths st ! i)"
      using assms(1) that calculation by (simp add: paths_ok_def list_all_length)
    show "concatIngressExternalIpToPath ip (podStatus_Paths st ! i) = Some (ps ! i)"
      using ps(1) that calculation by (metis nth_map)
  qed (fact assms(2))
  ultimately have "map (concatIngressExternalIpToPath ip') ps
      = map (concatIngressExternalIpToPath ip') (podStatus_Paths st)"
    by (intro nth_equalityI) auto
  with ps(2) show ?thesis by (simp add: concatIngressExternalIpToPodPaths_def)
qed

end
