(* ===== verification/Go_Sort.thy ===== *)
theory Go_Sort
  imports Go_Base
begin

text \<open>
  \<open>sort.Slice\<close> of Go's standard library.  For a slice of at most twelve elements it is the
  insertion sort modelled here: element \<open>i\<close> is swapped to the left as long as \<open>less\<close> puts it
  before its left neighbour.  The part already sorted is kept in reverse, so that the left
  neighbour is the head.  A longer slice takes another path to a sorted permutation, which is the
  same list when \<open>less\<close> is antisymmetric on its elements (\<open>sorted_perm_unique\<close>).
  The comparison may panic.
\<close>

fun insert_left :: "('a \<Rightarrow> 'a \<Rightarrow> bool option) \<Rightarrow> 'a \<Rightarrow> 'a list \<Rightarrow> 'a list option" where
  "insert_left before x [] = Some [x]"
| "insert_left before x (y # ys) = do {
     b \<leftarrow> before x y;
     if b then do { zs \<leftarrow> insert_left before x ys; Some (y # zs) } else Some (x # y # ys) }"

definition sort_slice :: "('a \<Rightarrow> 'a \<Rightarrow> bool option) \<Rightarrow> 'a list \<Rightarrow> 'a list option" where
  "sort_slice before xs = map_option rev (fold_opt (insert_left before) xs [])"

lemma insert_left_mset: "insert_left before x ys = Some zs \<Longrightarrow> mset zs = add_mset x (mset ys)"
  by (induction ys arbitrary: zs) (auto split: Option.bind_splits if_splits)

text \<open>Whatever the comparison is, the result is a permutation.\<close>

lemma sort_slice_mset: "sort_slice before xs = Some ys \<Longrightarrow> mset ys = mset xs"
proof -
  have "fold_opt (insert_left before) xs acc = Some zs \<Longrightarrow> mset zs = mset xs + mset acc" for acc zs
    by (induction xs arbitrary: acc) (auto dest: insert_left_mset split: Option.bind_splits)
  then show "sort_slice before xs = Some ys \<Longrightarrow> mset ys = mset xs"
    by (fastforce simp: sort_slice_def)
qed

text \<open>
  The contract of \<open>sort.Slice\<close> for a comparison that is defined and a total preorder on the
  elements that satisfy \<open>ok\<close>.  Go asks for a strict order; the comparison of the program is the
  negation of one, hence reflexive, and the sort still delivers.
\<close>

locale slice_less =
  fixes before :: "'a \<Rightarrow> 'a \<Rightarrow> bool option" and le :: "'a \<Rightarrow> 'a \<Rightarrow> bool" and ok :: "'a \<Rightarrow> bool"
  assumes before_defined: "ok x \<Longrightarrow> ok y \<Longrightarrow> before x y = Some (le x y)"
    and le_total: "ok x \<Longrightarrow> ok y \<Longrightarrow> le x y \<or> le y x"
    and le_trans: "ok x \<Longrightarrow> ok y \<Longrightarrow> ok z \<Longrightarrow> le x y \<Longrightarrow> le y z \<Longrightarrow> le x z"
begin

lemma insert_left_sorted:
  assumes "ok x" and "\<forall>y \<in> set ys. ok y" and "sorted_wrt (\<lambda>a b. le b a) ys"
  shows "\<exists>zs. insert_left before x ys = Some zs \<and> mset zs = add_mset x (mset ys) \<and>
    sorted_wrt (\<lambda>a b. le b a) zs"
  using assms
proof (induction ys)
  case Nil
  then show ?case by simp
next
  case (Cons y ys)
  then obtain zs where zs: "insert_left before x ys = Some zs" "mset zs = add_mset x (mset ys)"
      "sorted_wrt (\<lambda>a b. le b a) zs" by auto
  from zs(2) have zs_set: "set zs = insert x (set ys)"
    by (metis set_mset_add_mset_insert set_mset_mset)
  show ?case
  proof (cases "le x y")
    case True
    with Cons.prems zs zs_set show ?thesis by (auto simp: before_defined)
  next
    case False
    then have yx: "le y x" using Cons.prems le_total by auto
    have "\<forall>z \<in> set ys. le z x" using Cons.prems yx by (auto intro: le_trans)
    with False yx Cons.prems show ?thesis by (auto simp: before_defined)
  qed
qed

lemma sort_slice_loop:
  assumes "\<forall>x \<in> set xs. ok x" and "\<forall>y \<in> set acc. ok y"
    and "sorted_wrt (\<lambda>a b. le b a) acc"
  shows "\<exists>zs. fold_opt (insert_left before) xs acc = Some zs \<and> mset zs = mset xs + mset acc \<and>
    sorted_wrt (\<lambda>a b. le b a) zs"
  using assms
proof (induction xs arbitrary: acc)
  case Nil
  then show ?case by simp
next
  case (Cons x xs)
  then obtain ys where ys: "insert_left before x acc = Some ys" "mset ys = add_mset x (mset acc)"
      "sorted_wrt (\<lambda>a b. le b a) ys"
    using insert_left_sorted [of x acc] by auto
  from ys(2) have "set ys = insert x (set acc)"
    by (metis set_mset_add_mset_insert set_mset_mset)
  with Cons.prems have "\<forall>y \<in> set ys. ok y" by auto
  with Cons.IH [of ys] Cons.prems ys show ?case by auto
qed

theorem sort_slice_sorts:
  assumes "\<forall>x \<in> set xs. ok x"
  shows "\<exists>ys. sort_slice before xs = Some ys \<and> mset ys = mset xs \<and> sorted_wrt le ys"
proof -
  obtain zs where "fold_opt (insert_left before) xs [] = Some zs" "mset zs = mset xs"
      "sorted_wrt (\<lambda>a b. le b a) zs"
    using sort_slice_loop [of xs "[]"] assms by auto
  then show ?thesis by (auto simp: sort_slice_def sorted_wrt_rev)
qed

end

text \<open>Two sorted permutations agree where the order is antisymmetric.\<close>

lemma sorted_perm_unique:
  assumes "sorted_wrt le xs" and "sorted_wrt le ys" and "mset xs = mset ys"
    and "\<And>x y. x \<in> set xs \<Longrightarrow> y \<in> set xs \<Longrightarrow> le x y \<Longrightarrow> le y x \<Longrightarrow> x = y"
  shows "xs = ys"
  using assms
proof (induction xs arbitrary: ys)
  case Nil
  then show ?case by simp
next
  case (Cons x xs)
  then obtain y ys' where ys: "ys = y # ys'" by (cases ys) auto
  have sets: "set (x # xs) = set ys" using Cons.prems(3) mset_eq_setD by metis
  have "x = y"
  proof (rule ccontr)
    assume ne: "x \<noteq> y"
    then have "x \<in> set ys'" and "y \<in> set xs" using sets ys by auto
    then have "le y x" and "le x y" using Cons.prems(1,2) ys by auto
    with Cons.prems(4) [of x y] \<open>y \<in> set xs\<close> ne show False by simp
  qed
  with Cons.IH [of ys'] Cons.prems ys show ?case by simp
qed

end
