(* ===== verification/Allocation.thy ===== *)
theory Allocation
  imports Client_Lifecycle Pod_Names Go_Sort
begin

text \<open>
  The allocation of the clients of a session to pods, from \<open>client_pods.go\<close>: the allocation map
  (\<open>initAllocationMap\<close>, \<open>buildAllocationMap\<close>, \<open>sortAllocationMap\<close>), the pods of the cluster by
  template (\<open>templatePodMapping\<close>) and the placement of new clients (\<open>allocateClients\<close>).
\<close>

section \<open>Data\<close>

record podClient =
  podClient_Id :: string
  podClient_Connected :: bool

record pod =
  pod_Name :: string
  pod_Clients :: "podClient list"

record allocationValue =
  alloc_PodTemplate :: clientPodTemplate
  alloc_Pods :: "pod list"

text \<open>Keyed by template name; the second by template name and pod name.\<close>

type_synonym allocationMap = "(string, allocationValue) gomap"
type_synonym templatePodMap = "(string, (string, kpod) gomap) gomap"

definition zero_allocationValue :: allocationValue where
  "zero_allocationValue = \<lparr>alloc_PodTemplate = zero_clientPodTemplate, alloc_Pods = []\<rparr>"

section \<open>Operations\<close>

definition initAllocationMap :: "clientPodTemplate list \<Rightarrow> allocationMap" where
  "initAllocationMap clientPodTemplates =
     fold (\<lambda>podTemplate. map_put (template_Name podTemplate)
         \<lparr>alloc_PodTemplate = podTemplate, alloc_Pods = []\<rparr>) clientPodTemplates []"

definition templatePodMappingStep :: "kpod \<Rightarrow> templatePodMap \<Rightarrow> templatePodMap option" where
  "templatePodMappingStep pod templatePodMap = do {
     templateName \<leftarrow> templateNameOf (kpod_Name pod);
     Some (case map_of templatePodMap templateName of
         None \<Rightarrow> map_put templateName [(kpod_Name pod, pod)] templatePodMap
       | Some m \<Rightarrow> map_put templateName (map_put (kpod_Name pod) pod m) templatePodMap) }"

definition templatePodMapping :: "kpod list \<Rightarrow> templatePodMap option" where
  "templatePodMapping pods = fold_opt templatePodMappingStep pods []"

text \<open>
  \<open>delete(m[t], name)\<close> on a map of maps; deleting from the nil map of an absent key does nothing.
\<close>

definition deletePodName :: "string \<Rightarrow> string \<Rightarrow> templatePodMap \<Rightarrow> templatePodMap" where
  "deletePodName templateName podName m =
     (case map_of m templateName of
        None \<Rightarrow> m
      | Some inner \<Rightarrow> map_put templateName (map_del podName inner) m)"

text \<open>The inner loop of \<open>buildAllocationMap\<close>: the client joins the first pod of that name.\<close>

fun addClientToPod :: "string \<Rightarrow> podClient \<Rightarrow> bool \<Rightarrow> pod list \<Rightarrow> pod list \<times> bool" where
  "addClientToPod podName client found [] = ([], found)"
| "addClientToPod podName client found (p # ps) =
     (if \<not> found \<and> pod_Name p = podName then
        (let (ps', found') = addClientToPod podName client True ps
         in (p\<lparr>pod_Clients := pod_Clients p @ [client]\<rparr> # ps', found'))
      else
        (let (ps', found') = addClientToPod podName client found ps in (p # ps', found')))"

definition buildAllocationPod ::
    "podClient \<Rightarrow> string \<Rightarrow> allocationMap \<times> templatePodMap
       \<Rightarrow> (allocationMap \<times> templatePodMap) option" where
  "buildAllocationPod client podName = (\<lambda>(allocationMap, templatePodToReutilizeMap). do {
     podTemplateName \<leftarrow> templateNameOf podName;
     let allocValue = map_get_zero zero_allocationValue allocationMap podTemplateName;
     let (pods, found) = addClientToPod podName client False (alloc_Pods allocValue);
     let pods = (if \<not> found then pods @ [\<lparr>pod_Name = podName, pod_Clients = [client]\<rparr>] else pods);
     Some (map_put podTemplateName (allocValue\<lparr>alloc_Pods := pods\<rparr>) allocationMap,
           deletePodName podTemplateName podName templatePodToReutilizeMap) })"

definition buildAllocationMap ::
    "iteration \<Rightarrow> string \<Rightarrow> clientStatus \<Rightarrow> bool \<Rightarrow> allocationMap \<times> templatePodMap
       \<Rightarrow> (allocationMap \<times> templatePodMap) option" where
  "buildAllocationMap ord clientId clientStatus isClientConnected maps =
     fold_opt
       (buildAllocationPod \<lparr>podClient_Id = clientId, podClient_Connected = isClientConnected\<rparr>)
       (ord (RangePodStatus clientId) (map_keys (clientStatus_PodStatus clientStatus))) maps"

text \<open>
  The order of pods: by the number of clients, then by the text from the last dash of the name
  on, which panics for a name without a dash.
\<close>

definition comparePods :: "pod \<Rightarrow> pod \<Rightarrow> bool option" where
  "comparePods podA podB =
     (if length (pod_Clients podA) < length (pod_Clients podB) then Some True
      else do {
        podIdA \<leftarrow> go_slice_from (pod_Name podA) (last_index_of (CHR ''-'') (pod_Name podA));
        podIdB \<leftarrow> go_slice_from (pod_Name podB) (last_index_of (CHR ''-'') (pod_Name podB));
        Some (length (pod_Clients podA) = length (pod_Clients podB) \<and> podIdA < podIdB) })"

definition podBefore :: "pod \<Rightarrow> pod \<Rightarrow> bool option" where
  "podBefore podA podB = map_option Not (comparePods podA podB)"

text \<open>Each entry is sorted on its own, so the order of the visit does not matter.\<close>

definition sortAllocationMap :: "allocationMap \<Rightarrow> allocationMap option" where
  "sortAllocationMap allocationMap =
     those (map (\<lambda>(templateName, allocValue). do {
       pods \<leftarrow> sort_slice podBefore (alloc_Pods allocValue);
       Some (templateName, allocValue\<lparr>alloc_Pods := pods\<rparr>) }) allocationMap)"

fun findFirstPodAvailableFrom :: "int \<Rightarrow> int \<Rightarrow> pod list \<Rightarrow> int" where
  "findFirstPodAvailableFrom i maxClients [] = - 1"
| "findFirstPodAvailableFrom i maxClients (p # ps) =
     (if int (length (pod_Clients p)) < maxClients then i
      else findFirstPodAvailableFrom (i + 1) maxClients ps)"

definition findFirstPodAvailable :: "int \<Rightarrow> pod list \<Rightarrow> int" where
  "findFirstPodAvailable maxClients pods = findFirstPodAvailableFrom 0 maxClients pods"

text \<open>Some pod of the map, or the empty name; \<open>keys\<close> are its keys in the order of the visit.\<close>

definition reutilizePod :: "string list \<Rightarrow> string" where
  "reutilizePod keys = (case keys of [] \<Rightarrow> [] | k # _ \<Rightarrow> k)"

text \<open>
  One turn of the inner loop of \<open>allocateClients\<close>: the client gets the first pod of the template
  with room, or else a pod of the cluster that nobody uses, or else a pod to be created.
  \<open>newUUID\<close> gives the text of the \<open>uuid.New()\<close> of the turn.
\<close>

definition allocateClientToTemplate ::
    "iteration \<Rightarrow> (string \<Rightarrow> string \<Rightarrow> string) \<Rightarrow> string \<Rightarrow> string \<Rightarrow> string
       \<Rightarrow> allocationMap \<times> templatePodMap \<times> (string, podStatus) gomap
       \<Rightarrow> allocationMap \<times> templatePodMap \<times> (string, podStatus) gomap" where
  "allocateClientToTemplate ord newUUID sessionName clientId podTemplateName =
     (\<lambda>(allocationMap, templatePodToReutilizeMap, pods).
       let client = \<lparr>podClient_Id = clientId, podClient_Connected = True\<rparr>;
           allocValue = map_get_zero zero_allocationValue allocationMap podTemplateName;
           podIndex = findFirstPodAvailable (template_MaxClients (alloc_PodTemplate allocValue))
             (alloc_Pods allocValue);
           reutilized = reutilizePod (ord (RangeReutilizePod clientId podTemplateName)
             (map_keys (map_get_zero [] templatePodToReutilizeMap podTemplateName)));
           podName =
             (if podIndex = - 1 then
                if reutilized = []
                then newPodName sessionName podTemplateName (newUUID clientId podTemplateName)
                else reutilized
              else pod_Name (alloc_Pods allocValue ! nat podIndex));
           templatePodToReutilizeMap' =
             (if podIndex = - 1 \<and> reutilized \<noteq> []
              then deletePodName podTemplateName podName templatePodToReutilizeMap
              else templatePodToReutilizeMap);
           allocPods =
             (if podIndex = - 1
              then alloc_Pods allocValue @ [\<lparr>pod_Name = podName, pod_Clients = [client]\<rparr>]
              else (alloc_Pods allocValue)[nat podIndex := (alloc_Pods allocValue ! nat podIndex)
                \<lparr>pod_Clients := pod_Clients (alloc_Pods allocValue ! nat podIndex) @ [client]\<rparr>])
       in (map_put podTemplateName (allocValue\<lparr>alloc_Pods := allocPods\<rparr>) allocationMap,
           templatePodToReutilizeMap',
           map_put podName
             (buildPodStatus podName (template_Spec (alloc_PodTemplate allocValue))) pods))"

definition allocateClient ::
    "iteration \<Rightarrow> (string \<Rightarrow> string \<Rightarrow> string) \<Rightarrow> string \<Rightarrow> string
       \<Rightarrow> allocationMap \<times> templatePodMap \<times> (string, clientStatus) gomap
       \<Rightarrow> allocationMap \<times> templatePodMap \<times> (string, clientStatus) gomap" where
  "allocateClient ord newUUID sessionName clientId =
     (\<lambda>(allocationMap, templatePodToReutilizeMap, statusClients).
       let (allocationMap', templatePodToReutilizeMap', pods) =
             fold (allocateClientToTemplate ord newUUID sessionName clientId)
               (ord (RangeAllocation clientId) (map_keys allocationMap))
               (allocationMap, templatePodToReutilizeMap, [])
       in (allocationMap', templatePodToReutilizeMap',
           map_put clientId
             \<lparr>clientStatus_LastSeenAt = defaultTime, clientStatus_Ready = False,
              clientStatus_PodStatus = pods\<rparr> statusClients))"

definition allocateClients ::
    "iteration \<Rightarrow> (string \<Rightarrow> string \<Rightarrow> string) \<Rightarrow> string \<Rightarrow> string list
       \<Rightarrow> allocationMap \<times> templatePodMap \<times> (string, clientStatus) gomap
       \<Rightarrow> allocationMap \<times> templatePodMap \<times> (string, clientStatus) gomap" where
  "allocateClients ord newUUID sessionName newClients maps =
     fold (allocateClient ord newUUID sessionName) newClients maps"

section \<open>The order of pods\<close>

text \<open>\<open>comparePods\<close> is the strict order of this rank.\<close>

datatype podRank = PodRank nat string

instantiation podRank :: linorder
begin

fun less_eq_podRank :: "podRank \<Rightarrow> podRank \<Rightarrow> bool" where
  "less_eq_podRank (PodRank m s) (PodRank n t) \<longleftrightarrow> m < n \<or> m = n \<and> s \<le> t"

definition less_podRank :: "podRank \<Rightarrow> podRank \<Rightarrow> bool" where
  "less_podRank a b \<longleftrightarrow> a \<le> b \<and> \<not> b \<le> a"

instance
proof
  fix x y z :: podRank
  show "(x < y) = (x \<le> y \<and> \<not> y \<le> x)" by (rule less_podRank_def)
  show "x \<le> x" by (cases x) simp
  show "x \<le> y \<Longrightarrow> y \<le> z \<Longrightarrow> x \<le> z" by (cases x; cases y; cases z) auto
  show "x \<le> y \<Longrightarrow> y \<le> x \<Longrightarrow> x = y" by (cases x; cases y) auto
  show "x \<le> y \<or> y \<le> x" by (cases x; cases y) auto
qed

end

definition pod_rank :: "pod \<Rightarrow> podRank" where
  "pod_rank p = PodRank (length (pod_Clients p))
     (drop (nat (last_index_of (CHR ''-'') (pod_Name p))) (pod_Name p))"

definition pod_named :: "pod \<Rightarrow> bool" where
  "pod_named p \<longleftrightarrow> CHR ''-'' \<in> set (pod_Name p)"

lemma pod_id_defined:
  "pod_named p \<Longrightarrow> go_slice_from (pod_Name p) (last_index_of (CHR ''-'') (pod_Name p)) =
     Some (drop (nat (last_index_of (CHR ''-'') (pod_Name p))) (pod_Name p))"
  using slice_last_index [of "pod_Name p" "CHR ''-''"]
  by (auto simp: pod_named_def go_slice_from_def split: if_splits)

lemma comparePods_rank:
  "pod_named p \<Longrightarrow> pod_named q \<Longrightarrow> comparePods p q = Some (pod_rank p < pod_rank q)"
  unfolding comparePods_def pod_rank_def less_podRank_def
  by (simp add: pod_id_defined not_le) (auto simp: less_le_not_le)

interpretation by_rank: slice_less podBefore "\<lambda>p q. pod_rank q \<le> pod_rank p" pod_named
proof unfold_locales
  show "pod_named p \<Longrightarrow> pod_named q \<Longrightarrow> podBefore p q = Some (pod_rank q \<le> pod_rank p)" for p q
    by (simp add: podBefore_def comparePods_rank not_less)
  show "pod_rank q \<le> pod_rank p \<or> pod_rank p \<le> pod_rank q" for p q by (rule linear)
  show "pod_rank q \<le> pod_rank p \<Longrightarrow> pod_rank r \<le> pod_rank q \<Longrightarrow> pod_rank r \<le> pod_rank p" for p q r
    by (rule order_trans)
qed

lemma pod_rank_count: "pod_rank q \<le> pod_rank p \<Longrightarrow> length (pod_Clients q) \<le> length (pod_Clients p)"
  by (auto simp: pod_rank_def)

end
