(* ===== verification/Allocation_Build.thy ===== *)
theory Allocation_Build
  imports Allocation
begin

text \<open>
  What \<open>initAllocationMap\<close>, \<open>templatePodMapping\<close>, \<open>buildAllocationMap\<close> and
  \<open>sortAllocationMap\<close> do to the seats of the allocation map (which client sits in which pod) and
  to the spare pods (the pods of the cluster that no client uses).
\<close>

section \<open>Seats and spare pods\<close>

definition pods_of :: "allocationMap \<Rightarrow> string \<Rightarrow> pod list" where
  "pods_of am t = alloc_Pods (map_get_zero zero_allocationValue am t)"

definition seats_in :: "pod list \<Rightarrow> (string \<times> podClient) set" where
  "seats_in ps = {(pod_Name p, c) | p c. p \<in> set ps \<and> c \<in> set (pod_Clients p)}"

definition seats :: "allocationMap \<Rightarrow> (string \<times> podClient) set" where
  "seats am = (\<Union>t. seats_in (pods_of am t))"

definition spare :: "templatePodMap \<Rightarrow> string \<Rightarrow> string set" where
  "spare ru t = dom (map_of (map_get_zero [] ru t))"

definition pod_names :: "allocationMap \<Rightarrow> string \<Rightarrow> string list" where
  "pod_names am t = map pod_Name (pods_of am t)"

text \<open>
  The pods of a template have distinct names, each has a client, and none of them is spare.
\<close>

definition pods_inv :: "allocationMap \<Rightarrow> templatePodMap \<Rightarrow> bool" where
  "pods_inv am ru \<longleftrightarrow> (\<forall>t. distinct (pod_names am t) \<and> (\<forall>p \<in> set (pods_of am t). pod_Clients p \<noteq> []) \<and>
     set (pod_names am t) \<inter> spare ru t = {})"

text \<open>Every pod stands under the template that its name tells.\<close>

definition home :: "allocationMap \<Rightarrow> bool" where
  "home am \<longleftrightarrow> (\<forall>t. \<forall>n \<in> set (pod_names am t). templateNameOf n = Some t)"

lemma home_pod_named:
  assumes "home am" and "pod_Name p \<in> set (pod_names am t)"
  shows "pod_named p"
proof -
  have "templateNameOf (pod_Name p) = Some t" using assms unfolding home_def by blast
  then have "\<not> count_list (pod_Name p) (CHR ''-'') < 2" using templateNameOf_panics by (metis option.discI)
  then have "CHR ''-'' \<in> set (pod_Name p)" by (metis count_list_0_iff zero_less_numeral)
  then show ?thesis by (simp add: pod_named_def)
qed

text \<open>The spare pods are the pods of the cluster that are not allocated.\<close>

definition spare_exact :: "templatePodMap \<Rightarrow> allocationMap \<Rightarrow> templatePodMap \<Rightarrow> bool" where
  "spare_exact tm am ru \<longleftrightarrow> (\<forall>t. spare ru t = spare tm t - set (pod_names am t))"

lemma map_get_zero_put [simp]:
  "map_get_zero z (map_put k v m) = (map_get_zero z m)(k := v)"
  by (auto simp: map_get_zero_def fun_eq_iff)

lemma pods_of_put [simp]: "pods_of (map_put t v am) = (pods_of am)(t := alloc_Pods v)"
  by (auto simp: pods_of_def fun_eq_iff)

lemma pods_of_absent [simp]: "map_of am t = None \<Longrightarrow> pods_of am t = []"
  by (simp add: pods_of_def zero_allocationValue_def)

lemma pods_of_present [simp]: "map_of am t = Some v \<Longrightarrow> pods_of am t = alloc_Pods v"
  by (simp add: pods_of_def)

lemma seats_in_append [simp]: "seats_in (ps @ qs) = seats_in ps \<union> seats_in qs"
  by (auto simp: seats_in_def)

lemma seats_in_Nil [simp]: "seats_in [] = {}"
  by (simp add: seats_in_def)

lemma seats_in_Cons [simp]:
  "seats_in (p # ps) = Pair (pod_Name p) ` set (pod_Clients p) \<union> seats_in ps"
  by (auto simp: seats_in_def)

lemma seats_in_mset: "mset ps = mset qs \<Longrightarrow> seats_in ps = seats_in qs"
  unfolding seats_in_def using mset_eq_setD by metis

lemma spare_deletePodName [simp]:
  "spare (deletePodName t n ru) = (spare ru)(t := spare ru t - {n})"
  by (auto simp: spare_def deletePodName_def fun_eq_iff split: option.splits)

section \<open>One pod of one client\<close>

lemma addClientToPod_found [simp]: "addClientToPod n c True ps = (ps, True)"
  by (induction ps) auto

lemma addClientToPod_absent:
  "n \<notin> pod_Name ` set ps \<Longrightarrow> addClientToPod n c False ps = (ps, False)"
  by (induction ps) auto

lemma addClientToPod_first:
  "n \<notin> pod_Name ` set as \<Longrightarrow> pod_Name p = n \<Longrightarrow>
     addClientToPod n c False (as @ p # bs) =
       (as @ p\<lparr>pod_Clients := pod_Clients p @ [c]\<rparr> # bs, True)"
  by (induction as) auto

text \<open>The pods of a template after a client joined the pod of a name.\<close>

definition join_pod :: "string \<Rightarrow> podClient \<Rightarrow> pod list \<Rightarrow> pod list" where
  "join_pod n c ps = (let (ps', found) = addClientToPod n c False ps in
     if \<not> found then ps' @ [\<lparr>pod_Name = n, pod_Clients = [c]\<rparr>] else ps')"

lemma join_pod_cases:
  obtains (new) "n \<notin> pod_Name ` set ps" "join_pod n c ps = ps @ [\<lparr>pod_Name = n, pod_Clients = [c]\<rparr>]"
  | (old) as p bs where "ps = as @ p # bs" "pod_Name p = n"
      "join_pod n c ps = as @ p\<lparr>pod_Clients := pod_Clients p @ [c]\<rparr> # bs"
proof (cases "n \<in> pod_Name ` set ps")
  case False
  with new show thesis by (simp add: join_pod_def addClientToPod_absent)
next
  case True
  then obtain p where "p \<in> set ps" "pod_Name p = n" by auto
  then obtain as q bs where s: "ps = as @ q # bs" "pod_Name q = n" "\<forall>p \<in> set as. pod_Name p \<noteq> n"
    using split_list_first_prop [of ps "\<lambda>p. pod_Name p = n"] by blast
  then have "n \<notin> pod_Name ` set as" by auto
  from addClientToPod_first [OF this s(2), of c bs] s old show thesis
    by (simp add: join_pod_def)
qed

lemma names_join_pod:
  "map pod_Name (join_pod n c ps) =
     (if n \<in> pod_Name ` set ps then map pod_Name ps else map pod_Name ps @ [n])"
  by (rule join_pod_cases [of n ps c]) auto

lemma set_names_join_pod:
  "set (map pod_Name (join_pod n c ps)) = insert n (set (map pod_Name ps))"
  unfolding names_join_pod by auto

lemma seats_join_pod [simp]: "seats_in (join_pod n c ps) = insert (n, c) (seats_in ps)"
  by (rule join_pod_cases [of n ps c]) auto

lemma clients_join_pod:
  "\<forall>p \<in> set ps. pod_Clients p \<noteq> [] \<Longrightarrow> \<forall>p \<in> set (join_pod n c ps). pod_Clients p \<noteq> []"
  by (rule join_pod_cases [of n ps c]) auto

lemma buildAllocationPod_eq:
  "buildAllocationPod c n (am, ru) = map_option (\<lambda>t.
     (map_put t ((map_get_zero zero_allocationValue am t)\<lparr>alloc_Pods := join_pod n c (pods_of am t)\<rparr>) am,
      deletePodName t n ru)) (templateNameOf n)"
  by (auto simp: buildAllocationPod_def join_pod_def pods_of_def Let_def
      split: prod.splits option.splits Option.bind_splits)

lemma buildAllocationPod_step:
  assumes "buildAllocationPod c n (am, ru) = Some (am', ru')"
  obtains t where "templateNameOf n = Some t"
    "pods_of am' = (pods_of am)(t := join_pod n c (pods_of am t))"
    "spare ru' = (spare ru)(t := spare ru t - {n})"
    "map_ok am \<Longrightarrow> map_ok am'" "dom (map_of am') = insert t (dom (map_of am))"
    "\<forall>t. alloc_PodTemplate (map_get_zero zero_allocationValue am' t) =
      alloc_PodTemplate (map_get_zero zero_allocationValue am t)"
  using assms that by (auto simp: buildAllocationPod_eq)

lemma buildAllocationPod_seats:
  assumes "buildAllocationPod c n (am, ru) = Some (am', ru')"
  shows "seats am' = insert (n, c) (seats am)"
  using assms
proof (cases rule: buildAllocationPod_step)
  case (1 t)
  then show ?thesis by (auto simp: seats_def split: if_splits)
qed

lemma buildAllocationPod_inv:
  assumes "buildAllocationPod c n (am, ru) = Some (am', ru')" and "pods_inv am ru"
  shows "pods_inv am' ru'"
  using assms(1)
proof (cases rule: buildAllocationPod_step)
  case (1 t)
  have names: "pod_names am' = (pod_names am)(t := map pod_Name (join_pod n c (pods_of am t)))"
    by (auto simp: pod_names_def 1 fun_eq_iff)
  have "distinct (pod_names am' u) \<and> set (pod_names am' u) \<inter> spare ru' u = {}" for u
    using assms(2) unfolding names 1 pods_inv_def by (auto simp: names_join_pod pod_names_def)
  moreover have "\<forall>p \<in> set (pods_of am' u). pod_Clients p \<noteq> []" for u
    using assms(2) clients_join_pod [of "pods_of am t" n c] by (auto simp: 1 pods_inv_def)
  ultimately show ?thesis by (simp add: pods_inv_def)
qed

lemma buildAllocationPod_home:
  assumes "buildAllocationPod c n (am, ru) = Some (am', ru')"
  shows "(home am \<longrightarrow> home am') \<and> (spare_exact tm am ru \<longrightarrow> spare_exact tm am' ru')"
  using assms
proof (cases rule: buildAllocationPod_step)
  case (1 t)
  have names: "set (pod_names am' u) = set (pod_names am u) \<union> (if u = t then {n} else {})" for u
    using set_names_join_pod [of n c "pods_of am t"] by (simp add: pod_names_def 1 del: set_map)
  have "home am \<longrightarrow> home am'" using 1(1) by (auto simp: home_def names)
  moreover have "spare_exact tm am ru \<longrightarrow> spare_exact tm am' ru'"
    by (auto simp: spare_exact_def names 1)
  ultimately show ?thesis by blast
qed

section \<open>All pods of one client\<close>

text \<open>
  What a run over the status of a client keeps: \<open>names\<close> are the pods it has seen.
\<close>

definition build_rel ::
    "podClient \<Rightarrow> string set \<Rightarrow> allocationMap \<times> templatePodMap \<Rightarrow> allocationMap \<times> templatePodMap \<Rightarrow> bool" where
  "build_rel c names m m' \<longleftrightarrow>
     seats (fst m') = seats (fst m) \<union> (\<lambda>n. (n, c)) ` names \<and>
     (pods_inv (fst m) (snd m) \<longrightarrow> pods_inv (fst m') (snd m')) \<and>
     (\<forall>t. spare (snd m') t = spare (snd m) t - {n \<in> names. templateNameOf n = Some t}) \<and>
     (map_ok (fst m) \<longrightarrow> map_ok (fst m')) \<and>
     dom (map_of (fst m')) = dom (map_of (fst m)) \<union> {t. \<exists>n \<in> names. templateNameOf n = Some t} \<and>
     (\<forall>t. alloc_PodTemplate (map_get_zero zero_allocationValue (fst m') t) =
        alloc_PodTemplate (map_get_zero zero_allocationValue (fst m) t)) \<and>
     (home (fst m) \<longrightarrow> home (fst m')) \<and>
     (\<forall>tm. spare_exact tm (fst m) (snd m) \<longrightarrow> spare_exact tm (fst m') (snd m'))"

lemma build_rel_step:
  assumes "buildAllocationPod c n (am, ru) = Some (am', ru')"
  shows "build_rel c {n} (am, ru) (am', ru')"
  using assms
proof (cases rule: buildAllocationPod_step)
  case (1 t)
  show ?thesis unfolding build_rel_def
  proof (intro conjI)
    show "seats (fst (am', ru')) = seats (fst (am, ru)) \<union> (\<lambda>n. (n, c)) ` {n}"
      using buildAllocationPod_seats [OF assms] by auto
    show "pods_inv (fst (am, ru)) (snd (am, ru)) \<longrightarrow> pods_inv (fst (am', ru')) (snd (am', ru'))"
      using buildAllocationPod_inv [OF assms] by auto
    show "home (fst (am, ru)) \<longrightarrow> home (fst (am', ru'))"
      "\<forall>tm. spare_exact tm (fst (am, ru)) (snd (am, ru)) \<longrightarrow> spare_exact tm (fst (am', ru')) (snd (am', ru'))"
      using buildAllocationPod_home [OF assms] by auto
  qed (use 1 in auto)
qed

lemma build_rel_trans:
  "build_rel c A m m1 \<Longrightarrow> build_rel c B m1 m2 \<Longrightarrow> build_rel c (A \<union> B) m m2"
  unfolding build_rel_def by auto

lemma build_rel_loop:
  "fold_opt (buildAllocationPod c) ns m = Some m' \<Longrightarrow> build_rel c (set ns) m m'"
proof (induction ns arbitrary: m)
  case Nil
  then show ?case by (simp add: build_rel_def)
next
  case (Cons n ns)
  then obtain m1 where m1: "buildAllocationPod c n m = Some m1"
      "fold_opt (buildAllocationPod c) ns m1 = Some m'" by (auto split: Option.bind_splits)
  from m1(1) have "build_rel c {n} m m1" by (cases m; cases m1) (simp add: build_rel_step)
  from build_rel_trans [OF this Cons.IH [OF m1(2)]] show ?case by simp
qed

lemma build_total_loop:
  "\<forall>n \<in> set ns. templateNameOf n \<noteq> None \<Longrightarrow> \<exists>m'. fold_opt (buildAllocationPod c) ns m = Some m'"
  using fold_opt_total [of "\<lambda>_. True" m ns "buildAllocationPod c"]
  by (fastforce simp: buildAllocationPod_eq)

lemma buildAllocationMap_rel:
  assumes "permutes_keys ord" and "buildAllocationMap ord i v b m = Some m'"
  shows "build_rel \<lparr>podClient_Id = i, podClient_Connected = b\<rparr>
    (dom (map_of (clientStatus_PodStatus v))) m m'"
  using build_rel_loop assms unfolding buildAllocationMap_def
  by (fastforce simp: go_order_simps)

lemma buildAllocationMap_total:
  assumes "permutes_keys ord"
    and "\<forall>n \<in> dom (map_of (clientStatus_PodStatus v)). templateNameOf n \<noteq> None"
  shows "\<exists>m'. buildAllocationMap ord i v b m = Some m'"
  unfolding buildAllocationMap_def using assms
  by (intro build_total_loop) (auto simp: go_order_simps)

section \<open>The start of the maps\<close>

lemma initAllocationMap_pods:
  "pods_of (initAllocationMap ts) t = [] \<and> map_ok (initAllocationMap ts) \<and>
   dom (map_of (initAllocationMap ts)) = template_Name ` set ts"
proof -
  let ?step = "\<lambda>podTemplate. map_put (template_Name podTemplate)
         \<lparr>alloc_PodTemplate = podTemplate, alloc_Pods = []\<rparr>"
  have "(\<forall>t. pods_of am t = []) \<and> map_ok am \<Longrightarrow>
      (\<forall>t. pods_of (fold ?step ts am) t = []) \<and> map_ok (fold ?step ts am) \<and>
      dom (map_of (fold ?step ts am)) = dom (map_of am) \<union> template_Name ` set ts" for am
  proof (induction ts arbitrary: am)
    case (Cons x xs)
    then show ?case using Cons.IH [of "?step x am"] by auto
  qed simp
  from this [of "[]"] show ?thesis by (simp add: initAllocationMap_def)
qed

lemma seats_init [simp]: "seats (initAllocationMap ts) = {}"
  by (simp add: seats_def initAllocationMap_pods)

lemma pods_inv_init [simp]: "pods_inv (initAllocationMap ts) ru"
  by (simp add: pods_inv_def pod_names_def initAllocationMap_pods)

lemma home_init [simp]: "home (initAllocationMap ts)"
  by (simp add: home_def pod_names_def initAllocationMap_pods)

lemma spare_exact_init [simp]: "spare_exact tm (initAllocationMap ts) tm"
  by (simp add: spare_exact_def pod_names_def initAllocationMap_pods)

section \<open>The pods of the cluster by template\<close>

lemma templatePodMappingStep_lookup:
  assumes "templatePodMappingStep p m = Some m'"
  shows "map_of (map_get_zero [] m' t) n =
      (if n = kpod_Name p \<and> templateNameOf n = Some t then Some p else map_of (map_get_zero [] m t) n)"
  using assms
  by (auto simp: templatePodMappingStep_def split: Option.bind_splits option.splits)

lemma dom_by_name: "dom (map_of (map (\<lambda>p. (kpod_Name p, p)) (rev ps))) = kpod_Name ` set ps"
  by (force simp: dom_map_of_conv_image_fst)

lemma templatePodMapping_loop:
  assumes "fold_opt templatePodMappingStep ps m = Some m'"
  shows "map_of (map_get_zero [] m' t) n =
      (if templateNameOf n = Some t \<and> n \<in> kpod_Name ` set ps
       then map_of (map (\<lambda>p. (kpod_Name p, p)) (rev ps)) n
       else map_of (map_get_zero [] m t) n)"
  using assms
proof (induction ps arbitrary: m)
  case Nil
  then show ?case by simp
next
  case (Cons p ps)
  then obtain m1 where m1: "templatePodMappingStep p m = Some m1"
      "fold_opt templatePodMappingStep ps m1 = Some m'" by (auto split: Option.bind_splits)
  have "(map_of (map (\<lambda>p. (kpod_Name p, p)) (rev ps)) n = None) = (n \<notin> kpod_Name ` set ps)"
    using dom_by_name [of ps] by blast
  with Cons.IH [OF m1(2)] templatePodMappingStep_lookup [OF m1(1), of t n] show ?case
    by (cases "map_of (map (\<lambda>p. (kpod_Name p, p)) (rev ps)) n") (auto simp: map_add_def)
qed

text \<open>
  The entry of a template and a name is the last pod of the list with that name, if the name has
  that template.
\<close>

lemma templatePodMapping_lookup:
  assumes "templatePodMapping ps = Some m"
  shows "map_of (map_get_zero [] m t) n =
      (if templateNameOf n = Some t then map_of (map (\<lambda>p. (kpod_Name p, p)) (rev ps)) n else None)"
proof -
  have "n \<notin> kpod_Name ` set ps \<Longrightarrow> map_of (map (\<lambda>p. (kpod_Name p, p)) (rev ps)) n = None"
    using dom_by_name [of ps] by blast
  then show ?thesis
    using templatePodMapping_loop [of ps "[]" m t n] assms by (auto simp: templatePodMapping_def)
qed

lemma spare_templatePodMapping:
  assumes "templatePodMapping ps = Some m"
  shows "spare m t = {n \<in> kpod_Name ` set ps. templateNameOf n = Some t}"
proof (rule set_eqI)
  fix n
  have "n \<in> spare m t \<longleftrightarrow> map_of (map_get_zero [] m t) n \<noteq> None"
    by (simp add: spare_def domIff)
  also have "\<dots> \<longleftrightarrow> templateNameOf n = Some t \<and> n \<in> dom (map_of (map (\<lambda>p. (kpod_Name p, p)) (rev ps)))"
    by (simp add: templatePodMapping_lookup [OF assms] domIff)
  finally show "n \<in> spare m t \<longleftrightarrow> n \<in> {n \<in> kpod_Name ` set ps. templateNameOf n = Some t}"
    unfolding dom_by_name by blast
qed

lemma templatePodMapping_total:
  "(\<exists>m. templatePodMapping ps = Some m) \<longleftrightarrow> (\<forall>p \<in> set ps. templateNameOf (kpod_Name p) \<noteq> None)"
proof -
  have "(\<exists>m'. fold_opt templatePodMappingStep ps m = Some m') \<longleftrightarrow>
      (\<forall>p \<in> set ps. templateNameOf (kpod_Name p) \<noteq> None)" for m
    by (induction ps arbitrary: m) (auto simp: templatePodMappingStep_def split: Option.bind_splits)
  then show ?thesis by (simp add: templatePodMapping_def)
qed

section \<open>Sorting\<close>

lemma those_map_of:
  "those (map (\<lambda>(k, v). map_option (Pair k) (f v)) m) = Some m' \<Longrightarrow>
     map_keys m' = map_keys m \<and> (\<forall>k. map_of m' k = Option.bind (map_of m k) f)"
  by (induction m arbitrary: m') (auto simp: map_keys_def split: option.splits)

lemma sortAllocationMap_eq:
  "sortAllocationMap am = those (map (\<lambda>(k, v). map_option (Pair k)
     (map_option (\<lambda>ps. v\<lparr>alloc_Pods := ps\<rparr>) (sort_slice podBefore (alloc_Pods v)))) am)"
  unfolding sortAllocationMap_def
  by (rule arg_cong [where f = those]) (auto split: Option.bind_splits option.splits)

lemma sortAllocationMap_lookup:
  assumes "sortAllocationMap am = Some am'"
  shows "map_keys am' = map_keys am"
    and "map_of am' t = Option.bind (map_of am t) (\<lambda>v.
      map_option (\<lambda>ps. v\<lparr>alloc_Pods := ps\<rparr>) (sort_slice podBefore (alloc_Pods v)))"
  using those_map_of [OF assms [unfolded sortAllocationMap_eq]] by auto

lemma sortAllocationMap_total:
  assumes "\<forall>(t, v) \<in> set am. \<forall>p \<in> set (alloc_Pods v). pod_named p"
  shows "\<exists>am'. sortAllocationMap am = Some am'"
proof -
  have "\<exists>y. map_option (Pair k) (map_option (\<lambda>ps. v\<lparr>alloc_Pods := ps\<rparr>)
      (sort_slice podBefore (alloc_Pods v))) = Some y" if "(k, v) \<in> set am" for k v
  proof -
    have "\<forall>p \<in> set (alloc_Pods v). pod_named p" using assms that by blast
    then obtain ys where "sort_slice podBefore (alloc_Pods v) = Some ys"
      using by_rank.sort_slice_sorts by blast
    then show ?thesis by simp
  qed
  then show ?thesis unfolding sortAllocationMap_eq by (intro those_total) auto
qed

lemma sorted_by_count:
  "sorted_wrt (\<lambda>p q. pod_rank q \<le> pod_rank p) ps \<Longrightarrow>
     sorted_wrt (\<lambda>p q. length (pod_Clients q) \<le> length (pod_Clients p)) ps"
  by (erule sorted_wrt_mono_rel [rotated]) (rule pod_rank_count)

end
