(* ===== verification/Allocation_Place.thy ===== *)
theory Allocation_Place
  imports Allocation_Build
begin

text \<open>
  What \<open>allocateClients\<close> does: the relation \<open>placed\<close> says where one client goes within one
  template, and the lemmas lift it to a client (one pod per template) and to all new clients.
\<close>

section \<open>One client in one template\<close>

abbreviation client_count :: "pod \<Rightarrow> int" where
  "client_count p \<equiv> int (length (pod_Clients p))"

abbreviation template_of :: "allocationMap \<Rightarrow> string \<Rightarrow> clientPodTemplate" where
  "template_of am t \<equiv> alloc_PodTemplate (map_get_zero zero_allocationValue am t)"

definition add_client :: "podClient \<Rightarrow> pod \<Rightarrow> pod" where
  "add_client c p = p\<lparr>pod_Clients := pod_Clients p @ [c]\<rparr>"

text \<open>
  The client joins the first pod with room.  If there is none, it gets a pod of its own: a spare
  one, which is spare no longer, or a new one when nothing is spare.
\<close>

definition placed ::
    "podClient \<Rightarrow> int \<Rightarrow> string \<Rightarrow> pod list \<Rightarrow> string set \<Rightarrow> string \<Rightarrow> pod list \<Rightarrow> string set \<Rightarrow> bool" where
  "placed c maxClients newName ps sp n ps' sp' \<longleftrightarrow>
     (\<exists>i < length ps. client_count (ps ! i) < maxClients \<and> (\<forall>j < i. maxClients \<le> client_count (ps ! j)) \<and>
        n = pod_Name (ps ! i) \<and> ps' = ps[i := add_client c (ps ! i)] \<and> sp' = sp)
   \<or> (\<forall>p \<in> set ps. maxClients \<le> client_count p) \<and>
        ps' = ps @ [\<lparr>pod_Name = n, pod_Clients = [c]\<rparr>] \<and>
        (n \<in> sp \<and> sp' = sp - {n} \<or> n = newName \<and> sp' = sp \<and> (sp = {} \<or> [] \<in> sp))"

lemma placed_cases:
  assumes "placed c m nn ps sp n ps' sp'"
  obtains (joins) i where "i < length ps" "client_count (ps ! i) < m"
      "\<forall>j < i. m \<le> client_count (ps ! j)" "n = pod_Name (ps ! i)"
      "ps' = ps[i := add_client c (ps ! i)]" "sp' = sp"
  | (own) "\<forall>p \<in> set ps. m \<le> client_count p" "ps' = ps @ [\<lparr>pod_Name = n, pod_Clients = [c]\<rparr>]"
      "n \<in> sp \<and> sp' = sp - {n} \<or> n = nn \<and> sp' = sp"
  using assms unfolding placed_def by blast

lemma findFirst_none:
  "0 \<le> i \<Longrightarrow> findFirstPodAvailableFrom i m ps = - 1 \<longleftrightarrow> (\<forall>p \<in> set ps. m \<le> client_count p)"
  by (induction ps arbitrary: i) auto

lemma findFirst_some:
  "findFirstPodAvailableFrom i m ps \<noteq> - 1 \<Longrightarrow>
     \<exists>k < length ps. findFirstPodAvailableFrom i m ps = i + int k \<and>
       client_count (ps ! k) < m \<and> (\<forall>j < k. m \<le> client_count (ps ! j))"
proof (induction ps arbitrary: i)
  case Nil
  then show ?case by simp
next
  case (Cons p ps)
  show ?case
  proof (cases "client_count p < m")
    case True
    then show ?thesis by (intro exI [of _ 0]) simp
  next
    case False
    with Cons.prems have "findFirstPodAvailableFrom (i + 1) m ps \<noteq> - 1" by simp
    from Cons.IH [OF this] obtain k where k: "k < length ps"
        "findFirstPodAvailableFrom (i + 1) m ps = i + 1 + int k" "client_count (ps ! k) < m"
        "\<forall>j < k. m \<le> client_count (ps ! j)" by auto
    then have "m \<le> client_count ((p # ps) ! j)" if "j < Suc k" for j
      using False that by (cases j) auto
    with k False show ?thesis by (intro exI [of _ "Suc k"]) auto
  qed
qed

lemma findFirstPodAvailable_cases:
  obtains (none) "findFirstPodAvailable m ps = - 1" "\<forall>p \<in> set ps. m \<le> client_count p"
  | (some) k where "k < length ps" "findFirstPodAvailable m ps = int k" "client_count (ps ! k) < m"
      "\<forall>j < k. m \<le> client_count (ps ! j)"
  using findFirst_none [of 0 m ps] findFirst_some [of 0 m ps] that
  unfolding findFirstPodAvailable_def by fastforce

lemma reutilizePod_cases:
  assumes "permutes_keys ord"
  obtains (spare) "reutilizePod (ord l ks) \<in> set ks" "reutilizePod (ord l ks) \<noteq> []"
  | (none) "reutilizePod (ord l ks) = []" "ks = [] \<or> [] \<in> set ks"
proof (cases "ord l ks")
  case Nil
  with assms none show thesis by (simp add: reutilizePod_def permutes_keys_Nil)
next
  case (Cons k rest)
  then have "k \<in> set ks" using assms permutes_keys_set [of ord l ks] by auto
  with Cons spare none show thesis by (cases "k = []") (simp_all add: reutilizePod_def)
qed

lemma allocateClientToTemplate_placed:
  assumes ord: "permutes_keys ord" and v: "map_of am t = Some v"
    and step: "allocateClientToTemplate ord newUUID s c t (am, ru, pods) = (am', ru', pods')"
  shows "\<exists>n ps'. placed \<lparr>podClient_Id = c, podClient_Connected = True\<rparr>
      (template_MaxClients (alloc_PodTemplate v)) (newPodName s t (newUUID c t))
      (alloc_Pods v) (spare ru t) n ps' (spare ru' t) \<and>
    am' = map_put t (v\<lparr>alloc_Pods := ps'\<rparr>) am \<and> (\<forall>u. u \<noteq> t \<longrightarrow> spare ru' u = spare ru u) \<and>
    pods' = map_put n (buildPodStatus n (template_Spec (alloc_PodTemplate v))) pods"
proof (rule findFirstPodAvailable_cases [of "template_MaxClients (alloc_PodTemplate v)" "alloc_Pods v"])
  fix k
  assume "k < length (alloc_Pods v)"
    "findFirstPodAvailable (template_MaxClients (alloc_PodTemplate v)) (alloc_Pods v) = int k"
    "client_count (alloc_Pods v ! k) < template_MaxClients (alloc_PodTemplate v)"
    "\<forall>j < k. template_MaxClients (alloc_PodTemplate v) \<le> client_count (alloc_Pods v ! j)"
  with step v show ?thesis
    by (intro exI [of _ "pod_Name (alloc_Pods v ! k)"] exI [of _ "pods_of am' t"])
      (auto simp: allocateClientToTemplate_def placed_def add_client_def Let_def)
next
  let ?ks = "map_keys (map_get_zero [] ru t)"
  let ?r = "reutilizePod (ord (RangeReutilizePod c t) ?ks)"
  have ks: "set ?ks = spare ru t" by (simp add: spare_def)
  assume none: "findFirstPodAvailable (template_MaxClients (alloc_PodTemplate v)) (alloc_Pods v) = - 1"
    "\<forall>p \<in> set (alloc_Pods v). template_MaxClients (alloc_PodTemplate v) \<le> client_count p"
  from ord show ?thesis
  proof (rule reutilizePod_cases [of ord "RangeReutilizePod c t" ?ks])
    assume "?r \<in> set ?ks" "?r \<noteq> []"
    with step v none ks show ?thesis
      by (intro exI [of _ ?r] exI [of _ "pods_of am' t"])
        (auto simp: allocateClientToTemplate_def placed_def Let_def)
  next
    assume r: "?r = []" "?ks = [] \<or> [] \<in> set ?ks"
    then have "spare ru t = {} \<or> [] \<in> spare ru t" unfolding ks [symmetric] by (auto simp del: set_map_keys)
    with step v none r(1) show ?thesis
      by (intro exI [of _ "newPodName s t (newUUID c t)"] exI [of _ "pods_of am' t"])
        (auto simp: allocateClientToTemplate_def placed_def Let_def)
  qed
qed

section \<open>What a placement keeps\<close>

lemma seats_in_update:
  "i < length ps \<Longrightarrow> seats_in (ps[i := add_client c (ps ! i)]) = insert (pod_Name (ps ! i), c) (seats_in ps)"
proof -
  assume i: "i < length ps"
  then have "ps[i := add_client c (ps ! i)] = take i ps @ add_client c (ps ! i) # drop (Suc i) ps"
    by (simp add: upd_conv_take_nth_drop)
  moreover have "ps = take i ps @ ps ! i # drop (Suc i) ps" using i by (simp add: id_take_nth_drop)
  then have "seats_in ps = seats_in (take i ps) \<union> seats_in (ps ! i # drop (Suc i) ps)"
    by (metis seats_in_append)
  ultimately show ?thesis by (auto simp: add_client_def)
qed

lemma placed_seats:
  "placed c m nn ps sp n ps' sp' \<Longrightarrow> seats_in ps' = insert (n, c) (seats_in ps)"
  by (auto simp: placed_def seats_in_update)

lemma placed_names:
  "placed c m nn ps sp n ps' sp' \<Longrightarrow>
     map pod_Name ps' = map pod_Name ps \<and> n \<in> pod_Name ` set ps \<and> sp' = sp \<or>
     map pod_Name ps' = map pod_Name ps @ [n] \<and>
       (n \<in> sp \<and> sp' = sp - {n} \<or> n = nn \<and> sp' = sp)"
proof (erule placed_cases)
  fix i
  assume i: "i < length ps" "n = pod_Name (ps ! i)" "ps' = ps[i := add_client c (ps ! i)]" "sp' = sp"
  then have "map pod_Name ps' = map pod_Name ps"
    by (auto simp: map_update add_client_def list_update_same_conv)
  with i show ?thesis by simp
qed auto

lemma placed_nonempty:
  "placed c m nn ps sp n ps' sp' \<Longrightarrow> \<forall>p \<in> set ps. pod_Clients p \<noteq> [] \<Longrightarrow>
     \<forall>p \<in> set ps'. pod_Clients p \<noteq> []"
  by (auto simp: placed_def add_client_def dest: subsetD [OF set_update_subset_insert])

definition room_in :: "int \<Rightarrow> pod list \<Rightarrow> bool" where
  "room_in m ps \<longleftrightarrow> (\<forall>p \<in> set ps. client_count p \<le> max 1 m)"

lemma placed_room: "placed c m nn ps sp n ps' sp' \<Longrightarrow> room_in m ps \<Longrightarrow> room_in m ps'"
  by (auto simp: placed_def room_in_def add_client_def dest: subsetD [OF set_update_subset_insert])

definition descending :: "pod list \<Rightarrow> bool" where
  "descending ps \<longleftrightarrow> sorted_wrt (\<lambda>p q. client_count q \<le> client_count p) ps"

lemma placed_descending:
  assumes "placed c m nn ps sp n ps' sp'" and "descending ps" and "\<forall>p \<in> set ps. pod_Clients p \<noteq> []"
  shows "descending ps'"
  using assms(1)
proof (cases rule: placed_cases)
  case i: (joins i)
  note ps' = i(5)
  have add: "client_count (add_client c (ps ! i)) = client_count (ps ! i) + 1"
    by (simp add: add_client_def)
  show "descending ps'" unfolding descending_def sorted_wrt_iff_nth_less
  proof (intro allI impI)
    fix j k
    assume jk: "j < k" "k < length ps'"
    then have "client_count (ps ! k) \<le> client_count (ps ! j)"
      using assms(2) by (simp add: descending_def sorted_wrt_iff_nth_less ps')
    moreover have "client_count (ps ! i) + 1 \<le> client_count (ps ! j)" if "j < i"
      using i(2,3) that by fastforce
    ultimately show "client_count (ps' ! k) \<le> client_count (ps' ! j)"
      using jk add by (cases "j = i"; cases "k = i") (auto simp: ps')
  qed
next
  case own
  moreover have "1 \<le> client_count p" if "p \<in> set ps" for p
    using assms(3) that by (cases "pod_Clients p") auto
  ultimately show "descending ps'" using assms(2) by (auto simp: descending_def sorted_wrt_append)
qed

text \<open>
  The first pod with room of a list in descending order is a fullest one with room.
\<close>

definition best_fit :: "podClient \<Rightarrow> int \<Rightarrow> pod list \<Rightarrow> pod list \<Rightarrow> bool" where
  "best_fit c m ps ps' \<longleftrightarrow>
     (\<exists>i < length ps. client_count (ps ! i) < m \<and>
        (\<forall>q \<in> set ps. client_count q < m \<longrightarrow> client_count q \<le> client_count (ps ! i)) \<and>
        ps' = ps[i := add_client c (ps ! i)])
   \<or> (\<forall>p \<in> set ps. m \<le> client_count p) \<and> (\<exists>n. ps' = ps @ [\<lparr>pod_Name = n, pod_Clients = [c]\<rparr>])"

lemma placed_best_fit:
  assumes "placed c m nn ps sp n ps' sp'" and "descending ps"
  shows "best_fit c m ps ps'"
  using assms(1)
proof (cases rule: placed_cases)
  case i: (joins i)
  note ps' = i(5)
  have "client_count (ps ! k) \<le> client_count (ps ! i)" if "k < length ps" "client_count (ps ! k) < m" for k
  proof (cases "i < k")
    case True
    then show ?thesis using assms(2) that by (simp add: descending_def sorted_wrt_iff_nth_less)
  next
    case False
    then have "k = i" using i(3) that(2) by (metis linorder_less_linear not_le)
    then show ?thesis by simp
  qed
  then have "\<forall>q \<in> set ps. client_count q < m \<longrightarrow> client_count q \<le> client_count (ps ! i)"
    by (auto simp: in_set_conv_nth)
  with i ps' show ?thesis unfolding best_fit_def by blast
next
  case own
  then show ?thesis by (auto simp: best_fit_def)
qed

end
