(* ===== verification/Allocation_All.thy ===== *)
theory Allocation_All
  imports Allocation_Place
begin

text \<open>
  \<open>allocateClients\<close> as a whole: every new client gets one pod in every template of the allocation
  map, in whatever order the templates are visited, and the invariants of a placement hold at the
  end of the loops.
\<close>

section \<open>One client in all templates\<close>

abbreviation max_of :: "allocationMap \<Rightarrow> string \<Rightarrow> int" where
  "max_of am t \<equiv> template_MaxClients (template_of am t)"

abbreviation connected :: "string \<Rightarrow> podClient" where
  "connected c \<equiv> \<lparr>podClient_Id = c, podClient_Connected = True\<rparr>"

text \<open>\<open>f\<close> is the pod chosen in each template of \<open>T\<close>.\<close>

definition placed_all ::
    "string set \<Rightarrow> podClient \<Rightarrow> (string \<Rightarrow> string) \<Rightarrow> (string \<Rightarrow> string)
       \<Rightarrow> allocationMap \<Rightarrow> templatePodMap \<Rightarrow> allocationMap \<Rightarrow> templatePodMap \<Rightarrow> bool" where
  "placed_all T c newName f am ru am' ru' \<longleftrightarrow>
     (\<forall>t \<in> T. placed c (max_of am t) (newName t) (pods_of am t) (spare ru t) (f t)
        (pods_of am' t) (spare ru' t)) \<and>
     (\<forall>t. t \<notin> T \<longrightarrow> pods_of am' t = pods_of am t \<and> spare ru' t = spare ru t) \<and>
     map_keys am' = map_keys am \<and> (\<forall>t. template_of am' t = template_of am t)"

lemma placed_all_map_ok: "placed_all T c nn f am ru am' ru' \<Longrightarrow> map_ok am' = map_ok am"
  by (simp add: placed_all_def map_ok_def)

lemma placed_all_dom: "placed_all T c nn f am ru am' ru' \<Longrightarrow> dom (map_of am') = dom (map_of am)"
  unfolding placed_all_def set_map_keys [symmetric] by simp

definition fresh_pod_status :: "podStatus \<Rightarrow> bool" where
  "fresh_pod_status s \<longleftrightarrow> \<not> podStatus_Ready s \<and> paths_ok s"

lemma fresh_pod_status_build [simp]: "fresh_pod_status (buildPodStatus n spec)"
  by (simp add: fresh_pod_status_def paths_ok_build)

lemma template_loop:
  assumes "permutes_keys ord" and "distinct ts" and "set ts \<subseteq> dom (map_of am)"
    and "fold (allocateClientToTemplate ord u s c) ts (am, ru, pods) = (am', ru', pods')"
  shows "\<exists>f. placed_all (set ts) (connected c) (\<lambda>t. newPodName s t (u c t)) f am ru am' ru' \<and>
    dom (map_of pods') = dom (map_of pods) \<union> f ` set ts \<and>
    ran (map_of pods') \<subseteq> ran (map_of pods) \<union> Collect fresh_pod_status \<and>
    (map_ok pods \<longrightarrow> map_ok pods')"
  using assms(2-4)
proof (induction ts arbitrary: am ru pods)
  case Nil
  then show ?case by (auto simp: placed_all_def)
next
  case (Cons t ts)
  from Cons.prems(2) obtain v where v: "map_of am t = Some v" by auto
  obtain am1 ru1 pods1 where
    step: "allocateClientToTemplate ord u s c t (am, ru, pods) = (am1, ru1, pods1)"
    by (metis prod.exhaust)
  have max: "max_of am t = template_MaxClients (alloc_PodTemplate v)" "pods_of am t = alloc_Pods v"
    using v by simp_all
  from allocateClientToTemplate_placed [OF assms(1) v step, folded max] obtain n ps where
    n: "placed (connected c) (max_of am t) (newPodName s t (u c t)) (pods_of am t) (spare ru t) n ps
        (spare ru1 t)"
    and am1: "am1 = map_put t (v\<lparr>alloc_Pods := ps\<rparr>) am"
    and ru1: "\<forall>x. x \<noteq> t \<longrightarrow> spare ru1 x = spare ru x"
    and pods1: "pods1 = map_put n (buildPodStatus n (template_Spec (alloc_PodTemplate v))) pods"
    by blast
  have keys: "map_keys am1 = map_keys am" using v am1 by simp
  have same: "template_of am1 x = template_of am x" for x using v am1 by simp
  have "set ts \<subseteq> dom (map_of am1)" using Cons.prems(2) am1 by auto
  moreover have "fold (allocateClientToTemplate ord u s c) ts (am1, ru1, pods1) = (am', ru', pods')"
    using Cons.prems(3) step by simp
  moreover have "distinct ts" using Cons.prems(1) by simp
  ultimately obtain f where
    f: "placed_all (set ts) (connected c) (\<lambda>t. newPodName s t (u c t)) f am1 ru1 am' ru'"
      "dom (map_of pods') = dom (map_of pods1) \<union> f ` set ts"
      "ran (map_of pods') \<subseteq> ran (map_of pods1) \<union> Collect fresh_pod_status"
      "map_ok pods1 \<longrightarrow> map_ok pods'" using Cons.IH [of am1 ru1 pods1] by metis
  have t: "t \<notin> set ts" using Cons.prems(1) by simp
  have "pods_of am' t = ps \<and> spare ru' t = spare ru1 t" using f(1) t am1 by (simp add: placed_all_def)
  moreover have "pods_of am1 x = pods_of am x \<and> spare ru1 x = spare ru x" if "x \<noteq> t" for x
    using that am1 ru1 by simp
  ultimately have "placed_all (set (t # ts)) (connected c) (\<lambda>t. newPodName s t (u c t))
      (f(t := n)) am ru am' ru'"
    using f(1) t n keys same unfolding placed_all_def by auto
  moreover have "dom (map_of pods') = dom (map_of pods) \<union> (f(t := n)) ` set (t # ts)"
    using f(2) pods1 t by (auto simp: image_iff)
  moreover have "ran (map_of pods1) \<subseteq> ran (map_of pods) \<union> Collect fresh_pod_status"
    unfolding pods1 by (auto simp: ran_def)
  then have "ran (map_of pods') \<subseteq> ran (map_of pods) \<union> Collect fresh_pod_status" using f(3) by blast
  moreover have "map_ok pods \<longrightarrow> map_ok pods'" using f(4) pods1 by simp
  ultimately show ?case by blast
qed

text \<open>The status of a client that was just allocated to the pods \<open>names\<close>.\<close>

definition new_client_status :: "string set \<Rightarrow> clientStatus \<Rightarrow> bool" where
  "new_client_status names v \<longleftrightarrow>
     clientStatus_LastSeenAt v = defaultTime \<and> \<not> clientStatus_Ready v \<and>
     dom (map_of (clientStatus_PodStatus v)) = names \<and> map_ok (clientStatus_PodStatus v) \<and>
     ran (map_of (clientStatus_PodStatus v)) \<subseteq> Collect fresh_pod_status"

lemma allocateClient_placed:
  assumes "permutes_keys ord" and "map_ok am"
    and "allocateClient ord u s c (am, ru, st) = (am', ru', st')"
  shows "\<exists>f v. placed_all (dom (map_of am)) (connected c) (\<lambda>t. newPodName s t (u c t)) f am ru am' ru' \<and>
    st' = map_put c v st \<and> new_client_status (f ` dom (map_of am)) v"
proof -
  let ?ts = "ord (RangeAllocation c) (map_keys am)"
  have ts: "set ?ts = dom (map_of am)" "distinct ?ts"
    using assms(1,2) by (auto simp: go_order_simps map_ok_keys)
  obtain am1 ru1 pods1 where
    loop: "fold (allocateClientToTemplate ord u s c) ?ts (am, ru, []) = (am1, ru1, pods1)"
    by (metis prod.exhaust)
  from template_loop [OF assms(1) ts(2) _ loop] ts(1) obtain f where
    "placed_all (dom (map_of am)) (connected c) (\<lambda>t. newPodName s t (u c t)) f am ru am1 ru1"
    "dom (map_of pods1) = f ` dom (map_of am)" "ran (map_of pods1) \<subseteq> Collect fresh_pod_status"
    "map_ok pods1" by auto
  moreover have "am1 = am'" "ru1 = ru'" "st' = map_put c \<lparr>clientStatus_LastSeenAt = defaultTime,
      clientStatus_Ready = False, clientStatus_PodStatus = pods1\<rparr> st"
    using assms(3) loop by (auto simp: allocateClient_def)
  moreover from calculation(2-4) have "new_client_status (f ` dom (map_of am))
      \<lparr>clientStatus_LastSeenAt = defaultTime, clientStatus_Ready = False,
       clientStatus_PodStatus = pods1\<rparr>"
    by (simp add: new_client_status_def)
  ultimately show ?thesis by blast
qed

section \<open>All new clients\<close>

text \<open>Induction over the new clients: a fact of each placement holds at the end.\<close>

lemma allocateClients_split:
  assumes "permutes_keys ord" and "map_ok am"
    and "allocateClients ord u s (c # cs) (am, ru, st) = (am', ru', st')"
  obtains f v am1 ru1 where
    "placed_all (dom (map_of am)) (connected c) (\<lambda>t. newPodName s t (u c t)) f am ru am1 ru1"
    "new_client_status (f ` dom (map_of am)) v"
    "allocateClients ord u s cs (am1, ru1, map_put c v st) = (am', ru', st')"
    "map_ok am1" "dom (map_of am1) = dom (map_of am)"
proof -
  obtain am1 ru1 st1 where step: "allocateClient ord u s c (am, ru, st) = (am1, ru1, st1)"
    by (metis prod.exhaust)
  from allocateClient_placed [OF assms(1,2) step] obtain f v where
    fv: "placed_all (dom (map_of am)) (connected c) (\<lambda>t. newPodName s t (u c t)) f am ru am1 ru1"
      "st1 = map_put c v st" "new_client_status (f ` dom (map_of am)) v" by blast
  moreover have "allocateClients ord u s cs (am1, ru1, st1) = (am', ru', st')"
    using assms(3) step by (simp add: allocateClients_def)
  ultimately show thesis
    using that placed_all_map_ok [OF fv(1)] placed_all_dom [OF fv(1)] assms(2) by blast
qed

lemma allocateClients_invariant:
  assumes "permutes_keys ord" and "map_ok am"
    and "allocateClients ord u s cs (am, ru, st) = (am', ru', st')"
    and step: "\<And>c t n ps sp ps' sp'. c \<in> set cs \<Longrightarrow>
      placed (connected c) (max_of am t) (newPodName s t (u c t)) ps sp n ps' sp' \<Longrightarrow> Q t ps \<Longrightarrow> Q t ps'"
    and "\<And>t. Q t (pods_of am t)"
  shows "Q t (pods_of am' t) \<and> map_keys am' = map_keys am \<and> template_of am' t = template_of am t"
  using assms(2-5)
proof (induction cs arbitrary: am ru st)
  case Nil
  then show ?case by (simp add: allocateClients_def)
next
  case (Cons c cs)
  from assms(1) Cons.prems(1,2) show ?case
  proof (cases rule: allocateClients_split)
    case (1 f v am1 ru1)
    have "Q x (pods_of am1 x)" for x
    proof (cases "x \<in> dom (map_of am)")
      case True
      then have "placed (connected c) (max_of am x) (newPodName s x (u c x)) (pods_of am x)
          (spare ru x) (f x) (pods_of am1 x) (spare ru1 x)"
        using 1(1) by (simp add: placed_all_def)
      from Cons.prems(3) [OF _ this Cons.prems(4)] show ?thesis by simp
    qed (use 1(1) Cons.prems(4) in \<open>simp add: placed_all_def\<close>)
    moreover have same: "template_of am1 x = template_of am x" "map_keys am1 = map_keys am" for x
      using 1(1) by (simp_all add: placed_all_def)
    moreover have "Q x qs'"
      if "d \<in> set cs" "placed (connected d) (max_of am1 x) (newPodName s x (u d x)) qs sp n qs' sp'"
        "Q x qs" for d x n qs sp qs' sp'
      using Cons.prems(3) [of d x qs sp n qs' sp'] that by (simp add: same)
    ultimately show ?thesis using Cons.IH [OF 1(4,3)] by simp
  qed
qed

text \<open>
  The seats and the status at the end: \<open>f c t\<close> is the pod of client \<open>c\<close> in template \<open>t\<close>.
\<close>

lemma allocateClients_seats:
  assumes "permutes_keys ord" and "map_ok am" and "distinct cs"
    and "allocateClients ord u s cs (am, ru, st) = (am', ru', st')"
  shows "\<exists>f. (\<forall>t. seats_in (pods_of am' t) = seats_in (pods_of am t) \<union>
        (if t \<in> dom (map_of am) then (\<lambda>c. (f c t, connected c)) ` set cs else {})) \<and>
      (\<forall>c. c \<notin> set cs \<longrightarrow> map_of st' c = map_of st c) \<and>
      (\<forall>c \<in> set cs. \<exists>v. map_of st' c = Some v \<and> new_client_status (f c ` dom (map_of am)) v)"
  using assms(2-4)
proof (induction cs arbitrary: am ru st)
  case Nil
  then show ?case by (simp add: allocateClients_def)
next
  case (Cons c cs)
  from assms(1) Cons.prems(1,3) show ?case
  proof (cases rule: allocateClients_split)
    case (1 g v am1 ru1)
    have c: "c \<notin> set cs" "distinct cs" using Cons.prems(2) by simp_all
    from Cons.IH [OF 1(4) c(2) 1(3)] obtain f where f:
      "\<forall>t. seats_in (pods_of am' t) = seats_in (pods_of am1 t) \<union>
        (if t \<in> dom (map_of am) then (\<lambda>c. (f c t, connected c)) ` set cs else {})"
      "\<forall>d. d \<notin> set cs \<longrightarrow> map_of st' d = map_of (map_put c v st) d"
      "\<forall>d \<in> set cs. \<exists>v. map_of st' d = Some v \<and> new_client_status (f d ` dom (map_of am)) v"
      unfolding 1(5) by blast
    have "seats_in (pods_of am1 t) = seats_in (pods_of am t) \<union>
        (if t \<in> dom (map_of am) then {(g t, connected c)} else {})" for t
    proof (cases "t \<in> dom (map_of am)")
      case True
      then have "placed (connected c) (max_of am t) (newPodName s t (u c t)) (pods_of am t)
          (spare ru t) (g t) (pods_of am1 t) (spare ru1 t)"
        using 1(1) by (simp add: placed_all_def)
      from placed_seats [OF this] True show ?thesis by simp
    qed (use 1(1) in \<open>simp add: placed_all_def\<close>)
    moreover have "(\<lambda>d. ((f(c := g)) d t, connected d)) ` set (c # cs) =
        {(g t, connected c)} \<union> (\<lambda>d. (f d t, connected d)) ` set cs" for t
      using c(1) by (auto intro!: image_cong)
    ultimately have "seats_in (pods_of am' t) = seats_in (pods_of am t) \<union>
        (if t \<in> dom (map_of am) then (\<lambda>d. ((f(c := g)) d t, connected d)) ` set (c # cs) else {})" for t
      using f(1) by (simp only: if_distrib) (auto split: if_splits)
    moreover have "map_of st' d = map_of st d" if "d \<notin> set (c # cs)" for d
      using f(2) that by simp
    moreover have "\<exists>v. map_of st' d = Some v \<and> new_client_status ((f(c := g)) d ` dom (map_of am)) v"
      if "d \<in> set (c # cs)" for d
      using f(2,3) c(1) 1(2) that by (cases "d = c") auto
    ultimately show ?thesis by (intro exI [of _ "f(c := g)"]) simp
  qed
qed

section \<open>Names of pods\<close>

text \<open>
  The names of the pods to be created are new: they differ from each other and from the pods that
  are allocated or spare.  The program does not check this; it uses four digits of a random UUID.
\<close>

definition fresh_names ::
    "(string \<Rightarrow> string \<Rightarrow> string) \<Rightarrow> string \<Rightarrow> string list \<Rightarrow> allocationMap \<Rightarrow> templatePodMap \<Rightarrow> bool" where
  "fresh_names u s cs am ru \<longleftrightarrow> (\<forall>t. distinct (map (\<lambda>c. newPodName s t (u c t)) cs) \<and>
     (\<forall>c \<in> set cs. newPodName s t (u c t) \<notin> set (pod_names am t) \<union> spare ru t))"

lemma placed_all_pods_inv:
  assumes "placed_all T c nn f am ru am' ru'" and "pods_inv am ru"
    and "\<And>t. nn t \<notin> set (pod_names am t) \<union> spare ru t"
  shows "pods_inv am' ru'"
    and "set (pod_names am' t) \<union> spare ru' t \<subseteq> set (pod_names am t) \<union> spare ru t \<union> {nn t}"
proof -
  have all: "(distinct (pod_names am' t) \<and> (\<forall>p \<in> set (pods_of am' t). pod_Clients p \<noteq> []) \<and>
      set (pod_names am' t) \<inter> spare ru' t = {}) \<and>
      set (pod_names am' t) \<union> spare ru' t \<subseteq> set (pod_names am t) \<union> spare ru t \<union> {nn t}" for t
  proof (cases "t \<in> T")
    case True
    then have pl: "placed c (max_of am t) (nn t) (pods_of am t) (spare ru t) (f t) (pods_of am' t) (spare ru' t)"
      using assms(1) by (simp add: placed_all_def)
    from placed_nonempty [OF pl] assms(2)
    have "\<forall>p \<in> set (pods_of am' t). pod_Clients p \<noteq> []" by (simp add: pods_inv_def)
    moreover have "distinct (pod_names am t)" "set (pod_names am t) \<inter> spare ru t = {}"
      using assms(2) by (auto simp: pods_inv_def)
    ultimately show ?thesis
      using placed_names [OF pl, folded pod_names_def] assms(3) [of t]
      by (elim disjE conjE) auto
  next
    case False
    with assms show ?thesis by (auto simp: placed_all_def pods_inv_def pod_names_def)
  qed
  from all show "pods_inv am' ru'" unfolding pods_inv_def by blast
  from all show "set (pod_names am' t) \<union> spare ru' t \<subseteq> set (pod_names am t) \<union> spare ru t \<union> {nn t}"
    by blast
qed

lemma fresh_names_step:
  assumes "fresh_names u s (c # cs) am ru"
    and "\<And>t. set (pod_names am1 t) \<union> spare ru1 t \<subseteq> set (pod_names am t) \<union> spare ru t \<union> {newPodName s t (u c t)}"
  shows "fresh_names u s cs am1 ru1"
  unfolding fresh_names_def
proof (intro allI conjI ballI)
  fix t d
  show "distinct (map (\<lambda>c. newPodName s t (u c t)) cs)"
    using assms(1) by (simp add: fresh_names_def)
  assume "d \<in> set cs"
  then have "newPodName s t (u d t) \<notin> set (pod_names am t) \<union> spare ru t"
    "newPodName s t (u d t) \<noteq> newPodName s t (u c t)"
    using assms(1) by (auto simp: fresh_names_def dest: spec [of _ t]) (metis imageI)
  with assms(2) [of t] show "newPodName s t (u d t) \<notin> set (pod_names am1 t) \<union> spare ru1 t"
    by blast
qed

lemma allocateClients_pods_inv:
  assumes "permutes_keys ord" and "map_ok am" and "pods_inv am ru" and "fresh_names u s cs am ru"
    and "allocateClients ord u s cs (am, ru, st) = (am', ru', st')"
  shows "pods_inv am' ru'"
  using assms(2-5)
proof (induction cs arbitrary: am ru st)
  case Nil
  then show ?case by (simp add: allocateClients_def)
next
  case (Cons c cs)
  from assms(1) Cons.prems(1,4) show ?case
  proof (cases rule: allocateClients_split)
    case (1 f v am1 ru1)
    have new: "newPodName s t (u c t) \<notin> set (pod_names am t) \<union> spare ru t" for t
      using Cons.prems(3) by (simp add: fresh_names_def)
    note inv = placed_all_pods_inv [OF 1(1) Cons.prems(2) new]
    from Cons.IH [OF 1(4) inv(1) fresh_names_step [OF Cons.prems(3) inv(2)] 1(3)] show ?thesis .
  qed
qed

lemma placed_all_names:
  assumes "placed_all T c nn f am ru am' ru'" and "spare_exact tm am ru"
    and "\<And>t. nn t \<notin> set (pod_names am t) \<union> spare ru t"
  shows "spare_exact tm am' ru'"
    and "set (pod_names am' t) \<subseteq> set (pod_names am t) \<union> spare ru t \<union> {nn t}"
proof -
  have step: "set (pod_names am' t) \<subseteq> set (pod_names am t) \<union> spare ru t \<union> {nn t} \<and>
      spare ru' t = spare tm t - set (pod_names am' t)" for t
  proof (cases "t \<in> T")
    case True
    then have "placed c (max_of am t) (nn t) (pods_of am t) (spare ru t) (f t) (pods_of am' t) (spare ru' t)"
      using assms(1) by (simp add: placed_all_def)
    from placed_names [OF this, folded pod_names_def] assms(2) assms(3) [of t] show ?thesis
      by (elim disjE conjE) (auto simp: spare_exact_def)
  next
    case False
    with assms show ?thesis by (auto simp: placed_all_def spare_exact_def pod_names_def)
  qed
  then show "spare_exact tm am' ru'" by (simp add: spare_exact_def)
  show "set (pod_names am' t) \<subseteq> set (pod_names am t) \<union> spare ru t \<union> {nn t}" using step by blast
qed

lemma allocateClients_spare_exact:
  assumes "permutes_keys ord" and "map_ok am" and "pods_inv am ru" and "fresh_names u s cs am ru"
    and "spare_exact tm am ru" and "allocateClients ord u s cs (am, ru, st) = (am', ru', st')"
  shows "spare_exact tm am' ru'"
  using assms(2-6)
proof (induction cs arbitrary: am ru st)
  case Nil
  then show ?case by (simp add: allocateClients_def)
next
  case (Cons c cs)
  from assms(1) Cons.prems(1,5) show ?case
  proof (cases rule: allocateClients_split)
    case (1 f v am1 ru1)
    have new: "newPodName s t (u c t) \<notin> set (pod_names am t) \<union> spare ru t" for t
      using Cons.prems(3) by (simp add: fresh_names_def)
    note inv = placed_all_pods_inv [OF 1(1) Cons.prems(2) new]
    from Cons.IH [OF 1(4) inv(1) fresh_names_step [OF Cons.prems(3) inv(2)]
        placed_all_names(1) [OF 1(1) Cons.prems(4) new] 1(3)]
    show ?thesis .
  qed
qed

text \<open>
  With a session name of the shape that the session manager builds (one dash) and template names
  without a dash, the new names lead back to their template.
\<close>

lemma allocateClients_home:
  assumes "permutes_keys ord" and "map_ok am" and "home am"
    and "\<forall>t. \<forall>n \<in> spare ru t. templateNameOf n = Some t"
    and "count_list s (CHR ''-'') = 1" and "\<forall>t \<in> dom (map_of am). CHR ''-'' \<notin> set t"
    and "allocateClients ord u s cs (am, ru, st) = (am', ru', st')"
  shows "home am'"
  using assms(2-4,6,7)
proof (induction cs arbitrary: am ru st)
  case Nil
  then show ?case by (simp add: allocateClients_def)
next
  case (Cons c cs)
  from assms(1) Cons.prems(1,5) show ?case
  proof (cases rule: allocateClients_split)
    case (1 f v am1 ru1)
    have step: "(\<forall>n \<in> set (pod_names am1 t) \<union> spare ru1 t. templateNameOf n = Some t)" for t
    proof (cases "t \<in> dom (map_of am)")
      case True
      then have pl: "placed (connected c) (max_of am t) (newPodName s t (u c t)) (pods_of am t) (spare ru t)
          (f t) (pods_of am1 t) (spare ru1 t)" using 1(1) by (simp add: placed_all_def)
      have "templateNameOf (newPodName s t (u c t)) = Some t"
        using assms(5) Cons.prems(4) True by (intro templateNameOf_newPodName) auto
      with placed_names [OF pl, folded pod_names_def] Cons.prems(2,3) show ?thesis
        unfolding home_def by (elim disjE conjE) auto
    next
      case False
      with 1(1) Cons.prems(2,3) show ?thesis by (auto simp: placed_all_def home_def pod_names_def)
    qed
    show ?thesis
      by (rule Cons.IH [OF 1(4) _ _ _ 1(3)]) (use step Cons.prems(4) 1(5) in \<open>auto simp: home_def\<close>)
  qed
qed

end
