(* ===== verification/Readiness.thy ===== *)
theory Readiness
  imports Allocation
begin

text \<open>
  The report of the pods to the clients: \<open>utils/pods.go\<close> (\<open>ExtractReadyConditionStatusFromPod\<close>,
  \<open>PodsAreReady\<close>) and, from \<open>client_pods.go\<close>, \<open>podIsEmpty\<close>, \<open>setClientStatusReadiness\<close> and
  \<open>reconcilePods\<close>.  The lemmas flatten the nested loops to one loop over the seats of the
  allocation map and show that a client is ready exactly when all its pods are.
\<close>

section \<open>Conditions of pods\<close>

text \<open>The status of the first \<open>Ready\<close> condition, or the empty string.\<close>

definition ExtractReadyConditionStatusFromPod :: "kpod \<Rightarrow> string" where
  "ExtractReadyConditionStatusFromPod pod =
     (case find (\<lambda>condition. podCondition_Type condition = ''Ready'') (kpod_Conditions pod) of
        None \<Rightarrow> [] | Some condition \<Rightarrow> podCondition_Status condition)"

definition PodsAreReady :: "kpod list \<Rightarrow> bool" where
  "PodsAreReady pods = list_all (\<lambda>pod.
     let status = ExtractReadyConditionStatusFromPod pod
     in \<not> (status \<noteq> [] \<and> (status = ''False'' \<or> status = ''Unknown''))) pods"

section \<open>Operations\<close>

definition podIsEmpty :: "pod \<Rightarrow> bool" where
  "podIsEmpty pod = list_all (\<lambda>client. \<not> podClient_Connected client) (pod_Clients pod)"

text \<open>
  One turn of the loop of \<open>setClientStatusReadiness\<close>.  The conjunction over the pods of the client
  does not depend on the order of the visit.
\<close>

definition setOneClientReadiness ::
    "bool \<Rightarrow> string \<Rightarrow> string \<Rightarrow> podClient \<Rightarrow> (string, clientStatus) gomap
       \<Rightarrow> (string, clientStatus) gomap option" where
  "setOneClientReadiness ready podName ingressServiceExternalIp client statusClients =
     (case map_of statusClients (podClient_Id client) of
        None \<Rightarrow> Some statusClients
      | Some value \<Rightarrow>
         (case map_of (clientStatus_PodStatus value) podName of
            None \<Rightarrow> Some (map_put (podClient_Id client) (value\<lparr>clientStatus_Ready := True\<rparr>) statusClients)
          | Some podStatus \<Rightarrow> do {
              podStatus' \<leftarrow> (if ingressServiceExternalIp \<noteq> []
                 then concatIngressExternalIpToPodPaths ingressServiceExternalIp
                   (podStatus\<lparr>podStatus_Ready := ready\<rparr>)
                 else Some (podStatus\<lparr>podStatus_Ready := ready\<rparr>));
              let podStatuses = map_put podName podStatus' (clientStatus_PodStatus value);
              let topReadiness = (if \<not> ready then False
                 else list_all (\<lambda>k. podStatus_Ready (map_get_zero zero_podStatus podStatuses k))
                   (map_keys podStatuses));
              Some (map_put (podClient_Id client)
                 (value\<lparr>clientStatus_PodStatus := podStatuses, clientStatus_Ready := topReadiness\<rparr>)
                 statusClients) }))"

definition setClientStatusReadiness ::
    "bool \<Rightarrow> string \<Rightarrow> podClient list \<Rightarrow> (string, clientStatus) gomap \<Rightarrow> string
       \<Rightarrow> (string, clientStatus) gomap option" where
  "setClientStatusReadiness ready podName podClients statusClients ingressServiceExternalIp =
     fold_opt (setOneClientReadiness ready podName ingressServiceExternalIp) podClients statusClients"

text \<open>The pod object for a name; the namespace is set when the pod is spawned.\<close>

definition clientPodObject :: "string \<Rightarrow> podSpec \<Rightarrow> kpod" where
  "clientPodObject podName spec =
     \<lparr>kpod_Name = podName, kpod_Namespace = [], kpod_Labels = Some [(''type'', ''client'')],
      kpod_Controller = None, kpod_Spec = spec, kpod_Conditions = []\<rparr>"

definition reconcilePod ::
    "allocationValue \<Rightarrow> templatePodMap \<Rightarrow> string option \<Rightarrow> pod
       \<Rightarrow> (string, clientStatus) gomap \<times> kpod list
       \<Rightarrow> ((string, clientStatus) gomap \<times> kpod list) option" where
  "reconcilePod allocValue templatePodMap ingressServiceExternalIp pod =
     (\<lambda>(statusClients, podsToSpawn).
       case map_of (map_get_zero [] templatePodMap (template_Name (alloc_PodTemplate allocValue)))
           (pod_Name pod) of
         None \<Rightarrow> do {
           statusClients' \<leftarrow>
             setClientStatusReadiness False (pod_Name pod) (pod_Clients pod) statusClients [];
           Some (statusClients', podsToSpawn @
             [clientPodObject (pod_Name pod) (template_Spec (alloc_PodTemplate allocValue))]) }
       | Some value \<Rightarrow> do {
           statusClients' \<leftarrow>
             (case ingressServiceExternalIp of
                Some ip \<Rightarrow>
                  if ExtractReadyConditionStatusFromPod value = ''True''
                  then setClientStatusReadiness True (pod_Name pod) (pod_Clients pod) statusClients ip
                  else setClientStatusReadiness False (pod_Name pod) (pod_Clients pod) statusClients []
              | None \<Rightarrow>
                  setClientStatusReadiness False (pod_Name pod) (pod_Clients pod) statusClients []);
           Some (statusClients', podsToSpawn) })"

definition reconcilePods ::
    "iteration \<Rightarrow> allocationMap \<Rightarrow> (string, clientStatus) gomap \<Rightarrow> templatePodMap \<Rightarrow> string option
       \<Rightarrow> ((string, clientStatus) gomap \<times> kpod list) option" where
  "reconcilePods ord allocationMap statusClients templatePodMap ingressServiceExternalIp =
     fold_opt (\<lambda>templateName.
         let allocValue = map_get_zero zero_allocationValue allocationMap templateName
         in fold_opt (reconcilePod allocValue templatePodMap ingressServiceExternalIp)
              (alloc_Pods allocValue))
       (ord RangeAllocationSpawn (map_keys allocationMap)) (statusClients, [])"

section \<open>The loops as one loop over the seats\<close>

text \<open>The object of the cluster for a pod of the allocation map.\<close>

definition cluster_pod :: "templatePodMap \<Rightarrow> allocationValue \<Rightarrow> pod \<Rightarrow> kpod option" where
  "cluster_pod tm av p =
     map_of (map_get_zero [] tm (template_Name (alloc_PodTemplate av))) (pod_Name p)"

definition pod_up :: "string option \<Rightarrow> kpod option \<Rightarrow> bool" where
  "pod_up ip k \<longleftrightarrow> (\<exists>v. k = Some v \<and> ExtractReadyConditionStatusFromPod v = ''True'') \<and> ip \<noteq> None"

text \<open>The address handed on: the one of the ingress for a pod that is up, else the empty one.\<close>

definition pod_ip :: "string option \<Rightarrow> kpod option \<Rightarrow> string" where
  "pod_ip ip k = (if pod_up ip k then the ip else [])"

lemma reconcilePod_eq:
  "reconcilePod av tm ip p (st, out) = map_option (\<lambda>st'. (st', out @
     (if cluster_pod tm av p = None
      then [clientPodObject (pod_Name p) (template_Spec (alloc_PodTemplate av))] else [])))
     (setClientStatusReadiness (pod_up ip (cluster_pod tm av p)) (pod_Name p) (pod_Clients p) st
       (pod_ip ip (cluster_pod tm av p)))"
  by (auto simp: reconcilePod_def cluster_pod_def pod_up_def pod_ip_def
      split: option.splits Option.bind_splits)

lemma fold_opt_with_output:
  assumes "\<And>x s out. f x (s, out) = map_option (\<lambda>s'. (s', out @ g x)) (h x s)"
  shows "fold_opt f xs (s, out) = map_option (\<lambda>s'. (s', out @ concat (map g xs))) (fold_opt h xs s)"
proof (induction xs arbitrary: s out)
  case Nil
  then show ?case by simp
next
  case (Cons x xs)
  then show ?case by (cases "h x s") (simp_all add: assms)
qed

lemma fold_opt_concat: "fold_opt (\<lambda>x. fold_opt f (g x)) xs s = fold_opt f (concat (map g xs)) s"
proof (induction xs arbitrary: s)
  case (Cons x xs)
  then show ?case by (cases "fold_opt f (g x) s") (simp_all add: fold_opt_append)
qed simp

lemma fold_opt_map: "fold_opt f (map g xs) s = fold_opt (\<lambda>x. f (g x)) xs s"
  by (induction xs arbitrary: s) (auto split: Option.bind_splits)

record seat =
  seat_up :: bool
  seat_pod :: string
  seat_ip :: string
  seat_client :: podClient

definition seat_turn ::
    "seat \<Rightarrow> (string, clientStatus) gomap \<Rightarrow> (string, clientStatus) gomap option" where
  "seat_turn e = setOneClientReadiness (seat_up e) (seat_pod e) (seat_ip e) (seat_client e)"

definition pod_seats :: "templatePodMap \<Rightarrow> string option \<Rightarrow> allocationValue \<Rightarrow> pod \<Rightarrow> seat list" where
  "pod_seats tm ip av p = map (\<lambda>c. \<lparr>seat_up = pod_up ip (cluster_pod tm av p),
     seat_pod = pod_Name p, seat_ip = pod_ip ip (cluster_pod tm av p), seat_client = c\<rparr>) (pod_Clients p)"

definition all_seats :: "templatePodMap \<Rightarrow> string option \<Rightarrow> allocationValue list \<Rightarrow> seat list" where
  "all_seats tm ip avs = concat (map (\<lambda>av. concat (map (pod_seats tm ip av) (alloc_Pods av))) avs)"

text \<open>The pods to spawn: those of the allocation map that the cluster does not have.\<close>

definition missing_pods :: "templatePodMap \<Rightarrow> allocationValue \<Rightarrow> kpod list" where
  "missing_pods tm av =
     map (\<lambda>p. clientPodObject (pod_Name p) (template_Spec (alloc_PodTemplate av)))
       (filter (\<lambda>p. cluster_pod tm av p = None) (alloc_Pods av))"

lemma reconcilePod_loop:
  "fold_opt (reconcilePod av tm ip) ps (st, out) =
     map_option (\<lambda>st'. (st', out @ concat (map (\<lambda>p. if cluster_pod tm av p = None
      then [clientPodObject (pod_Name p) (template_Spec (alloc_PodTemplate av))] else []) ps)))
     (fold_opt seat_turn (concat (map (pod_seats tm ip av) ps)) st)"
proof -
  have turn: "setClientStatusReadiness (pod_up ip (cluster_pod tm av p)) (pod_Name p) (pod_Clients p) s
      (pod_ip ip (cluster_pod tm av p)) = fold_opt seat_turn (pod_seats tm ip av p) s" for p s
    by (simp add: setClientStatusReadiness_def pod_seats_def fold_opt_map seat_turn_def)
  show ?thesis
    unfolding fold_opt_concat [symmetric]
    by (rule fold_opt_with_output) (simp add: reconcilePod_eq turn)
qed

lemma concat_if_filter: "concat (map (\<lambda>p. if P p then [g p] else []) ps) = map g (filter P ps)"
  by (induction ps) auto

theorem reconcilePods_flat:
  "reconcilePods ord am st tm ip =
     (let avs = map (map_get_zero zero_allocationValue am) (ord RangeAllocationSpawn (map_keys am))
      in map_option (\<lambda>st'. (st', concat (map (missing_pods tm) avs)))
           (fold_opt seat_turn (all_seats tm ip avs) st))"
proof -
  have "fold_opt (\<lambda>av. fold_opt (reconcilePod av tm ip) (alloc_Pods av)) avs (st, []) =
      map_option (\<lambda>st'. (st', [] @ concat (map (missing_pods tm) avs)))
        (fold_opt (\<lambda>av. fold_opt seat_turn (concat (map (pod_seats tm ip av) (alloc_Pods av)))) avs st)"
    for avs
    by (rule fold_opt_with_output)
      (simp add: reconcilePod_loop missing_pods_def concat_if_filter)
  from this [of "map (map_get_zero zero_allocationValue am) (ord RangeAllocationSpawn (map_keys am))"]
  show ?thesis
    by (simp add: reconcilePods_def Let_def all_seats_def fold_opt_concat fold_opt_map)
qed

section \<open>One seat\<close>

text \<open>The new status of the client in the seat.\<close>

definition seat_status :: "seat \<Rightarrow> clientStatus \<Rightarrow> clientStatus \<Rightarrow> bool" where
  "seat_status e v v' \<longleftrightarrow>
     clientStatus_LastSeenAt v' = clientStatus_LastSeenAt v \<and>
     dom (map_of (clientStatus_PodStatus v')) = dom (map_of (clientStatus_PodStatus v)) \<and>
     (\<forall>n. n \<noteq> seat_pod e \<longrightarrow>
        map_of (clientStatus_PodStatus v') n = map_of (clientStatus_PodStatus v) n) \<and>
     (\<forall>s. map_of (clientStatus_PodStatus v') (seat_pod e) = Some s \<longrightarrow>
        podStatus_Ready s = seat_up e \<and>
        (clientStatus_Ready v' \<longleftrightarrow> (\<forall>s \<in> ran (map_of (clientStatus_PodStatus v')). podStatus_Ready s)))"

lemma all_ready_iff:
  "list_all (\<lambda>k. podStatus_Ready (map_get_zero zero_podStatus m k)) (map_keys m) \<longleftrightarrow>
     (\<forall>s \<in> ran (map_of m). podStatus_Ready s)"
proof -
  have "(\<forall>k \<in> dom (map_of m). podStatus_Ready (map_get_zero zero_podStatus m k)) \<longleftrightarrow>
      (\<forall>k s. map_of m k = Some s \<longrightarrow> podStatus_Ready s)"
    by (fastforce simp: map_get_zero_def dom_def)
  then show ?thesis by (auto simp: list_all_iff ran_def)
qed

lemma concat_paths_ready:
  "concatIngressExternalIpToPodPaths ip s = Some s' \<Longrightarrow> podStatus_Ready s' = podStatus_Ready s"
  by (auto simp: concatIngressExternalIpToPodPaths_def split: Option.bind_splits)

lemma seat_turn_status:
  assumes "seat_turn e st = Some st'"
  shows "(\<forall>c. c \<noteq> podClient_Id (seat_client e) \<longrightarrow> map_of st' c = map_of st c) \<and>
    rel_option (seat_status e) (map_of st (podClient_Id (seat_client e)))
      (map_of st' (podClient_Id (seat_client e)))"
proof (cases "map_of st (podClient_Id (seat_client e))")
  case None
  with assms show ?thesis by (simp add: seat_turn_def setOneClientReadiness_def)
next
  case (Some v)
  show ?thesis
  proof (cases "map_of (clientStatus_PodStatus v) (seat_pod e)")
    case None
    with Some assms show ?thesis
      by (auto simp: seat_turn_def setOneClientReadiness_def seat_status_def)
  next
    case s: (Some s)
    let ?t = "s\<lparr>podStatus_Ready := seat_up e\<rparr>"
    let ?r = "if seat_ip e \<noteq> [] then concatIngressExternalIpToPodPaths (seat_ip e) ?t else Some ?t"
    from assms Some s obtain t' where t': "?r = Some t'"
      by (cases ?r) (simp_all add: seat_turn_def setOneClientReadiness_def)
    then have ready: "podStatus_Ready t' = seat_up e"
      using concat_paths_ready [of "seat_ip e" ?t t'] by (auto split: if_splits)
    let ?m = "map_put (seat_pod e) t' (clientStatus_PodStatus v)"
    let ?b = "if \<not> seat_up e then False
        else list_all (\<lambda>k. podStatus_Ready (map_get_zero zero_podStatus ?m k)) (map_keys ?m)"
    let ?v = "v\<lparr>clientStatus_PodStatus := ?m, clientStatus_Ready := ?b\<rparr>"
    have st': "st' = map_put (podClient_Id (seat_client e)) ?v st"
      using assms Some s t' by (simp add: seat_turn_def setOneClientReadiness_def Let_def)
    have "t' \<in> ran (map_of ?m)" by (auto simp: ran_def)
    then have "?b \<longleftrightarrow> (\<forall>s \<in> ran (map_of ?m). podStatus_Ready s)"
      using ready unfolding all_ready_iff by auto
    then have "seat_status e v ?v" unfolding seat_status_def using s ready by auto
    with st' Some show ?thesis by simp
  qed
qed

lemma seat_turn_total:
  assumes "\<And>v s. map_of st (podClient_Id (seat_client e)) = Some v \<Longrightarrow>
      map_of (clientStatus_PodStatus v) (seat_pod e) = Some s \<Longrightarrow> paths_ok s"
    and "CHR ''/'' \<notin> set (seat_ip e)"
  shows "\<exists>st'. seat_turn e st = Some st'"
proof (cases "map_of st (podClient_Id (seat_client e))")
  case None
  then show ?thesis by (simp add: seat_turn_def setOneClientReadiness_def)
next
  case (Some v)
  show ?thesis
  proof (cases "map_of (clientStatus_PodStatus v) (seat_pod e)")
    case None
    with Some show ?thesis by (simp add: seat_turn_def setOneClientReadiness_def)
  next
    case s: (Some s)
    have "paths_ok (s\<lparr>podStatus_Ready := seat_up e\<rparr>)" using assms(1) Some s by (simp add: paths_ok_def)
    from concat_paths_ok [OF this assms(2)] obtain t where
      "concatIngressExternalIpToPodPaths (seat_ip e) (s\<lparr>podStatus_Ready := seat_up e\<rparr>) = Some t" by blast
    with Some s show ?thesis by (simp add: seat_turn_def setOneClientReadiness_def Let_def)
  qed
qed

end
