(* ===== verification/Kube.thy ===== *)
theory Kube
  imports Api_Types "HOL-Library.State_Monad" "HOL-Library.Sublist"
begin

text \<open>
  The API server as the program sees it.  Its code is not part of the program, so it is a
  parameter: a record \<open>kube\<close> with one function per kind of call, which answers a call from the
  whole history of the requests made so far.  The answers are arbitrary, so a theorem about a
  handler holds whatever the server, other controllers or the network do between two calls.  A
  handler is a \<open>State_Monad\<close> action over the history; its effect is the list of requests it
  appends.
\<close>

section \<open>Errors and requests\<close>

text \<open>
  What \<open>errors.IsNotFound\<close> and \<open>errors.IsAlreadyExists\<close> of \<open>apimachinery\<close> tell apart.
\<close>

datatype apiError = NotFound | AlreadyExists | OtherError string

text \<open>The field and label selectors of a list call.\<close>

type_synonym selector = "(string \<times> string) list"

datatype request =
    GetSession string string
  | GetService string string
  | GetPod string string
  | GetIngress string string
  | ListPods string selector
  | ListGCRegistrations string selector
  | ListServices string selector
  | CreateNamespace string
  | CreateGCRegistration gcRegistration
  | CreatePod kpod
  | CreateService service
  | UpdateSessionStatus session
  | UpdateSession session
  | UpdateGCRegistration gcRegistration
  | UpdateIngress ingress
  | DeleteGCRegistration gcRegistration
  | DeletePod kpod

type_synonym history = "request list"

text \<open>The requests that change the cluster.\<close>

fun is_write :: "request \<Rightarrow> bool" where
  "is_write (GetSession _ _) = False"
| "is_write (GetService _ _) = False"
| "is_write (GetPod _ _) = False"
| "is_write (GetIngress _ _) = False"
| "is_write (ListPods _ _) = False"
| "is_write (ListGCRegistrations _ _) = False"
| "is_write (ListServices _ _) = False"
| "is_write _ = True"

section \<open>Events\<close>

text \<open>The events of a watch, as the predicates of \<open>controller-runtime\<close> get them.\<close>

datatype 'a watchEvent = CreateEvent 'a | DeleteEvent 'a | UpdateEvent 'a 'a | GenericEvent 'a

section \<open>The server as a parameter\<close>

text \<open>
  An update answers with the stored object, which the client library decodes into the object the
  caller passed.  \<open>api_SetControllerReference\<close> is \<open>ctrl.SetControllerReference\<close>, which
  sets the owner of an object or fails, and \<open>api_Now\<close> is \<open>time.Now\<close>.
\<close>

record kube =
  api_Now :: "history \<Rightarrow> instant"
  api_GetSession :: "history \<Rightarrow> string \<Rightarrow> string \<Rightarrow> apiError + session"
  api_GetService :: "history \<Rightarrow> string \<Rightarrow> string \<Rightarrow> apiError + service"
  api_GetPod :: "history \<Rightarrow> string \<Rightarrow> string \<Rightarrow> apiError + kpod"
  api_GetIngress :: "history \<Rightarrow> string \<Rightarrow> string \<Rightarrow> apiError + ingress"
  api_ListPods :: "history \<Rightarrow> string \<Rightarrow> selector \<Rightarrow> apiError + kpod list"
  api_ListGCRegistrations :: "history \<Rightarrow> string \<Rightarrow> selector \<Rightarrow> apiError + gcRegistration list"
  api_ListServices :: "history \<Rightarrow> string \<Rightarrow> selector \<Rightarrow> apiError + service list"
  api_CreateNamespace :: "history \<Rightarrow> string \<Rightarrow> apiError option"
  api_CreateGCRegistration :: "history \<Rightarrow> gcRegistration \<Rightarrow> apiError option"
  api_CreatePod :: "history \<Rightarrow> kpod \<Rightarrow> apiError option"
  api_CreateService :: "history \<Rightarrow> service \<Rightarrow> apiError + service"
  api_UpdateSessionStatus :: "history \<Rightarrow> session \<Rightarrow> apiError + session"
  api_UpdateSession :: "history \<Rightarrow> session \<Rightarrow> apiError + session"
  api_UpdateGCRegistration :: "history \<Rightarrow> gcRegistration \<Rightarrow> apiError option"
  api_UpdateIngress :: "history \<Rightarrow> ingress \<Rightarrow> apiError option"
  api_DeleteGCRegistration :: "history \<Rightarrow> gcRegistration \<Rightarrow> apiError option"
  api_DeletePod :: "history \<Rightarrow> kpod \<Rightarrow> apiError option"
  api_SetPodController :: "session \<Rightarrow> kpod \<Rightarrow> apiError + kpod"
  api_SetServiceController :: "kpod \<Rightarrow> service \<Rightarrow> apiError + service"

type_synonym 'a io = "(history, 'a) state"

text \<open>The steps of an action are the same for every kind of request.\<close>

definition call :: "'r \<Rightarrow> ('r list \<Rightarrow> 'a) \<Rightarrow> ('r list, 'a) state" where
  "call r answer = State (\<lambda>h. (answer h, h @ [r]))"

definition peek :: "('r list \<Rightarrow> 'a) \<Rightarrow> ('r list, 'a) state" where
  "peek answer = State (\<lambda>h. (answer h, h))"

abbreviation ret :: "'a \<Rightarrow> ('r list, 'a) state" where
  "ret \<equiv> State_Monad.return"

lemma run_call [simp, io_simps]: "run_state (call r f) h = (f h, h @ [r])"
  by (simp add: call_def)

lemma run_peek [simp, io_simps]: "run_state (peek f) h = (f h, h)"
  by (simp add: peek_def)

section \<open>Loops that stop at the first error\<close>

fun for_each :: "('a \<Rightarrow> ('r list, 'e option) state) \<Rightarrow> 'a list \<Rightarrow> ('r list, 'e option) state" where
  "for_each f [] = ret None"
| "for_each f (x # xs) = do {
     e \<leftarrow> f x;
     (case e of Some err \<Rightarrow> ret (Some err) | None \<Rightarrow> for_each f xs) }"

lemma for_each_append: "run_state (for_each f (xs @ ys)) h =
    run_state (do { e \<leftarrow> for_each f xs; (case e of Some err \<Rightarrow> ret (Some err) | None \<Rightarrow> for_each f ys) }) h"
  by (induction xs arbitrary: h) (auto split: prod.splits option.splits)

text \<open>Nested loops with an early return are one loop.\<close>

lemma for_each_nested: "for_each (\<lambda>x. for_each f (g x)) xs = for_each f (concat (map g xs))"
proof (rule state_ext)
  show "run_state (for_each (\<lambda>x. for_each f (g x)) xs) h = run_state (for_each f (concat (map g xs))) h" for h
    by (induction xs arbitrary: h) (auto simp: for_each_append split: prod.splits option.splits)
qed

text \<open>
  The contract of a step that only makes requests it may make: a loop over it makes no other.
\<close>

locale api_step =
  fixes step :: "'a \<Rightarrow> ('r list, 'e option) state" and allowed :: "'a \<Rightarrow> 'r \<Rightarrow> bool"
  assumes step_allowed:
    "run_state (step x) h = (e, h') \<Longrightarrow> \<exists>t. h' = h @ t \<and> list_all (allowed x) t"
begin

lemma loop_allowed:
  "run_state (for_each step xs) h = (e, h') \<Longrightarrow>
     \<exists>t. h' = h @ t \<and> (\<forall>r \<in> set t. \<exists>x \<in> set xs. allowed x r)"
proof (induction xs arbitrary: h)
  case Nil
  then show ?case by simp
next
  case (Cons x xs)
  obtain e1 h1 where s: "run_state (step x) h = (e1, h1)" by force
  then obtain t where t: "h1 = h @ t" "list_all (allowed x) t" using step_allowed by blast
  show ?case
  proof (cases e1)
    case None
    with Cons.prems s have "run_state (for_each step xs) h1 = (e, h')" by simp
    from Cons.IH [OF this] obtain u where
      u: "h' = h1 @ u" "\<forall>r \<in> set u. \<exists>x \<in> set xs. allowed x r" by blast
    with t show ?thesis by (intro exI [of _ "t @ u"]) (auto simp: list_all_iff)
  next
    case (Some err)
    with Cons.prems s t show ?thesis by (auto simp: list_all_iff)
  qed
qed

text \<open>A loop without an error has run its step for every element, within its own requests.\<close>

lemma loop_visits:
  assumes "run_state (for_each step xs) h = (None, h')" and "x \<in> set xs"
  shows "\<exists>h1 h2. prefix h h1 \<and> run_state (step x) h1 = (None, h2) \<and> prefix h2 h'"
  using assms
proof (induction xs arbitrary: h)
  case Nil
  then show ?case by simp
next
  case (Cons y ys)
  obtain e h1 where s: "run_state (step y) h = (e, h1)" by force
  with Cons.prems(1) have e: "e = None" and rest: "run_state (for_each step ys) h1 = (None, h')"
    by (cases e; simp)+
  have "prefix h h1" using step_allowed [OF s] by auto
  moreover have "prefix h1 h'" using loop_allowed [OF rest] by auto
  ultimately show ?case
    using s e Cons.prems(2) Cons.IH [OF rest] prefix_order.trans by (metis prefix_order.refl set_ConsD)
qed

end

text \<open>
  The contract of a step whose requests are fixed by its argument: it makes a prefix of them, and
  all of them unless it fails.
\<close>

locale exact_step =
  fixes step :: "'a \<Rightarrow> ('r list, 'e option) state" and trace :: "'a \<Rightarrow> 'r list"
  assumes step_done: "run_state (step x) h = (None, h') \<Longrightarrow> h' = h @ trace x"
    and step_failed: "run_state (step x) h = (Some err, h') \<Longrightarrow> \<exists>t. h' = h @ t \<and> prefix t (trace x)"
begin

lemma loop_done:
  "run_state (for_each step xs) h = (None, h') \<Longrightarrow> h' = h @ concat (map trace xs)"
proof (induction xs arbitrary: h)
  case Nil
  then show ?case by simp
next
  case (Cons x xs)
  obtain e1 h1 where s: "run_state (step x) h = (e1, h1)" by force
  with Cons.prems have "e1 = None" by (cases e1) auto
  with s Cons.prems step_done [of x h h1] Cons.IH [of h1] show ?case by auto
qed

lemma loop_prefix:
  "run_state (for_each step xs) h = (e, h') \<Longrightarrow> \<exists>t. h' = h @ t \<and> prefix t (concat (map trace xs))"
proof (induction xs arbitrary: h)
  case Nil
  then show ?case by simp
next
  case (Cons x xs)
  obtain e1 h1 where s: "run_state (step x) h = (e1, h1)" by force
  show ?case
  proof (cases e1)
    case None
    with Cons.prems s have "run_state (for_each step xs) h1 = (e, h')" by simp
    from Cons.IH [OF this] None s step_done [of x h h1] show ?thesis by auto
  next
    case (Some err)
    with Cons.prems s step_failed [of x h err h1] show ?thesis
      by (auto intro: prefix_prefix)
  qed
qed

end

sublocale exact_step \<subseteq> api_step step "\<lambda>x r. r \<in> set (trace x)"
proof unfold_locales
  fix x h e h'
  assume "run_state (step x) h = (e, h')"
  then show "\<exists>t. h' = h @ t \<and> list_all (\<lambda>r. r \<in> set (trace x)) t"
    using step_done [of x h h'] step_failed [of x h _ h']
    by (cases e) (auto simp: list_all_iff dest: set_mono_prefix)
qed

end
