(* ===== verification/Client_Pods.thy ===== *)
theory Client_Pods
  imports Allocation_All Readiness Kube
begin

text \<open>
  \<open>ReconcileClientPods\<close> of \<open>client_pods.go\<close>: the plan (status, allocation map, spare pods) computed
  from the pods of the cluster, the GC registrations it creates and deletes, and the report to the
  clients.
\<close>

section \<open>The plan\<close>

text \<open>\<open>defaultTime.Unix() == clientStatus.LastSeenAt.Unix()\<close>\<close>

definition isClientConnected :: "clientStatus \<Rightarrow> bool" where
  "isClientConnected clientStatus \<longleftrightarrow> unix defaultTime = unix (clientStatus_LastSeenAt clientStatus)"

text \<open>
  One turn of the loop over the status: a client that left the spec is deleted, the pods of every
  other one enter the allocation map.
\<close>

definition reconcileStatusClient ::
    "iteration \<Rightarrow> (string, bool) gomap \<Rightarrow> string
       \<Rightarrow> (string, clientStatus) gomap \<times> allocationMap \<times> templatePodMap
       \<Rightarrow> ((string, clientStatus) gomap \<times> allocationMap \<times> templatePodMap) option" where
  "reconcileStatusClient ord specClients clientId =
     (\<lambda>(statusClients, allocationMap, templatePodToReutilizeMap).
       case map_of statusClients clientId of
         None \<Rightarrow> Some (statusClients, allocationMap, templatePodToReutilizeMap)
       | Some clientStatus \<Rightarrow>
           if map_of specClients clientId = None
           then Some (map_del clientId statusClients, allocationMap, templatePodToReutilizeMap)
           else do {
             (allocationMap', templatePodToReutilizeMap') \<leftarrow>
               buildAllocationMap ord clientId clientStatus (isClientConnected clientStatus)
                 (allocationMap, templatePodToReutilizeMap);
             Some (statusClients, allocationMap', templatePodToReutilizeMap') })"

text \<open>
  The part of \<open>ReconcileClientPods\<close> between the list of the pods and the GC registrations.  The
  result is the status of the clients, the allocation map, the spare pods and the pods of the
  cluster by template.
\<close>

definition planClientPods ::
    "iteration \<Rightarrow> (string \<Rightarrow> string \<Rightarrow> string) \<Rightarrow> instant \<Rightarrow> session \<Rightarrow> kpod list
       \<Rightarrow> ((string, clientStatus) gomap \<times> allocationMap \<times> templatePodMap \<times> templatePodMap) option" where
  "planClientPods ord newUUID now session clientPods = do {
     let spec = session_Spec session;
     let specClients = entries (spec_Clients spec);
     let statusClients = cleanExpiredClientsFromStatus ord now
       (entries (status_Clients (session_Status session))) (spec_TimeoutSeconds spec);
     let (statusClients, newClients) = handleClientChanges ord now specClients statusClients;
     let allocationMap = initAllocationMap (spec_ClientPodTemplates spec);
     templatePodToReutilizeMap \<leftarrow> templatePodMapping clientPods;
     (statusClients, allocationMap, templatePodToReutilizeMap) \<leftarrow>
       fold_opt (reconcileStatusClient ord specClients)
         (ord RangeStatusClients (map_keys statusClients))
         (statusClients, allocationMap, templatePodToReutilizeMap);
     (allocationMap, templatePodToReutilizeMap, statusClients) \<leftarrow>
       (if newClients \<noteq> [] then do {
          allocationMap \<leftarrow> sortAllocationMap allocationMap;
          Some (allocateClients ord newUUID (session_Name session) newClients
            (allocationMap, templatePodToReutilizeMap, statusClients)) }
        else Some (allocationMap, templatePodToReutilizeMap, statusClients));
     templatePodMap \<leftarrow> templatePodMapping clientPods;
     Some (statusClients, allocationMap, templatePodToReutilizeMap, templatePodMap) }"

section \<open>GC registrations\<close>

definition gcNamespace :: string where
  "gcNamespace = ''mr-telepresence-gc''"

text \<open>The new registration of a pod; the server sets the creation timestamp.\<close>

definition newGCRegistration :: "string \<Rightarrow> string \<Rightarrow> string \<Rightarrow> gcRegistration" where
  "newGCRegistration podName sessionName sessionNamespace =
     \<lparr>gc_Name = podName, gc_Namespace = gcNamespace, gc_CreationTimestamp = zero_time,
      gc_Session = \<lparr>ref_Name = sessionName, ref_Namespace = sessionNamespace\<rparr>,
      gc_Type = Timeout\<rparr>"

definition createGCRegistration ::
    "kube \<Rightarrow> string \<Rightarrow> string \<Rightarrow> string \<Rightarrow> apiError option io" where
  "createGCRegistration K podName sessionName sessionNamespace = do {
     err \<leftarrow> call (CreateNamespace gcNamespace) (\<lambda>h. api_CreateNamespace K h gcNamespace);
     (if err \<noteq> None \<and> err \<noteq> Some AlreadyExists then ret err
      else do {
        let gcRegistration = newGCRegistration podName sessionName sessionNamespace;
        err \<leftarrow> call (CreateGCRegistration gcRegistration)
          (\<lambda>h. api_CreateGCRegistration K h gcRegistration);
        (if err \<noteq> None \<and> err \<noteq> Some AlreadyExists then ret err else ret None) }) }"

definition deleteGCRegistration :: "kube \<Rightarrow> gcRegistration \<Rightarrow> apiError option io" where
  "deleteGCRegistration K gcRegistration = do {
     err \<leftarrow> call (DeleteGCRegistration gcRegistration)
       (\<lambda>h. api_DeleteGCRegistration K h gcRegistration);
     (if err \<noteq> None \<and> err \<noteq> Some NotFound then ret err else ret None) }"

definition gcRegistrationsMap :: "gcRegistration list \<Rightarrow> (string, gcRegistration) gomap" where
  "gcRegistrationsMap gcRegistrations = fold (\<lambda>g. map_put (gc_Name g) g) gcRegistrations []"

text \<open>The bodies of the two inner loops of \<open>manageGCRegistrations\<close>.\<close>

definition registerSparePod ::
    "kube \<Rightarrow> session \<Rightarrow> (string, gcRegistration) gomap \<Rightarrow> kpod \<Rightarrow> apiError option io" where
  "registerSparePod K session registrations pod =
     (if map_of registrations (kpod_Name pod) = None
      then createGCRegistration K (kpod_Name pod) (session_Name session) (session_Namespace session)
      else ret None)"

definition registerAllocatedPod ::
    "kube \<Rightarrow> session \<Rightarrow> (string, gcRegistration) gomap \<Rightarrow> pod \<Rightarrow> apiError option io" where
  "registerAllocatedPod K session registrations pod =
     (case map_of registrations (pod_Name pod) of
        None \<Rightarrow>
          if podIsEmpty pod
          then createGCRegistration K (pod_Name pod) (session_Name session) (session_Namespace session)
          else ret None
      | Some gcRegistration \<Rightarrow>
          if \<not> podIsEmpty pod then deleteGCRegistration K gcRegistration else ret None)"

text \<open>The values of a map in the order of the visit.\<close>

definition map_values :: "('k, 'v) gomap \<Rightarrow> 'k list \<Rightarrow> 'v list" where
  "map_values m ks = List.map_filter (map_of m) ks"

definition manageGCRegistrations ::
    "kube \<Rightarrow> iteration \<Rightarrow> session \<Rightarrow> allocationMap \<Rightarrow> templatePodMap \<Rightarrow> gcRegistration list
       \<Rightarrow> apiError option io" where
  "manageGCRegistrations K ord session allocationMap templatePodToReutilizeMap gcRegistrations = do {
     let registrations = gcRegistrationsMap gcRegistrations;
     err \<leftarrow> for_each (\<lambda>t.
         let pods = map_get_zero [] templatePodToReutilizeMap t
         in for_each (registerSparePod K session registrations)
              (map_values pods (ord (RangeReutilizePods t) (map_keys pods))))
       (ord RangeReutilizeMap (map_keys templatePodToReutilizeMap));
     (case err of
        Some e \<Rightarrow> ret (Some e)
      | None \<Rightarrow>
          for_each (\<lambda>t. for_each (registerAllocatedPod K session registrations)
              (alloc_Pods (map_get_zero zero_allocationValue allocationMap t)))
            (ord RangeAllocationGC (map_keys allocationMap))) }"

section \<open>The operation\<close>

definition with_status_clients :: "(string, clientStatus) gomap \<Rightarrow> session \<Rightarrow> session" where
  "with_status_clients clients session =
     session\<lparr>session_Status := (session_Status session)\<lparr>status_Clients := Some clients\<rparr>\<rparr>"

text \<open>
  The result is the error or the pods to spawn, and the session with its new status; \<open>None\<close> is a
  panic.  The error of \<open>manageGCRegistrations\<close> is dropped, as in the code.
\<close>

definition ReconcileClientPods ::
    "kube \<Rightarrow> iteration \<Rightarrow> (string \<Rightarrow> string \<Rightarrow> string) \<Rightarrow> string \<Rightarrow> session \<Rightarrow> gcRegistration list
       \<Rightarrow> string option \<Rightarrow> ((apiError + kpod list) \<times> session) option io" where
  "ReconcileClientPods K ord newUUID namespace session gcRegistrations ingressServiceExternalIp = do {
     now \<leftarrow> peek (api_Now K);
     let fieldSelector = [(''ownerField'', session_Name session), (''podTypeField'', ''client'')];
     clientPods \<leftarrow> call (ListPods namespace fieldSelector)
       (\<lambda>h. api_ListPods K h namespace fieldSelector);
     (case clientPods of
        Inl err \<Rightarrow> ret (Some (Inl err, session))
      | Inr items \<Rightarrow>
          (case planClientPods ord newUUID now session items of
             None \<Rightarrow> ret None
           | Some (statusClients, allocationMap, templatePodToReutilizeMap, templatePodMap) \<Rightarrow> do {
               _ \<leftarrow> manageGCRegistrations K ord session allocationMap templatePodToReutilizeMap
                 gcRegistrations;
               ret (map_option
                 (\<lambda>(statusClients, podsToSpawn).
                   (Inr podsToSpawn, with_status_clients statusClients session))
                 (reconcilePods ord allocationMap statusClients templatePodMap
                   ingressServiceExternalIp)) })) }"

end
