(* ===== verification/Client_Plan.thy ===== *)
theory Client_Plan
  imports Client_Pods
begin

text \<open>
  What the plan of \<open>ReconcileClientPods\<close> is: after the loop over the status, the seats of the
  allocation map are exactly the pods that the status of the remaining clients names, and the
  spare pods are the pods of the cluster that no status names; the placement of the new clients
  keeps this agreement.
\<close>

section \<open>The loop over the status\<close>

abbreviation seat_of :: "string \<Rightarrow> clientStatus \<Rightarrow> podClient" where
  "seat_of c v \<equiv> \<lparr>podClient_Id = c, podClient_Connected = isClientConnected v\<rparr>"

text \<open>The pods that the status of a client names, if the client is in the spec.\<close>

definition named_pods ::
    "(string, bool) gomap \<Rightarrow> (string, clientStatus) gomap \<Rightarrow> string \<Rightarrow> (string \<times> podClient) set" where
  "named_pods spec st c = {(n, seat_of c v) | n v. map_of spec c \<noteq> None \<and> map_of st c = Some v \<and>
     n \<in> dom (map_of (clientStatus_PodStatus v))}"

definition named_all ::
    "(string, bool) gomap \<Rightarrow> (string, clientStatus) gomap \<Rightarrow> string set \<Rightarrow> (string \<times> podClient) set" where
  "named_all spec st C = (\<Union>c \<in> C. named_pods spec st c)"

definition used ::
    "(string, bool) gomap \<Rightarrow> (string, clientStatus) gomap \<Rightarrow> string set \<Rightarrow> string set" where
  "used spec st C = fst ` named_all spec st C"

lemma named_all_union: "named_all spec st (A \<union> B) = named_all spec st A \<union> named_all spec st B"
  by (auto simp: named_all_def)

lemma used_union: "used spec st (A \<union> B) = used spec st A \<union> used spec st B"
  by (simp add: used_def named_all_union image_Un)

lemma named_all_cong: "(\<And>c. c \<in> C \<Longrightarrow> map_of st c = map_of st' c) \<Longrightarrow>
    named_all spec st C = named_all spec st' C"
  by (auto simp: named_all_def named_pods_def)

lemma named_all_present:
  assumes "map_of st c = Some v" and "map_of spec c \<noteq> None"
  shows "named_all spec st {c} = (\<lambda>n. (n, seat_of c v)) ` dom (map_of (clientStatus_PodStatus v))"
    and "used spec st {c} = dom (map_of (clientStatus_PodStatus v))"
proof -
  show "named_all spec st {c} = (\<lambda>n. (n, seat_of c v)) ` dom (map_of (clientStatus_PodStatus v))"
    using assms by (auto simp: named_all_def named_pods_def)
  then show "used spec st {c} = dom (map_of (clientStatus_PodStatus v))"
    by (simp add: used_def image_image)
qed

lemma named_all_absent:
  assumes "map_of st c = None \<or> map_of spec c = None"
  shows "named_all spec st {c} = {}" and "used spec st {c} = {}"
  using assms by (auto simp: named_all_def named_pods_def used_def)

text \<open>What the loop has done after the clients \<open>C\<close>, started from \<open>(st, am, ru)\<close>.\<close>

definition status_rel ::
    "(string, bool) gomap \<Rightarrow> string set
       \<Rightarrow> (string, clientStatus) gomap \<Rightarrow> allocationMap \<Rightarrow> templatePodMap
       \<Rightarrow> (string, clientStatus) gomap \<Rightarrow> allocationMap \<Rightarrow> templatePodMap \<Rightarrow> bool" where
  "status_rel spec C st am ru st' am' ru' \<longleftrightarrow>
     (\<forall>c. map_of st' c = (if c \<in> C \<and> map_of spec c = None then None else map_of st c)) \<and>
     seats am' = seats am \<union> named_all spec st C \<and>
     (pods_inv am ru \<longrightarrow> pods_inv am' ru') \<and>
     (\<forall>t. spare ru' t = spare ru t - {n \<in> used spec st C. templateNameOf n = Some t}) \<and>
     (map_ok am \<longrightarrow> map_ok am') \<and> (map_ok st \<longrightarrow> map_ok st') \<and>
     dom (map_of am') = dom (map_of am) \<union> {t. \<exists>n \<in> used spec st C. templateNameOf n = Some t} \<and>
     (\<forall>t. template_of am' t = template_of am t) \<and> (home am \<longrightarrow> home am') \<and>
     (\<forall>tm. spare_exact tm am ru \<longrightarrow> spare_exact tm am' ru')"

lemma reconcileStatusClient_rel:
  assumes "permutes_keys ord"
    and "reconcileStatusClient ord spec c (st, am, ru) = Some (st', am', ru')"
  shows "status_rel spec {c} st am ru st' am' ru'"
proof (cases "map_of st c = None \<or> map_of spec c = None")
  case True
  with assms(2) named_all_absent [OF True] show ?thesis
    by (auto simp: status_rel_def reconcileStatusClient_def split: option.splits if_splits)
next
  case False
  then obtain v where v: "map_of st c = Some v" "map_of spec c \<noteq> None" by (cases "map_of st c") auto
  with assms(2) have b: "buildAllocationMap ord c v (isClientConnected v) (am, ru) = Some (am', ru')"
    and st': "st' = st"
    by (auto simp: reconcileStatusClient_def split: Option.bind_splits)
  from buildAllocationMap_rel [OF assms(1) b] v(2) show ?thesis
    unfolding status_rel_def build_rel_def st' named_all_present [OF v] fst_conv snd_conv by auto
qed

lemma status_rel_trans:
  assumes "status_rel spec A st am ru st1 am1 ru1" and "status_rel spec B st1 am1 ru1 st2 am2 ru2"
    and "A \<inter> B = {}"
  shows "status_rel spec (A \<union> B) st am ru st2 am2 ru2"
proof -
  have "map_of st1 c = map_of st c" if "c \<in> B" for c
    using assms(1,3) that by (auto simp: status_rel_def)
  then have np: "named_all spec st1 B = named_all spec st B"
    by (rule named_all_cong)
  then have us: "used spec st1 B = used spec st B" by (simp add: used_def)
  show ?thesis unfolding status_rel_def named_all_union used_union
  proof (intro conjI allI)
    show "seats am2 = seats am \<union> (named_all spec st A \<union> named_all spec st B)"
      using assms(1,2) by (auto simp: status_rel_def np)
    show "spare ru2 t = spare ru t - {n \<in> used spec st A \<union> used spec st B. templateNameOf n = Some t}" for t
      using assms(1,2) by (auto simp: status_rel_def us)
    show "dom (map_of am2) = dom (map_of am) \<union>
        {t. \<exists>n \<in> used spec st A \<union> used spec st B. templateNameOf n = Some t}"
      using assms(1,2) by (auto simp: status_rel_def us)
  qed (use assms(1,2) in \<open>simp_all add: status_rel_def\<close>)
qed

lemma status_loop_rel:
  assumes "permutes_keys ord" and "distinct cs"
    and "fold_opt (reconcileStatusClient ord spec) cs (st, am, ru) = Some (st', am', ru')"
  shows "status_rel spec (set cs) st am ru st' am' ru'"
  using assms(2,3)
proof (induction cs arbitrary: st am ru)
  case Nil
  then show ?case by (simp add: status_rel_def named_all_def used_def)
next
  case (Cons c cs)
  then obtain st1 am1 ru1 where m1: "reconcileStatusClient ord spec c (st, am, ru) = Some (st1, am1, ru1)"
      "fold_opt (reconcileStatusClient ord spec) cs (st1, am1, ru1) = Some (st', am', ru')"
    by (auto split: Option.bind_splits)
  have "distinct cs" "{c} \<inter> set cs = {}" using Cons.prems(1) by auto
  from status_rel_trans [OF reconcileStatusClient_rel [OF assms(1) m1(1)] Cons.IH [OF this(1) m1(2)] this(2)]
  show ?case by simp
qed

section \<open>The agreement of the status and the allocation map\<close>

definition agree :: "(string, clientStatus) gomap \<Rightarrow> allocationMap \<Rightarrow> bool" where
  "agree st am \<longleftrightarrow> seats am = {(n, seat_of c v) | n c v. map_of st c = Some v \<and>
     n \<in> dom (map_of (clientStatus_PodStatus v))}"

text \<open>The two halves of the plan, cut where the allocation of the new clients begins.\<close>

definition planStatus ::
    "iteration \<Rightarrow> instant \<Rightarrow> session \<Rightarrow> (string, clientStatus) gomap \<times> string list" where
  "planStatus ord now session = handleClientChanges ord now (entries (spec_Clients (session_Spec session)))
     (cleanExpiredClientsFromStatus ord now (entries (status_Clients (session_Status session)))
       (spec_TimeoutSeconds (session_Spec session)))"

lemma planClientPods_split:
  assumes "planClientPods ord newUUID now session items = Some (st, am, ru, tm)"
  obtains st1 new st2 am2 ru2 where
    "planStatus ord now session = (st1, new)" "templatePodMapping items = Some tm"
    "fold_opt (reconcileStatusClient ord (entries (spec_Clients (session_Spec session))))
       (ord RangeStatusClients (map_keys st1))
       (st1, initAllocationMap (spec_ClientPodTemplates (session_Spec session)), tm) = Some (st2, am2, ru2)"
    "new = [] \<and> st = st2 \<and> am = am2 \<and> ru = ru2 \<or>
     new \<noteq> [] \<and> (\<exists>am3. sortAllocationMap am2 = Some am3 \<and>
       allocateClients ord newUUID (session_Name session) new (am3, ru2, st2) = (am, ru, st))"
proof -
  obtain st1 new where s: "planStatus ord now session = (st1, new)" by force
  from assms obtain st2 am2 ru2 where
    "templatePodMapping items = Some tm"
    "fold_opt (reconcileStatusClient ord (entries (spec_Clients (session_Spec session))))
       (ord RangeStatusClients (map_keys st1))
       (st1, initAllocationMap (spec_ClientPodTemplates (session_Spec session)), tm) = Some (st2, am2, ru2)"
    "new = [] \<and> st = st2 \<and> am = am2 \<and> ru = ru2 \<or>
     new \<noteq> [] \<and> (\<exists>am3. sortAllocationMap am2 = Some am3 \<and>
       allocateClients ord newUUID (session_Name session) new (am3, ru2, st2) = (am, ru, st))"
    by (auto simp: planClientPods_def s [unfolded planStatus_def] Let_def
        split: Option.bind_splits if_splits prod.splits)
  with s that show thesis by blast
qed

text \<open>Well-formed maps: what every Go map is, stated for the maps of a session.\<close>

definition session_maps_ok :: "session \<Rightarrow> bool" where
  "session_maps_ok session \<longleftrightarrow> map_ok (entries (spec_Clients (session_Spec session))) \<and>
     map_ok (entries (status_Clients (session_Status session)))"

lemma next_presence:
  assumes "unix now \<noteq> unix defaultTime"
    and "clean = (case st of None \<Rightarrow> None
      | Some v \<Rightarrow> if clientHasExpired now (clientStatus_LastSeenAt v) ts then None else Some v)"
    and "b \<Longrightarrow> clean \<noteq> None"
  shows "presence_of (map_option (changed_status now b) clean) = client_next now ts (Some b) (presence_of st)"
proof (cases st)
  case None
  with assms(2,3) show ?thesis by (cases b) simp_all
next
  case (Some v)
  show ?thesis
  proof (cases "clientHasExpired now (clientStatus_LastSeenAt v) ts")
    case True
    with Some assms(2,3) show ?thesis
      by (cases b) (auto simp: clientHasExpired_expire split: if_splits)
  next
    case False
    with Some assms(1,2) show ?thesis
      by (cases b) (auto simp: changed_status_def clientHasExpired_def split: if_splits)
  qed
qed

lemma planStatus_spec:
  assumes "permutes_keys ord" and "session_maps_ok session" and "planStatus ord now session = (st1, new)"
  defines "spec \<equiv> map_of (entries (spec_Clients (session_Spec session)))"
    and "ts \<equiv> spec_TimeoutSeconds (session_Spec session)"
    and "st0 \<equiv> map_of (entries (status_Clients (session_Status session)))"
  shows "map_ok st1"
    and "unix now \<noteq> unix defaultTime \<Longrightarrow> spec c \<noteq> None \<Longrightarrow> c \<notin> set new \<Longrightarrow>
      presence_of (map_of st1 c) = client_next now ts (spec c) (presence_of (st0 c))"
    and "distinct new"
    and "c \<in> set new \<longleftrightarrow> spec c = Some True \<and> map_of st1 c = None"
    and "map_of st1 c = Some v \<Longrightarrow> \<exists>w. st0 c = Some w \<and>
      clientStatus_PodStatus v = clientStatus_PodStatus w \<and> clientStatus_Ready v = clientStatus_Ready w"
proof -
  let ?clean = "cleanExpiredClientsFromStatus ord now (entries (status_Clients (session_Status session))) ts"
  have ok: "map_ok (entries (spec_Clients (session_Spec session)))"
      "map_ok (entries (status_Clients (session_Status session)))"
    using assms(2) by (auto simp: session_maps_ok_def)
  have h: "handleClientChanges ord now (entries (spec_Clients (session_Spec session))) ?clean = (st1, new)"
    using assms(3) by (simp add: planStatus_def ts_def)
  note clean = map_of_cleanExpired [OF assms(1) ok(2), of now ts, folded st0_def]
  note st1 = handleClientChanges_spec(1) [OF assms(1) ok(1) h, folded spec_def]
  note new = handleClientChanges_spec(2) [OF assms(1) ok(1) h]
  show "map_ok st1" using map_ok_handleClientChanges [OF _ h] ok(2) by simp
  show "distinct new" using new ok(1) assms(1) by (simp add: go_order_simps map_ok_keys)
  have mem: "c \<in> set new \<longleftrightarrow> spec c = Some True \<and> map_of ?clean c = None"
    using assms(1) by (auto simp: new go_order_simps is_new_client_def spec_def)
  moreover have "map_of st1 c = None \<longleftrightarrow> map_of ?clean c = None"
    by (auto simp: st1 split: option.splits)
  ultimately show "c \<in> set new \<longleftrightarrow> spec c = Some True \<and> map_of st1 c = None" by simp
  show "\<exists>w. st0 c = Some w \<and> clientStatus_PodStatus v = clientStatus_PodStatus w \<and>
      clientStatus_Ready v = clientStatus_Ready w" if "map_of st1 c = Some v"
    using that by (auto simp: st1 clean changed_status_def split: option.splits if_splits)
  show "presence_of (map_of st1 c) = client_next now ts (spec c) (presence_of (st0 c))"
    if prem: "unix now \<noteq> unix defaultTime" "spec c \<noteq> None" "c \<notin> set new"
  proof -
    obtain b where b: "spec c = Some b" using prem(2) by auto
    have "map_of ?clean c \<noteq> None" if b using prem(3) mem that b by auto
    from next_presence [OF prem(1) fun_cong [OF clean] this] b show ?thesis by (simp add: st1)
  qed
qed

section \<open>The whole plan\<close>

lemma agree_status_loop:
  assumes "status_rel spec C st am ru st' am' ru'" and "seats am = {}" and "dom (map_of st) \<subseteq> C"
  shows "agree st' am'"
proof -
  have "map_of st' c = (if map_of spec c = None then None else map_of st c)" for c
    using assms(1,3) by (cases "c \<in> C") (auto simp: status_rel_def domIff)
  then have "named_all spec st C = {(n, seat_of c v) | n c v. map_of st' c = Some v \<and>
     n \<in> dom (map_of (clientStatus_PodStatus v))}"
    using assms(3) by (auto simp: named_all_def named_pods_def)
  then show ?thesis using assms(1,2) by (simp add: agree_def status_rel_def)
qed

lemma seats_sort:
  assumes "sortAllocationMap am = Some am'"
  shows "mset (pods_of am' t) = mset (pods_of am t) \<and> template_of am' t = template_of am t"
proof (cases "map_of am t")
  case None
  then have "map_of am' t = None" using sortAllocationMap_lookup(2) [OF assms, of t] by simp
  with None show ?thesis by simp
next
  case (Some v)
  have "t \<in> set (map_keys am')" using sortAllocationMap_lookup(1) [OF assms] Some by auto
  then obtain v' where v': "map_of am' t = Some v'" by auto
  with sortAllocationMap_lookup(2) [OF assms, of t] Some obtain ps where
    ps: "sort_slice podBefore (alloc_Pods v) = Some ps" "v' = v\<lparr>alloc_Pods := ps\<rparr>"
    by (cases "sort_slice podBefore (alloc_Pods v)") auto
  from ps(1) have "mset ps = mset (alloc_Pods v)" by (rule sort_slice_mset)
  with Some v' ps(2) show ?thesis by simp
qed

lemma new_seats:
  assumes new: "\<forall>c \<in> N. \<exists>v. map_of st c = Some v \<and> new_client_status (f c ` D) v"
  shows "(\<Union>t \<in> D. (\<lambda>c. (f c t, connected c)) ` N) =
    {(n, seat_of c v) | n c v. c \<in> N \<and> map_of st c = Some v \<and> n \<in> dom (map_of (clientStatus_PodStatus v))}"
    (is "?L = ?R")
proof -
  have v: "isClientConnected v \<and> dom (map_of (clientStatus_PodStatus v)) = f c ` D"
    if "c \<in> N" "map_of st c = Some v" for c v
  proof -
    from new that have "new_client_status (f c ` D) v" by force
    then show ?thesis by (simp add: new_client_status_def isClientConnected_def)
  qed
  show ?thesis
  proof (intro set_eqI iffI)
    fix x
    assume "x \<in> ?L"
    then obtain t c where x: "t \<in> D" "c \<in> N" "x = (f c t, connected c)" by blast
    then obtain w where "map_of st c = Some w" using new by blast
    with x v [OF x(2) this] show "x \<in> ?R" by auto
  next
    fix x
    assume "x \<in> ?R"
    then obtain n c w where x: "x = (n, seat_of c w)" "c \<in> N" "map_of st c = Some w"
      "n \<in> dom (map_of (clientStatus_PodStatus w))" by blast
    with v [OF x(2,3)] show "x \<in> ?L" by auto
  qed
qed

lemma agree_allocate:
  assumes "permutes_keys ord" and "map_ok am" and "distinct new" and "agree st am"
    and "\<forall>c \<in> set new. map_of st c = None"
    and "allocateClients ord u s new (am, ru, st) = (am', ru', st')"
  shows "agree st' am'"
proof -
  from allocateClients_seats [OF assms(1-3,6)] obtain f where f:
    "\<forall>t. seats_in (pods_of am' t) = seats_in (pods_of am t) \<union>
        (if t \<in> dom (map_of am) then (\<lambda>c. (f c t, connected c)) ` set new else {})"
    "\<forall>c. c \<notin> set new \<longrightarrow> map_of st' c = map_of st c"
    "\<forall>c \<in> set new. \<exists>v. map_of st' c = Some v \<and> new_client_status (f c ` dom (map_of am)) v" by blast
  let ?N = "{(n, seat_of c v) | n c v. c \<in> set new \<and> map_of st' c = Some v \<and>
     n \<in> dom (map_of (clientStatus_PodStatus v))}"
  have "seats am' = seats am \<union> (\<Union>t \<in> dom (map_of am). (\<lambda>c. (f c t, connected c)) ` set new)"
  proof -
    have "seats am' = (\<Union>t. seats_in (pods_of am t) \<union>
        (if t \<in> dom (map_of am) then (\<lambda>c. (f c t, connected c)) ` set new else {}))"
      unfolding seats_def f(1) [rule_format] ..
    also have "\<dots> = seats am \<union> (\<Union>t \<in> dom (map_of am). (\<lambda>c. (f c t, connected c)) ` set new)"
      unfolding seats_def UN_Un_distrib by (intro arg_cong2 [where f = "(\<union>)"] refl) (auto split: if_splits)
    finally show ?thesis .
  qed
  also have "(\<Union>t \<in> dom (map_of am). (\<lambda>c. (f c t, connected c)) ` set new) = ?N"
    using f(3) by (rule new_seats)
  also have "seats am = {(n, seat_of c v) | n c v. c \<notin> set new \<and> map_of st' c = Some v \<and>
     n \<in> dom (map_of (clientStatus_PodStatus v))}"
  proof -
    have "map_of st c = Some v \<longleftrightarrow> c \<notin> set new \<and> map_of st' c = Some v" for c v
      using assms(5) f(2) by (cases "c \<in> set new") auto
    then show ?thesis using assms(4) by (simp add: agree_def)
  qed
  finally show ?thesis unfolding agree_def by blast
qed

end
