(* ===== verification/Client_Invariants.thy ===== *)
theory Client_Invariants
  imports Client_Plan
begin

text \<open>
  The invariants of the plan of \<open>ReconcileClientPods\<close> as a whole, from the session and the pods
  of the cluster to the allocation map that the rest of the function uses.
\<close>

section \<open>Spare pods are pods of the cluster\<close>

text \<open>The first map has fewer entries than the second.\<close>

definition sub_pods :: "templatePodMap \<Rightarrow> templatePodMap \<Rightarrow> bool" where
  "sub_pods ru' ru \<longleftrightarrow> (\<forall>t n p. map_of (map_get_zero [] ru' t) n = Some p \<longrightarrow>
     map_of (map_get_zero [] ru t) n = Some p)"

lemma sub_pods_refl [simp]: "sub_pods ru ru"
  by (simp add: sub_pods_def)

lemma sub_pods_trans: "sub_pods a b \<Longrightarrow> sub_pods b c \<Longrightarrow> sub_pods a c"
  by (simp add: sub_pods_def)

lemma sub_pods_delete [simp]: "sub_pods (deletePodName t n ru) ru"
  by (auto simp: sub_pods_def deletePodName_def split: option.splits if_splits)

lemma sub_pods_build:
  assumes "fold_opt (buildAllocationPod c) ns (am, ru) = Some (am', ru')"
  shows "sub_pods ru' ru"
proof -
  have "sub_pods (snd (am', ru')) ru"
    using assms
  proof (rule fold_opt_invariant [where P = "\<lambda>m. sub_pods (snd m) ru"])
    fix n and m m' :: "allocationMap \<times> templatePodMap"
    assume *: "sub_pods (snd m) ru" and step: "buildAllocationPod c n m = Some m'"
    obtain am ru1 where m: "m = (am, ru1)" by (metis prod.exhaust)
    obtain am' ru2 where m': "m' = (am', ru2)" by (metis prod.exhaust)
    from step obtain t where "ru2 = deletePodName t n ru1"
      unfolding m m' by (auto simp: buildAllocationPod_def Let_def split: Option.bind_splits prod.splits)
    then have "sub_pods ru2 ru1" by simp
    with * show "sub_pods (snd m') ru" unfolding m m' by (auto intro: sub_pods_trans)
  qed simp
  then show ?thesis by simp
qed

lemma sub_pods_status_loop:
  assumes "fold_opt (reconcileStatusClient ord spec) cs (st, am, ru) = Some (st', am', ru')"
  shows "sub_pods ru' ru"
proof -
  have "sub_pods (snd (snd (st', am', ru'))) ru"
    using assms
  proof (rule fold_opt_invariant [where P = "\<lambda>m. sub_pods (snd (snd m)) ru"])
    fix c m m'
    assume "sub_pods (snd (snd m)) ru" and step: "reconcileStatusClient ord spec c m = Some m'"
    obtain st am ru1 where m: "m = (st, am, ru1)" by (metis prod.exhaust)
    obtain st' am' ru2 where m': "m' = (st', am', ru2)" by (metis prod.exhaust)
    have "sub_pods ru2 ru1" using step unfolding m m'
      by (auto simp: reconcileStatusClient_def buildAllocationMap_def
          split: option.splits if_splits Option.bind_splits intro: sub_pods_build)
    with \<open>sub_pods (snd (snd m)) ru\<close> show "sub_pods (snd (snd m')) ru"
      by (auto simp: m m' intro: sub_pods_trans)
  qed simp
  then show ?thesis by simp
qed

lemma sub_pods_template:
  assumes "allocateClientToTemplate ord u s c t (am, ru, pods) = (am', ru', pods')"
  shows "sub_pods ru' ru"
  using assms by (auto simp: allocateClientToTemplate_def Let_def split: if_splits)

lemma sub_pods_client:
  assumes "allocateClient ord u s c (am, ru, st) = (am', ru', st')"
  shows "sub_pods ru' ru"
proof -
  have "sub_pods (fst (snd (fold (allocateClientToTemplate ord u s c) ts (am, ru, [])))) ru" for ts
  proof (rule fold_invariant_set [where P = "\<lambda>m. sub_pods (fst (snd m)) ru"])
    fix t and m :: "allocationMap \<times> templatePodMap \<times> (string, podStatus) gomap"
    assume *: "sub_pods (fst (snd m)) ru"
    obtain am1 ru1 p1 where m: "m = (am1, ru1, p1)" by (metis prod.exhaust)
    obtain am2 ru2 p2 where s: "allocateClientToTemplate ord u s c t m = (am2, ru2, p2)" by (metis prod.exhaust)
    from sub_pods_template [OF s [unfolded m]] * show
      "sub_pods (fst (snd (allocateClientToTemplate ord u s c t m))) ru"
      unfolding s by (auto simp: m intro: sub_pods_trans)
  qed simp
  from this [of "ord (RangeAllocation c) (map_keys am)"] assms show ?thesis
    by (auto simp: allocateClient_def split: prod.splits)
qed

lemma sub_pods_allocate:
  assumes "allocateClients ord u s cs (am, ru, st) = (am', ru', st')"
  shows "sub_pods ru' ru"
  using assms
proof (induction cs arbitrary: am ru st)
  case Nil
  then show ?case by (simp add: allocateClients_def)
next
  case (Cons c cs)
  obtain am1 ru1 st1 where s: "allocateClient ord u s c (am, ru, st) = (am1, ru1, st1)" by (metis prod.exhaust)
  with Cons.prems have "allocateClients ord u s cs (am1, ru1, st1) = (am', ru', st')"
    by (simp add: allocateClients_def)
  from Cons.IH [OF this] sub_pods_client [OF s] show ?case by (rule sub_pods_trans)
qed

section \<open>Sorting keeps the invariants\<close>

lemma sort_names:
  assumes "sortAllocationMap am = Some am'"
  shows "mset (pod_names am' t) = mset (pod_names am t)"
  using seats_sort [OF assms, of t] by (simp add: pod_names_def)

lemma sort_sets:
  assumes "sortAllocationMap am = Some am'"
  shows "set (pod_names am' t) = set (pod_names am t)" "set (pods_of am' t) = set (pods_of am t)"
    "distinct (pod_names am' t) = distinct (pod_names am t)" "seats am' = seats am"
    "template_of am' t = template_of am t" "map_ok am' = map_ok am"
    "dom (map_of am') = dom (map_of am)"
proof -
  show "set (pod_names am' t) = set (pod_names am t)"
    using sort_names [OF assms] mset_eq_setD by metis
  show "set (pods_of am' t) = set (pods_of am t)" and "template_of am' t = template_of am t"
    using seats_sort [OF assms] mset_eq_setD by (metis, metis)
  show "distinct (pod_names am' t) = distinct (pod_names am t)"
    using sort_names [OF assms] mset_eq_imp_distinct_iff by metis
  show "seats am' = seats am" unfolding seats_def
    using seats_sort [OF assms] seats_in_mset by (metis (no_types))
  show "map_ok am' = map_ok am"
    using sortAllocationMap_lookup(1) [OF assms] by (simp add: map_ok_def)
  show "dom (map_of am') = dom (map_of am)"
    using sortAllocationMap_lookup(1) [OF assms] set_map_keys by metis
qed

section \<open>The allocation map when the new clients are placed\<close>

text \<open>
  The names of the pods in the status of a session, and the freshness of the names to be created:
  the UUIDs differ on the clients of the spec and give names that neither the cluster nor the
  status has.
\<close>

definition status_pod_names :: "session \<Rightarrow> string set" where
  "status_pod_names session = {n. \<exists>c v. map_of (entries (status_Clients (session_Status session))) c = Some v \<and>
     n \<in> dom (map_of (clientStatus_PodStatus v))}"

definition uuid_fresh :: "(string \<Rightarrow> string \<Rightarrow> string) \<Rightarrow> session \<Rightarrow> kpod list \<Rightarrow> bool" where
  "uuid_fresh u session items \<longleftrightarrow> (\<forall>t.
     inj_on (\<lambda>c. newPodName (session_Name session) t (u c t))
       (dom (map_of (entries (spec_Clients (session_Spec session))))) \<and>
     (\<forall>c \<in> dom (map_of (entries (spec_Clients (session_Spec session)))).
        newPodName (session_Name session) t (u c t) \<notin> kpod_Name ` set items \<union> status_pod_names session))"

text \<open>What holds before the new clients are placed, sorted or not.\<close>

definition plan_middle ::
    "session \<Rightarrow> string list \<Rightarrow> templatePodMap \<Rightarrow> (string, clientStatus) gomap \<Rightarrow> allocationMap
       \<Rightarrow> templatePodMap \<Rightarrow> bool" where
  "plan_middle session new tm st am ru \<longleftrightarrow> agree st am \<and> pods_inv am ru \<and> home am \<and>
     spare_exact tm am ru \<and> map_ok am \<and> map_ok st \<and> (\<forall>c \<in> set new. map_of st c = None) \<and>
     fst ` seats am \<subseteq> status_pod_names session \<and> sub_pods ru tm \<and>
     (\<forall>t. template_of am t =
        template_of (initAllocationMap (spec_ClientPodTemplates (session_Spec session))) t) \<and>
     template_Name ` set (spec_ClientPodTemplates (session_Spec session)) \<subseteq> dom (map_of am) \<and>
     dom (map_of am) \<subseteq> template_Name ` set (spec_ClientPodTemplates (session_Spec session)) \<union>
       {t. \<exists>n \<in> status_pod_names session. templateNameOf n = Some t}"

lemma plan_middle_sort:
  assumes "plan_middle session new tm st am ru" and s: "sortAllocationMap am = Some am'"
  shows "plan_middle session new tm st am' ru"
  using assms(1) unfolding plan_middle_def agree_def pods_inv_def home_def spare_exact_def sort_sets [OF s] .

lemma plan_middle_status:
  assumes ord: "permutes_keys ord" and ok: "session_maps_ok session"
    and ps: "planStatus ord now session = (st1, new)" and tm: "templatePodMapping items = Some tm"
    and loop: "fold_opt (reconcileStatusClient ord (entries (spec_Clients (session_Spec session))))
       (ord RangeStatusClients (map_keys st1))
       (st1, initAllocationMap (spec_ClientPodTemplates (session_Spec session)), tm) = Some (st2, am2, ru2)"
  shows "plan_middle session new tm st2 am2 ru2"
    and "map_of st2 c = (if map_of (entries (spec_Clients (session_Spec session))) c = None then None
      else map_of st1 c)"
proof -
  let ?spec = "entries (spec_Clients (session_Spec session))"
  let ?cs = "ord RangeStatusClients (map_keys st1)"
  note st1 = planStatus_spec [OF ord ok ps]
  have cs: "set ?cs = dom (map_of st1)" "distinct ?cs"
    using ord st1(1) by (auto simp: go_order_simps map_ok_keys)
  note rel = status_loop_rel [OF ord cs(2) loop, unfolded cs(1)]
  show st2: "map_of st2 c = (if map_of ?spec c = None then None else map_of st1 c)" for c
    using rel by (cases "c \<in> dom (map_of st1)") (auto simp: status_rel_def domIff)
  have "named_all ?spec st1 (dom (map_of st1)) \<subseteq> {(n, x). n \<in> status_pod_names session}"
    using st1(5) by (fastforce simp: named_all_def named_pods_def status_pod_names_def)
  moreover have "used ?spec st1 (dom (map_of st1)) \<subseteq> status_pod_names session"
    using calculation by (auto simp: used_def)
  moreover have "dom (map_of am2) = template_Name ` set (spec_ClientPodTemplates (session_Spec session)) \<union>
      {t. \<exists>n \<in> used ?spec st1 (dom (map_of st1)). templateNameOf n = Some t}"
    using rel initAllocationMap_pods unfolding status_rel_def by simp
  ultimately have doms: "dom (map_of am2) \<subseteq> template_Name ` set (spec_ClientPodTemplates (session_Spec session)) \<union>
       {t. \<exists>n \<in> status_pod_names session. templateNameOf n = Some t}" by blast
  have "named_all ?spec st1 (dom (map_of st1)) \<subseteq> {(n, x). n \<in> status_pod_names session}"
    using st1(5) by (fastforce simp: named_all_def named_pods_def status_pod_names_def)
  moreover have "\<forall>c \<in> set new. map_of st2 c = None" using st1(4) st2 by simp
  moreover have "agree st2 am2"
    using rel by (rule agree_status_loop) simp_all
  moreover have "pods_inv am2 ru2" "home am2" "spare_exact tm am2 ru2" "map_ok am2" "map_ok st2"
    using rel st1(1) initAllocationMap_pods unfolding status_rel_def by auto
  moreover have "seats am2 = named_all ?spec st1 (dom (map_of st1))"
    and "template_Name ` set (spec_ClientPodTemplates (session_Spec session)) \<subseteq> dom (map_of am2)"
    and "\<forall>t. template_of am2 t =
        template_of (initAllocationMap (spec_ClientPodTemplates (session_Spec session))) t"
    using rel initAllocationMap_pods unfolding status_rel_def by auto
  ultimately show "plan_middle session new tm st2 am2 ru2"
    unfolding plan_middle_def using sub_pods_status_loop [OF loop] doms by force
qed

lemma names_in_seats:
  assumes "pods_inv am ru"
  shows "set (pod_names am t) \<subseteq> fst ` seats am"
proof
  fix n
  assume "n \<in> set (pod_names am t)"
  then obtain p where p: "p \<in> set (pods_of am t)" "n = pod_Name p" by (auto simp: pod_names_def)
  then obtain c where "c \<in> set (pod_Clients p)"
    using assms by (metis pods_inv_def list.set_intros(1) neq_Nil_conv)
  with p have "(n, c) \<in> seats am" by (auto simp: seats_def seats_in_def)
  then show "n \<in> fst ` seats am" by force
qed

lemma plan_fresh_names:
  assumes "plan_middle session new tm st am ru" and "templatePodMapping items = Some tm"
    and "uuid_fresh u session items" and "distinct new"
    and "set new \<subseteq> dom (map_of (entries (spec_Clients (session_Spec session))))"
  shows "fresh_names u (session_Name session) new am ru"
  unfolding fresh_names_def
proof (intro allI conjI ballI)
  fix t c
  show "distinct (map (\<lambda>c. newPodName (session_Name session) t (u c t)) new)"
  proof -
    have "inj_on (\<lambda>c. newPodName (session_Name session) t (u c t)) (set new)"
      using assms(3,5) unfolding uuid_fresh_def by (metis inj_on_subset)
    with assms(4) show ?thesis by (simp add: distinct_map)
  qed
  have "set (pod_names am t) \<subseteq> status_pod_names session"
  proof -
    have "pods_inv am ru" and "fst ` seats am \<subseteq> status_pod_names session"
      using assms(1) unfolding plan_middle_def by blast+
    from subset_trans [OF names_in_seats [OF this(1)] this(2)] show ?thesis .
  qed
  moreover have "spare ru t \<subseteq> kpod_Name ` set items"
  proof -
    have "spare_exact tm am ru" using assms(1) unfolding plan_middle_def by blast
    then have "spare ru t \<subseteq> spare tm t" by (simp add: spare_exact_def)
    then show ?thesis unfolding spare_templatePodMapping [OF assms(2)] by blast
  qed
  moreover assume "c \<in> set new"
  then have "c \<in> dom (map_of (entries (spec_Clients (session_Spec session))))"
    using assms(5) by blast
  then have "newPodName (session_Name session) t (u c t) \<notin> kpod_Name ` set items \<union> status_pod_names session"
    using assms(3) unfolding uuid_fresh_def by blast
  ultimately show "newPodName (session_Name session) t (u c t) \<notin> set (pod_names am t) \<union> spare ru t"
    by blast
qed

end
