(* ===== verification/Client_Results.thy ===== *)
theory Client_Results
  imports Client_Invariants
begin

text \<open>
  What \<open>ReconcileClientPods\<close> computes: the allocation map and the status at the end of the plan, the
  readiness that the loop over the allocation map reports to every client, and the pods it asks
  for.
\<close>

section \<open>The end of the plan\<close>

text \<open>The names of a session and of its templates that the names of the pods can be split into.\<close>

definition names_split :: "session \<Rightarrow> bool" where
  "names_split session \<longleftrightarrow> count_list (session_Name session) (CHR ''-'') = 1 \<and>
     (\<forall>t \<in> template_Name ` set (spec_ClientPodTemplates (session_Spec session)). CHR ''-'' \<notin> set t)"

text \<open>Every pod in the status belongs to a template of the spec.\<close>

definition pods_of_templates :: "session \<Rightarrow> bool" where
  "pods_of_templates session \<longleftrightarrow> (\<forall>n \<in> status_pod_names session. \<forall>t. templateNameOf n = Some t \<longrightarrow>
     t \<in> template_Name ` set (spec_ClientPodTemplates (session_Spec session)))"

text \<open>Every entry of the allocation map is under the name of its template.\<close>

definition template_keys :: "allocationMap \<Rightarrow> bool" where
  "template_keys am \<longleftrightarrow> (\<forall>t v. map_of am t = Some v \<longrightarrow> template_Name (alloc_PodTemplate v) = t)"

definition plan_end ::
    "session \<Rightarrow> templatePodMap \<Rightarrow> (string, clientStatus) gomap \<Rightarrow> allocationMap \<Rightarrow> templatePodMap \<Rightarrow> bool" where
  "plan_end session tm st am ru \<longleftrightarrow> agree st am \<and> pods_inv am ru \<and> spare_exact tm am ru \<and>
     map_ok am \<and> sub_pods ru tm"

lemma plan_end_client_pods:
  assumes ord: "permutes_keys ord" and ok: "session_maps_ok session"
    and fresh: "uuid_fresh u session items"
    and plan: "planClientPods ord u now session items = Some (st, am, ru, tm)"
  shows "plan_end session tm st am ru"
    and "templatePodMapping items = Some tm"
  using plan
proof (atomize (full), cases rule: planClientPods_split)
  case (1 st1 new st2 am2 ru2)
  note st1 = planStatus_spec [OF ord ok 1(1)]
  note middle = plan_middle_status(1) [OF ord ok 1(1,2,3)]
  have new: "set new \<subseteq> dom (map_of (entries (spec_Clients (session_Spec session))))"
    using st1(4) by auto
  have "plan_end session tm st am ru"
    using 1(4)
  proof (elim disjE conjE exE)
    assume "st = st2" "am = am2" "ru = ru2"
    with middle show ?thesis by (simp add: plan_middle_def plan_end_def)
  next
    fix am3
    assume s: "sortAllocationMap am2 = Some am3"
      and a: "allocateClients ord u (session_Name session) new (am3, ru2, st2) = (am, ru, st)"
    have m3: "plan_middle session new tm st2 am3 ru2" using middle s by (rule plan_middle_sort)
    then have inv: "agree st2 am3" "pods_inv am3 ru2" "spare_exact tm am3 ru2" "map_ok am3"
      "sub_pods ru2 tm" "\<forall>c \<in> set new. map_of st2 c = None"
      unfolding plan_middle_def by blast+
    have f: "fresh_names u (session_Name session) new am3 ru2"
      using plan_fresh_names [OF m3 1(2) fresh st1(3) new] .
    have "map_ok am"
      using allocateClients_invariant [OF ord inv(4) a, of "\<lambda>_ _. True"] inv(4) by (simp add: map_ok_def)
    moreover have "sub_pods ru tm"
      using sub_pods_allocate [OF a] inv(5) by (rule sub_pods_trans)
    ultimately show ?thesis unfolding plan_end_def
      using agree_allocate [OF ord inv(4) st1(3) inv(1,6) a]
        allocateClients_pods_inv [OF ord inv(4,2) f a]
        allocateClients_spare_exact [OF ord inv(4,2) f inv(3) a] by blast
  qed
  with 1(2) show "plan_end session tm st am ru \<and> templatePodMapping items = Some tm" by simp
qed

text \<open>The status of every client at the end of the plan is the next state of its state machine.\<close>

lemma plan_presence:
  assumes ord: "permutes_keys ord" and ok: "session_maps_ok session"
    and now: "unix now \<noteq> unix defaultTime"
    and plan: "planClientPods ord u now session items = Some (st, am, ru, tm)"
  shows "presence_of (map_of st c) = client_next now (spec_TimeoutSeconds (session_Spec session))
    (map_of (entries (spec_Clients (session_Spec session))) c)
    (presence_of (map_of (entries (status_Clients (session_Status session))) c))"
  using plan
proof (cases rule: planClientPods_split)
  case (1 st1 new st2 am2 ru2)
  let ?spec = "map_of (entries (spec_Clients (session_Spec session)))"
  note st1 = planStatus_spec [OF ord ok 1(1)]
  note st2 = plan_middle_status(2) [OF ord ok 1(1,2,3)]
  have tail: "(c \<notin> set new \<longrightarrow> map_of st c = map_of st2 c) \<and>
      (c \<in> set new \<longrightarrow> presence_of (map_of st c) = Online)"
    using 1(4)
  proof (elim disjE conjE exE)
    assume "new = []" "st = st2"
    then show ?thesis by simp
  next
    fix am3
    assume s: "sortAllocationMap am2 = Some am3"
      and a: "allocateClients ord u (session_Name session) new (am3, ru2, st2) = (am, ru, st)"
    have "map_ok am3"
      using plan_middle_sort [OF plan_middle_status(1) [OF ord ok 1(1,2,3)] s]
      unfolding plan_middle_def by blast
    from allocateClients_seats [OF ord this st1(3) a] obtain f where
      "\<forall>c. c \<notin> set new \<longrightarrow> map_of st c = map_of st2 c"
      "\<forall>c \<in> set new. \<exists>v. map_of st c = Some v \<and> new_client_status (f c ` dom (map_of am3)) v" by blast
    then show ?thesis by (cases "c \<in> set new") (auto simp: new_client_status_def)
  qed
  show ?thesis
  proof (cases "c \<in> set new")
    case True
    with tail st1(4) show ?thesis by simp
  next
    case False
    with tail st1(2) [OF now _ False] st2 [of c] show ?thesis by (cases "?spec c") auto
  qed
qed

text \<open>Where the names can be split, every pod stands under its own template.\<close>

lemma template_keys_init: "template_keys (initAllocationMap ts)"
proof -
  let ?step = "\<lambda>podTemplate. map_put (template_Name podTemplate)
         \<lparr>alloc_PodTemplate = podTemplate, alloc_Pods = []\<rparr>"
  have "template_keys (fold ?step ts [])"
    by (rule fold_invariant_set) (auto simp: template_keys_def)
  then show ?thesis by (simp add: initAllocationMap_def)
qed

lemma template_keys_same:
  assumes "dom (map_of am) = template_Name ` set ts"
    and "\<forall>t. template_of am t = template_of (initAllocationMap ts) t"
  shows "template_keys am"
  unfolding template_keys_def
proof (intro allI impI)
  fix t v
  assume v: "map_of am t = Some v"
  then obtain w where w: "map_of (initAllocationMap ts) t = Some w"
    using assms(1) initAllocationMap_pods [of ts] by (metis domD domI)
  then have "template_Name (alloc_PodTemplate w) = t"
    using template_keys_init unfolding template_keys_def by blast
  moreover have "alloc_PodTemplate v = alloc_PodTemplate w"
    using assms(2) v w by (metis map_get_zero_simps(2))
  ultimately show "template_Name (alloc_PodTemplate v) = t" by simp
qed

lemma plan_end_names:
  assumes ord: "permutes_keys ord" and ok: "session_maps_ok session"
    and split: "names_split session" "pods_of_templates session"
    and plan: "planClientPods ord u now session items = Some (st, am, ru, tm)"
  shows "home am \<and> template_keys am \<and>
    dom (map_of am) = template_Name ` set (spec_ClientPodTemplates (session_Spec session)) \<and>
    (\<forall>t. template_of am t = template_of (initAllocationMap (spec_ClientPodTemplates (session_Spec session))) t)"
  using plan
proof (cases rule: planClientPods_split)
  case (1 st1 new st2 am2 ru2)
  let ?ts = "spec_ClientPodTemplates (session_Spec session)"
  note middle = plan_middle_status(1) [OF ord ok 1(1,2,3)]
  have names: "dom (map_of am) = template_Name ` set ?ts \<and> home am \<and>
      (\<forall>t. template_of am t = template_of (initAllocationMap ?ts) t)"
    if m: "plan_middle session new tm st2 am3 ru2"
      and tail: "am = am3 \<or> allocateClients ord u (session_Name session) new (am3, ru2, st2) = (am, ru, st)"
    for am3
  proof -
    from m have inv: "map_ok am3" "home am3" "spare_exact tm am3 ru2"
      "template_Name ` set ?ts \<subseteq> dom (map_of am3)"
      "dom (map_of am3) \<subseteq> template_Name ` set ?ts \<union>
        {t. \<exists>n \<in> status_pod_names session. templateNameOf n = Some t}"
      "\<forall>t. template_of am3 t = template_of (initAllocationMap ?ts) t"
      unfolding plan_middle_def by blast+
    then have dom3: "dom (map_of am3) = template_Name ` set ?ts"
      using split(2) unfolding pods_of_templates_def by blast
    have spare: "\<forall>t. \<forall>n \<in> spare ru2 t. templateNameOf n = Some t"
      using inv(3) spare_templatePodMapping [OF 1(2)] by (auto simp: spare_exact_def)
    have one: "count_list (session_Name session) (CHR ''-'') = 1"
      and dash: "\<forall>t \<in> dom (map_of am3). CHR ''-'' \<notin> set t"
      using split(1) unfolding names_split_def dom3 by blast+
    from tail show ?thesis
    proof
      assume "am = am3"
      with inv dom3 show ?thesis by simp
    next
      assume a: "allocateClients ord u (session_Name session) new (am3, ru2, st2) = (am, ru, st)"
      have "map_keys am = map_keys am3" "\<forall>t. template_of am t = template_of am3 t"
        using allocateClients_invariant [OF ord inv(1) a, of "\<lambda>_ _. True"] by auto
      then have "dom (map_of am) = dom (map_of am3)" by (metis set_map_keys)
      with dom3 inv(6) allocateClients_home [OF ord inv(1,2) spare one dash a]
        \<open>\<forall>t. template_of am t = template_of am3 t\<close> show ?thesis by simp
    qed
  qed
  have final: "dom (map_of am) = template_Name ` set ?ts \<and> home am \<and>
      (\<forall>t. template_of am t = template_of (initAllocationMap ?ts) t)"
    using 1(4) names [OF middle] plan_middle_sort [OF middle] names by blast
  then have "template_keys am" using template_keys_same by blast
  with final show ?thesis by blast
qed

section \<open>The report to the clients\<close>

text \<open>
  What the loop over the seats \<open>es\<close> does to the status of a client, when the pod \<open>n\<close> is up
  exactly if \<open>U n\<close>.
\<close>

definition reported :: "(string \<Rightarrow> bool) \<Rightarrow> string set \<Rightarrow> clientStatus \<Rightarrow> clientStatus \<Rightarrow> bool" where
  "reported U N v v' \<longleftrightarrow>
     clientStatus_LastSeenAt v' = clientStatus_LastSeenAt v \<and>
     dom (map_of (clientStatus_PodStatus v')) = dom (map_of (clientStatus_PodStatus v)) \<and>
     (\<forall>n s. n \<in> N \<longrightarrow> map_of (clientStatus_PodStatus v') n = Some s \<longrightarrow> podStatus_Ready s = U n) \<and>
     (N \<noteq> {} \<longrightarrow>
        (clientStatus_Ready v' \<longleftrightarrow> (\<forall>s \<in> ran (map_of (clientStatus_PodStatus v')). podStatus_Ready s)))"

definition pods_reported :: "seat list \<Rightarrow> string \<Rightarrow> string set" where
  "pods_reported es c = {seat_pod e | e. e \<in> set es \<and> podClient_Id (seat_client e) = c}"

lemma reported_dom:
  "reported U N v v' \<Longrightarrow> dom (map_of (clientStatus_PodStatus v')) = dom (map_of (clientStatus_PodStatus v))"
  by (simp add: reported_def)

lemma seat_status_dom:
  "seat_status e v v' \<Longrightarrow> dom (map_of (clientStatus_PodStatus v')) = dom (map_of (clientStatus_PodStatus v))"
  by (simp add: seat_status_def)

lemma reported_seat:
  assumes "reported U N v v1" and "seat_status e v1 v'"
    and "seat_pod e \<in> dom (map_of (clientStatus_PodStatus v))" and "seat_up e = U (seat_pod e)"
  shows "reported U (insert (seat_pod e) N) v v'"
proof -
  have "seat_pod e \<in> dom (map_of (clientStatus_PodStatus v'))"
    using assms(3) reported_dom [OF assms(1)] seat_status_dom [OF assms(2)] by simp
  then obtain s where "map_of (clientStatus_PodStatus v') (seat_pod e) = Some s" by blast
  with assms(2) have
    ready: "clientStatus_Ready v' \<longleftrightarrow> (\<forall>s \<in> ran (map_of (clientStatus_PodStatus v')). podStatus_Ready s)"
    unfolding seat_status_def by blast
  have "podStatus_Ready s = U n" if prem: "n \<in> insert (seat_pod e) N"
      "map_of (clientStatus_PodStatus v') n = Some s" for n s
  proof (cases "n = seat_pod e")
    case True
    with prem(2) assms(2,4) show ?thesis by (simp add: seat_status_def)
  next
    case False
    then have "n \<in> N" "map_of (clientStatus_PodStatus v1) n = Some s"
      using prem assms(2) by (auto simp: seat_status_def)
    with assms(1) show ?thesis unfolding reported_def by blast
  qed
  moreover have "clientStatus_LastSeenAt v' = clientStatus_LastSeenAt v"
    using assms(1,2) by (simp add: reported_def seat_status_def)
  moreover have "dom (map_of (clientStatus_PodStatus v')) = dom (map_of (clientStatus_PodStatus v))"
    using reported_dom [OF assms(1)] seat_status_dom [OF assms(2)] by simp
  ultimately show ?thesis unfolding reported_def using ready by blast
qed

lemma seat_loop:
  assumes "fold_opt seat_turn es st = Some st'"
    and "\<And>e. e \<in> set es \<Longrightarrow> seat_up e = U (seat_pod e)"
    and "\<And>e. e \<in> set es \<Longrightarrow> \<exists>v. map_of st (podClient_Id (seat_client e)) = Some v \<and>
      seat_pod e \<in> dom (map_of (clientStatus_PodStatus v))"
  shows "rel_option (reported U (pods_reported es c)) (map_of st c) (map_of st' c)"
  using assms
proof (induction es arbitrary: st' rule: rev_induct)
  case Nil
  then show ?case by (cases "map_of st c") (auto simp: reported_def pods_reported_def)
next
  case (snoc e es)
  from snoc.prems(1) obtain st1 where
    st1: "fold_opt seat_turn es st = Some st1" "seat_turn e st1 = Some st'"
    by (auto simp: fold_opt_append split: Option.bind_splits)
  have IH: "rel_option (reported U (pods_reported es c)) (map_of st c) (map_of st1 c)"
    using snoc.IH [OF st1(1)] snoc.prems(2,3) by simp
  note turn = seat_turn_status [OF st1(2)]
  show ?case
  proof (cases "podClient_Id (seat_client e) = c")
    case False
    then have "pods_reported (es @ [e]) c = pods_reported es c" by (auto simp: pods_reported_def)
    with False IH turn show ?thesis by simp
  next
    case True
    then have names: "pods_reported (es @ [e]) c = insert (seat_pod e) (pods_reported es c)"
      by (auto simp: pods_reported_def)
    from True snoc.prems(3) [of e] obtain v where
      v: "map_of st c = Some v" "seat_pod e \<in> dom (map_of (clientStatus_PodStatus v))" by auto
    from IH v(1) obtain v1 where v1: "map_of st1 c = Some v1" "reported U (pods_reported es c) v v1"
      by (cases "map_of st1 c") auto
    from turn True v1(1) obtain v' where v': "map_of st' c = Some v'" "seat_status e v1 v'"
      by (cases "map_of st' c") auto
    from reported_seat [OF v1(2) v'(2) v(2)] snoc.prems(2) [of e] v(1) v'(1) names show ?thesis by simp
  qed
qed

text \<open>A pod is up when the cluster has it, its \<open>Ready\<close> condition holds and the ingress has an address.\<close>

definition up_in :: "kpod list \<Rightarrow> string option \<Rightarrow> string \<Rightarrow> bool" where
  "up_in items ip n \<longleftrightarrow> ip \<noteq> None \<and>
     (\<exists>k \<in> set items. kpod_Name k = n \<and> ExtractReadyConditionStatusFromPod k = ''True'')"

lemma cluster_pod_items:
  assumes "templatePodMapping items = Some tm" and "distinct (map kpod_Name items)"
    and "templateNameOf (pod_Name p) = Some (template_Name (alloc_PodTemplate av))"
  shows "cluster_pod tm av p = Some k \<longleftrightarrow> k \<in> set items \<and> kpod_Name k = pod_Name p"
proof -
  let ?byname = "map (\<lambda>p. (kpod_Name p, p)) (rev items)"
  have "distinct (map fst ?byname)"
    using assms(2) by (simp add: comp_def rev_map [symmetric])
  then have "map_of ?byname n = Some k \<longleftrightarrow> (n, k) \<in> set ?byname" for n by (rule map_of_eq_Some_iff)
  then have "map_of ?byname n = Some k \<longleftrightarrow> k \<in> set items \<and> kpod_Name k = n" for n by auto
  then show ?thesis
    unfolding cluster_pod_def templatePodMapping_lookup [OF assms(1)] using assms(3) by auto
qed

lemma all_seats_up:
  assumes tm: "templatePodMapping items = Some tm" and dist: "distinct (map kpod_Name items)"
    and am: "home am" "template_keys am" and "e \<in> set (all_seats tm ip (map (map_get_zero zero_allocationValue am) ts))"
    and "set ts \<subseteq> dom (map_of am)"
  shows "seat_up e = up_in items ip (seat_pod e)"
proof -
  from assms(5,6) obtain t av p where t: "map_of am t = Some av" "p \<in> set (alloc_Pods av)"
      "e \<in> set (pod_seats tm ip av p)"
    by (fastforce simp: all_seats_def)
  have "pod_Name p \<in> set (pod_names am t)" using t by (simp add: pod_names_def)
  then have "templateNameOf (pod_Name p) = Some (template_Name (alloc_PodTemplate av))"
    using am t(1) unfolding home_def template_keys_def by auto
  note cl = cluster_pod_items [OF tm dist this]
  have e: "seat_pod e = pod_Name p" "seat_up e = pod_up ip (cluster_pod tm av p)"
    using t(3) by (auto simp: pod_seats_def)
  show ?thesis unfolding e pod_up_def cl up_in_def by blast
qed

lemma seats_of_all:
  assumes "set ts = dom (map_of am)"
  shows "(\<lambda>e. (seat_pod e, seat_client e)) `
    set (all_seats tm ip (map (map_get_zero zero_allocationValue am) ts)) = seats am"
proof -
  have "(\<lambda>e. (seat_pod e, seat_client e)) ` set (pod_seats tm ip av p) = Pair (pod_Name p) ` set (pod_Clients p)"
    for av p
    by (simp add: pod_seats_def image_image)
  then have "(\<lambda>e. (seat_pod e, seat_client e)) `
      set (all_seats tm ip (map (map_get_zero zero_allocationValue am) ts)) =
      (\<Union>t \<in> set ts. seats_in (pods_of am t))"
    unfolding all_seats_def by (simp add: image_UN pods_of_def seats_in_def) blast
  also have "\<dots> = seats am"
  proof -
    have "seats_in (pods_of am t) = {}" if "t \<notin> dom (map_of am)" for t
      using that by (simp add: domIff)
    then show ?thesis unfolding seats_def assms by blast
  qed
  finally show ?thesis .
qed

lemma reconcilePods_reported:
  assumes ord: "permutes_keys ord" and tm: "templatePodMapping items = Some tm"
    and dist: "distinct (map kpod_Name items)" and am: "home am" "template_keys am" "agree st am"
    and run: "reconcilePods ord am st tm ip = Some (st', podsToSpawn)"
  shows "rel_option (\<lambda>v v'. reported (up_in items ip) (dom (map_of (clientStatus_PodStatus v))) v v')
    (map_of st c) (map_of st' c)"
proof -
  let ?ts = "ord RangeAllocationSpawn (map_keys am)"
  let ?es = "all_seats tm ip (map (map_get_zero zero_allocationValue am) ?ts)"
  have ts: "set ?ts = dom (map_of am)" using ord by (simp add: go_order_simps)
  from run have loop: "fold_opt seat_turn ?es st = Some st'"
    by (auto simp: reconcilePods_flat Let_def)
  have es: "e \<in> set ?es \<Longrightarrow> (seat_pod e, seat_client e) \<in> seats am" for e
    using seats_of_all [OF ts, of tm ip] by blast
  have "rel_option (reported (up_in items ip) (pods_reported ?es c)) (map_of st c) (map_of st' c)"
    using loop
  proof (rule seat_loop)
    show "seat_up e = up_in items ip (seat_pod e)" if "e \<in> set ?es" for e
      using all_seats_up [OF tm dist am(1,2) that] ts by blast
    show "\<exists>v. map_of st (podClient_Id (seat_client e)) = Some v \<and>
      seat_pod e \<in> dom (map_of (clientStatus_PodStatus v))" if "e \<in> set ?es" for e
      using es [OF that] am(3) unfolding agree_def by auto
  qed
  moreover have "pods_reported ?es c = dom (map_of (clientStatus_PodStatus v))" if "map_of st c = Some v" for v
  proof -
    have "pods_reported ?es c = {n. \<exists>x. (n, x) \<in> seats am \<and> podClient_Id x = c}"
      unfolding pods_reported_def seats_of_all [OF ts, of tm ip, symmetric] by force
    also have "\<dots> = dom (map_of (clientStatus_PodStatus v))"
    proof (intro set_eqI iffI)
      fix n
      assume "n \<in> dom (map_of (clientStatus_PodStatus v))"
      with am(3) that have "(n, seat_of c v) \<in> seats am" unfolding agree_def by blast
      then show "n \<in> {n. \<exists>x. (n, x) \<in> seats am \<and> podClient_Id x = c}" by force
    qed (use am(3) that in \<open>auto simp: agree_def\<close>)
    finally show ?thesis .
  qed
  ultimately show ?thesis by (cases "map_of st c"; cases "map_of st' c") auto
qed

section \<open>The pods to spawn\<close>

lemma names_of_seats:
  assumes "pods_inv am ru"
  shows "fst ` seats am = (\<Union>t. set (pod_names am t))"
proof
  show "fst ` seats am \<subseteq> (\<Union>t. set (pod_names am t))"
    by (auto simp: seats_def seats_in_def pod_names_def)
  show "(\<Union>t. set (pod_names am t)) \<subseteq> fst ` seats am"
    using names_in_seats [OF assms] by blast
qed

definition missing_in :: "kpod list \<Rightarrow> allocationMap \<Rightarrow> string \<Rightarrow> kpod list" where
  "missing_in items am t = map (\<lambda>n. clientPodObject n (template_Spec (template_of am t)))
     (filter (\<lambda>n. n \<notin> kpod_Name ` set items) (pod_names am t))"

lemma missing_pods_in:
  assumes tm: "templatePodMapping items = Some tm" and dist: "distinct (map kpod_Name items)"
    and am: "home am" "template_keys am" and t: "t \<in> dom (map_of am)"
  shows "missing_pods tm (map_get_zero zero_allocationValue am t) = missing_in items am t"
proof -
  obtain av where av: "map_of am t = Some av" using t by blast
  have "cluster_pod tm av p = None \<longleftrightarrow> pod_Name p \<notin> kpod_Name ` set items" if "p \<in> set (alloc_Pods av)" for p
  proof -
    have "pod_Name p \<in> set (pod_names am t)" using that av by (simp add: pod_names_def)
    then have "templateNameOf (pod_Name p) = Some (template_Name (alloc_PodTemplate av))"
      using am av unfolding home_def template_keys_def by auto
    note cl = cluster_pod_items [OF tm dist this]
    show ?thesis
    proof (cases "cluster_pod tm av p")
      case None
      then have "\<forall>k \<in> set items. kpod_Name k \<noteq> pod_Name p" using cl by auto
      with None show ?thesis by auto
    next
      case (Some k)
      with cl show ?thesis by (metis image_eqI option.discI)
    qed
  qed
  then have "filter (\<lambda>p. cluster_pod tm av p = None) (alloc_Pods av) =
      filter (\<lambda>p. pod_Name p \<notin> kpod_Name ` set items) (alloc_Pods av)"
    by (intro filter_cong) simp_all
  then show ?thesis
    using av by (simp add: missing_pods_def missing_in_def pod_names_def filter_map comp_def)
qed

lemma names_of_all_templates:
  assumes "pods_inv am ru"
  shows "(\<Union>t \<in> dom (map_of am). set (pod_names am t) - N) = fst ` seats am - N"
proof -
  have "t \<in> dom (map_of am)" if "n \<in> set (pod_names am t)" for n t
    using that by (cases "map_of am t") (auto simp: pod_names_def)
  then have "(\<Union>t \<in> dom (map_of am). set (pod_names am t) - N) = (\<Union>t. set (pod_names am t)) - N" by blast
  then show ?thesis unfolding names_of_seats [OF assms] .
qed

lemma distinct_pod_names:
  assumes "home am" and "pods_inv am ru" and "distinct ts"
  shows "distinct (concat (map (\<lambda>t. filter P (pod_names am t)) ts))"
  using assms(3)
proof (induction ts)
  case (Cons t ts)
  have "t = t'" if "n \<in> set (pod_names am t)" "n \<in> set (pod_names am t')" for n t t'
    using assms(1) that unfolding home_def by (metis option.inject)
  with Cons.prems have "set (filter P (pod_names am t)) \<inter> set (concat (map (\<lambda>t. filter P (pod_names am t)) ts)) = {}"
    by auto
  moreover have "distinct (pod_names am t)" using assms(2) by (simp add: pods_inv_def)
  ultimately show ?case using Cons by simp
qed simp

lemma reconcilePods_spawned:
  assumes ord: "permutes_keys ord" and tm: "templatePodMapping items = Some tm"
    and dist: "distinct (map kpod_Name items)" and am: "home am" "template_keys am"
    and inv: "pods_inv am ru" "map_ok am"
    and run: "reconcilePods ord am st tm ip = Some (st', podsToSpawn)"
  shows "distinct (map kpod_Name podsToSpawn)"
    and "kpod_Name ` set podsToSpawn = fst ` seats am - kpod_Name ` set items"
    and "k \<in> set podsToSpawn \<Longrightarrow> \<exists>t. templateNameOf (kpod_Name k) = Some t \<and>
      k = clientPodObject (kpod_Name k) (template_Spec (template_of am t))"
proof -
  let ?ts = "ord RangeAllocationSpawn (map_keys am)"
  have ts: "set ?ts = dom (map_of am)" "distinct ?ts"
    using ord inv(2) by (auto simp: go_order_simps map_ok_keys)
  have "map (missing_pods tm) (map (map_get_zero zero_allocationValue am) ?ts) = map (missing_in items am) ?ts"
    using missing_pods_in [OF tm dist am] ts(1) by simp
  with run have out: "podsToSpawn = concat (map (missing_in items am) ?ts)"
    by (auto simp: reconcilePods_flat Let_def simp del: map_map)
  have names: "map kpod_Name (missing_in items am t) = filter (\<lambda>n. n \<notin> kpod_Name ` set items) (pod_names am t)" for t
    by (simp add: missing_in_def clientPodObject_def comp_def)
  have out_names: "map kpod_Name podsToSpawn =
      concat (map (\<lambda>t. filter (\<lambda>n. n \<notin> kpod_Name ` set items) (pod_names am t)) ?ts)"
    by (simp only: out map_concat map_map comp_def names)
  have "kpod_Name ` set podsToSpawn = set (map kpod_Name podsToSpawn)" by simp
  also have "\<dots> = (\<Union>t \<in> dom (map_of am). set (pod_names am t) - kpod_Name ` set items)"
    unfolding out_names using ts(1) by auto
  finally show "kpod_Name ` set podsToSpawn = fst ` seats am - kpod_Name ` set items"
    unfolding names_of_all_templates [OF inv(1)] .
  show "distinct (map kpod_Name podsToSpawn)"
    unfolding out_names by (rule distinct_pod_names [OF am(1) inv(1) ts(2)])
  show "\<exists>t. templateNameOf (kpod_Name k) = Some t \<and>
      k = clientPodObject (kpod_Name k) (template_Spec (template_of am t))" if "k \<in> set podsToSpawn"
  proof -
    from that obtain t n where "n \<in> set (pod_names am t)"
        "k = clientPodObject n (template_Spec (template_of am t))"
      unfolding out missing_in_def by auto
    note k = this
    then have "kpod_Name k = n" by (simp add: clientPodObject_def)
    moreover have "templateNameOf n = Some t" using am(1) k(1) unfolding home_def by blast
    ultimately show ?thesis using k(2) by blast
  qed
qed

end
