(* ===== verification/GC_Registrations.thy ===== *)
theory GC_Registrations
  imports Client_Results
begin

text \<open>
  The GC registrations that \<open>manageGCRegistrations\<close> makes: after a run without an error a pod of the
  session is registered exactly when no connected client sits in it.
\<close>

section \<open>The requests of one pod\<close>

text \<open>The requests for the pod \<open>n\<close>, which should be registered exactly if \<open>w\<close>.\<close>

definition gc_trace :: "session \<Rightarrow> (string, gcRegistration) gomap \<Rightarrow> string \<Rightarrow> bool \<Rightarrow> request list" where
  "gc_trace session registrations n w =
     (case map_of registrations n of
        None \<Rightarrow> if w then [CreateNamespace gcNamespace, CreateGCRegistration
          (newGCRegistration n (session_Name session) (session_Namespace session))] else []
      | Some g \<Rightarrow> if w then [] else [DeleteGCRegistration g])"

lemma create_trace:
  assumes "run_state (createGCRegistration K n s ns) h = (e, h')"
  defines "t \<equiv> [CreateNamespace gcNamespace, CreateGCRegistration (newGCRegistration n s ns)]"
  shows "e = None \<Longrightarrow> h' = h @ t" and "\<exists>u. h' = h @ u \<and> prefix u t"
  using assms(1) by (auto simp: createGCRegistration_def t_def Let_def split: if_splits)

lemma delete_trace:
  "run_state (deleteGCRegistration K g) h = (e, h') \<Longrightarrow> h' = h @ [DeleteGCRegistration g]"
  by (auto simp: deleteGCRegistration_def split: if_splits)

interpretation spare_gc: exact_step "registerSparePod K session m"
    "\<lambda>pod. gc_trace session m (kpod_Name pod) True" for K session m
  by unfold_locales
    (auto simp: registerSparePod_def gc_trace_def dest: create_trace split: if_splits option.splits)

interpretation allocated_gc: exact_step "registerAllocatedPod K session m"
    "\<lambda>pod. gc_trace session m (pod_Name pod) (podIsEmpty pod)" for K session m
  by unfold_locales
    (auto simp: registerAllocatedPod_def gc_trace_def dest: create_trace delete_trace
      split: if_splits option.splits)

section \<open>What the requests leave registered\<close>

fun gc_effect :: "request \<Rightarrow> string set \<Rightarrow> string set" where
  "gc_effect (CreateGCRegistration g) R = insert (gc_Name g) R"
| "gc_effect (DeleteGCRegistration g) R = R - {gc_Name g}"
| "gc_effect _ R = R"

definition registered_after :: "request list \<Rightarrow> string set \<Rightarrow> string set" where
  "registered_after = fold gc_effect"

definition names_agree :: "(string, gcRegistration) gomap \<Rightarrow> bool" where
  "names_agree m \<longleftrightarrow> (\<forall>n g. map_of m n = Some g \<longrightarrow> gc_Name g = n)"

lemma gcRegistrationsMap_names:
  "names_agree (gcRegistrationsMap gs) \<and> dom (map_of (gcRegistrationsMap gs)) = gc_Name ` set gs"
proof -
  have "names_agree m \<Longrightarrow> names_agree (fold (\<lambda>g. map_put (gc_Name g) g) gs m) \<and>
      dom (map_of (fold (\<lambda>g. map_put (gc_Name g) g) gs m)) = dom (map_of m) \<union> gc_Name ` set gs" for m
  proof (induction gs arbitrary: m)
    case (Cons g gs)
    have "names_agree (map_put (gc_Name g) g m)"
      unfolding names_agree_def
    proof (intro allI impI)
      fix n g'
      assume "map_of (map_put (gc_Name g) g m) n = Some g'"
      then have "n = gc_Name g \<and> g' = g \<or> map_of m n = Some g'" by (auto split: if_splits)
      with Cons.prems show "gc_Name g' = n" unfolding names_agree_def by blast
    qed
    note IH = Cons.IH [OF this]
    have "dom (map_of (map_put (gc_Name g) g m)) = insert (gc_Name g) (dom (map_of m))" by simp
    with IH show ?case by (simp only: fold_simps list.set image_insert Un_insert_left Un_insert_right simp_thms)
  qed simp
  moreover have "names_agree []" by (simp add: names_agree_def)
  ultimately show ?thesis by (simp add: gcRegistrationsMap_def)
qed

text \<open>The set \<open>R\<close> of the registered names agrees with the map as far as the decisions \<open>W\<close> need.\<close>

definition gc_known ::
    "(string, gcRegistration) gomap \<Rightarrow> (string \<Rightarrow> bool) \<Rightarrow> string list \<Rightarrow> string set \<Rightarrow> bool" where
  "gc_known m W ns R \<longleftrightarrow> (\<forall>n \<in> set ns. if W n then n \<in> dom (map_of m) \<longrightarrow> n \<in> R
     else n \<in> R \<longrightarrow> n \<in> dom (map_of m))"

lemma gc_trace_effect:
  assumes "names_agree m" and "gc_known m W [n] R"
  shows "registered_after (gc_trace session m n (W n)) R = (if W n then insert n R else R - {n})"
proof (cases "map_of m n")
  case None
  with assms(2) show ?thesis
    by (auto simp: registered_after_def gc_trace_def newGCRegistration_def gc_known_def domIff)
next
  case (Some g)
  then have "gc_Name g = n" using assms(1) unfolding names_agree_def by blast
  with Some assms(2) show ?thesis
    by (auto simp: registered_after_def gc_trace_def gc_known_def domIff)
qed

lemma gc_loop_effect:
  assumes "names_agree m" and "gc_known m W ns R"
  shows "registered_after (concat (map (\<lambda>n. gc_trace session m n (W n)) ns)) R =
    (R \<union> {n \<in> set ns. W n}) - {n \<in> set ns. \<not> W n}"
  using assms(2)
proof (induction ns arbitrary: R)
  case Nil
  then show ?case by (simp add: registered_after_def)
next
  case (Cons n ns)
  let ?R = "if W n then insert n R else R - {n}"
  have "gc_known m W [n] R" using Cons.prems by (simp add: gc_known_def)
  from gc_trace_effect [OF assms(1) this, of session] have
    head: "registered_after (gc_trace session m n (W n)) R = ?R" .
  have "gc_known m W ns ?R" unfolding gc_known_def
  proof
    fix k
    assume "k \<in> set ns"
    then have "if W k then k \<in> dom (map_of m) \<longrightarrow> k \<in> R else k \<in> R \<longrightarrow> k \<in> dom (map_of m)"
      using Cons.prems unfolding gc_known_def by simp
    then show "if W k then k \<in> dom (map_of m) \<longrightarrow> k \<in> ?R else k \<in> ?R \<longrightarrow> k \<in> dom (map_of m)"
      by (cases "k = n"; cases "W k"; cases "W n") simp_all
  qed
  note rest = Cons.IH [OF this]
  have "registered_after (concat (map (\<lambda>n. gc_trace session m n (W n)) (n # ns))) R =
      registered_after (concat (map (\<lambda>n. gc_trace session m n (W n)) ns)) ?R"
    using head by (simp add: registered_after_def)
  also have "\<dots> = (R \<union> {k \<in> set (n # ns). W k}) - {k \<in> set (n # ns). \<not> W k}"
    unfolding rest by (cases "W n") auto
  finally show ?case .
qed

section \<open>The operation\<close>

text \<open>The names in the order of the two loops.\<close>

definition spare_pods :: "iteration \<Rightarrow> templatePodMap \<Rightarrow> kpod list" where
  "spare_pods ord ru = concat (map (\<lambda>t.
     let pods = map_get_zero [] ru t in map_values pods (ord (RangeReutilizePods t) (map_keys pods)))
     (ord RangeReutilizeMap (map_keys ru)))"

definition allocated_pods :: "iteration \<Rightarrow> allocationMap \<Rightarrow> pod list" where
  "allocated_pods ord am = concat (map (\<lambda>t. alloc_Pods (map_get_zero zero_allocationValue am t))
     (ord RangeAllocationGC (map_keys am)))"

definition manage_trace ::
    "iteration \<Rightarrow> session \<Rightarrow> allocationMap \<Rightarrow> templatePodMap \<Rightarrow> gcRegistration list \<Rightarrow> request list" where
  "manage_trace ord session am ru gs =
     concat (map (\<lambda>p. gc_trace session (gcRegistrationsMap gs) (kpod_Name p) True) (spare_pods ord ru)) @
     concat (map (\<lambda>p. gc_trace session (gcRegistrationsMap gs) (pod_Name p) (podIsEmpty p))
       (allocated_pods ord am))"

lemma manageGCRegistrations_run:
  assumes "run_state (manageGCRegistrations K ord session am ru gs) h = (e, h')"
  shows "e = None \<Longrightarrow> h' = h @ manage_trace ord session am ru gs"
    and "\<exists>t. h' = h @ t \<and> prefix t (manage_trace ord session am ru gs)"
proof -
  let ?m = "gcRegistrationsMap gs"
  let ?spare = "for_each (registerSparePod K session ?m) (spare_pods ord ru)"
  let ?alloc = "for_each (registerAllocatedPod K session ?m) (allocated_pods ord am)"
  have eq: "manageGCRegistrations K ord session am ru gs =
      do { err \<leftarrow> ?spare; (case err of Some e \<Rightarrow> ret (Some e) | None \<Rightarrow> ?alloc) }"
    unfolding manageGCRegistrations_def spare_pods_def allocated_pods_def Let_def for_each_nested ..
  obtain e1 h1 where s: "run_state ?spare h = (e1, h1)" by force
  note a = assms [unfolded eq]
  show "h' = h @ manage_trace ord session am ru gs" if "e = None"
  proof -
    from a s that have "e1 = None" "run_state ?alloc h1 = (None, h')"
      by (auto split: option.splits)
    note h1 = spare_gc.loop_done [OF s [unfolded this(1)]]
    note h' = allocated_gc.loop_done [OF \<open>run_state ?alloc h1 = (None, h')\<close>]
    show ?thesis unfolding h' h1 manage_trace_def by simp
  qed
  show "\<exists>t. h' = h @ t \<and> prefix t (manage_trace ord session am ru gs)"
  proof (cases e1)
    case None
    with a s have "run_state ?alloc h1 = (e, h')" by simp
    from allocated_gc.loop_prefix [OF this] obtain t where t: "h' = h1 @ t"
      "prefix t (concat (map (\<lambda>p. gc_trace session ?m (pod_Name p) (podIsEmpty p)) (allocated_pods ord am)))"
      by blast
    then show ?thesis
      unfolding spare_gc.loop_done [OF s [unfolded None]] manage_trace_def append_assoc
      by (metis same_prefix_prefix)
  next
    case (Some err)
    with a s have "h' = h1" by simp
    with spare_gc.loop_prefix [OF s] show ?thesis by (auto simp: manage_trace_def intro: prefix_prefix)
  qed
qed

section \<open>Registered exactly when idle\<close>

lemma templatePodMapping_named:
  assumes "templatePodMapping ps = Some m" and "p \<in> set ps"
  shows "templateNameOf (kpod_Name p) \<noteq> None"
proof -
  have "\<forall>p \<in> set ps. templateNameOf (kpod_Name p) \<noteq> None"
    if "fold_opt templatePodMappingStep ps m0 = Some m" for m0
    using that
    by (induction ps arbitrary: m0) (auto simp: templatePodMappingStep_def split: Option.bind_splits)
  with assms show ?thesis by (simp add: templatePodMapping_def)
qed

lemma spare_pods_names:
  assumes ord: "permutes_keys ord" and tm: "templatePodMapping items = Some tm" and sub: "sub_pods ru tm"
  shows "kpod_Name ` set (spare_pods ord ru) = (\<Union>t. spare ru t)"
proof -
  have name: "kpod_Name p = n" if "map_of (map_get_zero [] ru t) n = Some p" for t n p
  proof -
    from that sub have "map_of (map_get_zero [] tm t) n = Some p" unfolding sub_pods_def by blast
    then have "map_of (map (\<lambda>p. (kpod_Name p, p)) (rev items)) n = Some p"
      unfolding templatePodMapping_lookup [OF tm] by (simp split: if_splits)
    from map_of_SomeD [OF this] show ?thesis by auto
  qed
  have vals: "kpod_Name ` set (map_values (map_get_zero [] ru t) (ord l (map_keys (map_get_zero [] ru t)))) = spare ru t"
    for t l
  proof -
    let ?m = "map_get_zero [] ru t"
    have "set (map_values ?m (ord l (map_keys ?m))) = ran (map_of ?m)"
    proof -
      have "set (map_values ?m ks) = {p. \<exists>k \<in> set ks. map_of ?m k = Some p}" for ks
        by (induction ks) (auto simp: map_values_def List.map_filter_simps split: option.splits)
      then show ?thesis using ord by (auto simp: go_order_simps ran_def)
    qed
    then show ?thesis using name [of t] by (force simp: spare_def ran_def)
  qed
  have "kpod_Name ` set (spare_pods ord ru) = (\<Union>t \<in> set (ord RangeReutilizeMap (map_keys ru)). spare ru t)"
    by (simp add: spare_pods_def Let_def image_UN vals)
  also have "\<dots> = (\<Union>t. spare ru t)"
  proof -
    have "t \<in> dom (map_of ru)" if "n \<in> spare ru t" for n t
      using that by (cases "map_of ru t") (auto simp: spare_def)
    moreover have "set (ord RangeReutilizeMap (map_keys ru)) = dom (map_of ru)"
      using ord by (simp add: go_order_simps)
    ultimately show ?thesis by blast
  qed
  finally show ?thesis .
qed

lemma allocated_pods_set:
  assumes "permutes_keys ord"
  shows "set (allocated_pods ord am) = (\<Union>t. set (pods_of am t))"
proof -
  have none: "set (pods_of am t) = {}" if "t \<notin> dom (map_of am)" for t
    using that by (simp add: domIff)
  have "set (allocated_pods ord am) = (\<Union>t \<in> dom (map_of am). set (pods_of am t))"
    using assms by (simp add: allocated_pods_def pods_of_def go_order_simps)
  also have "\<dots> = (\<Union>t. set (pods_of am t))"
  proof (intro set_eqI iffI)
    fix p
    assume "p \<in> (\<Union>t. set (pods_of am t))"
    then obtain t where t: "p \<in> set (pods_of am t)" by blast
    then have "t \<in> dom (map_of am)" using none [of t] by fastforce
    with t show "p \<in> (\<Union>t \<in> dom (map_of am). set (pods_of am t))" by blast
  qed blast
  finally show ?thesis .
qed

text \<open>No connected client sits in the pod.\<close>

definition idle :: "allocationMap \<Rightarrow> string \<Rightarrow> bool" where
  "idle am n \<longleftrightarrow> (\<forall>x. (n, x) \<in> seats am \<longrightarrow> \<not> podClient_Connected x)"

lemma podIsEmpty_idle:
  assumes "pods_inv am ru" and "home am" and p: "p \<in> set (pods_of am t)"
  shows "podIsEmpty p \<longleftrightarrow> idle am (pod_Name p)"
proof -
  have same: "q = p" if q: "q \<in> set (pods_of am t')" "pod_Name q = pod_Name p" for q t'
  proof -
    have "templateNameOf (pod_Name p) = Some t" "templateNameOf (pod_Name q) = Some t'"
      using assms(2) p q(1) by (auto simp: home_def pod_names_def)
    with q have "t' = t" by simp
    moreover have "distinct (map pod_Name (pods_of am t))"
      using assms(1) unfolding pods_inv_def pod_names_def by blast
    ultimately show ?thesis using p q by (metis distinct_map inj_on_eq_iff)
  qed
  have "(pod_Name p, x) \<in> seats am \<longleftrightarrow> x \<in> set (pod_Clients p)" for x
  proof
    assume "(pod_Name p, x) \<in> seats am"
    then obtain t' q where "q \<in> set (pods_of am t')" "pod_Name q = pod_Name p" "x \<in> set (pod_Clients q)"
      by (auto simp: seats_def seats_in_def)
    with same show "x \<in> set (pod_Clients p)" by blast
  qed (use p in \<open>auto simp: seats_def seats_in_def\<close>)
  then show ?thesis by (auto simp: podIsEmpty_def idle_def list_all_iff)
qed

text \<open>A spare pod is idle.\<close>

lemma spare_pod_idle:
  assumes "templatePodMapping items = Some tm" and "pods_inv am ru" and "home am" and "spare_exact tm am ru"
    and "n \<in> spare ru t"
  shows "idle am n"
proof -
  have sp: "templateNameOf n = Some t" "n \<notin> set (pod_names am t)"
    using assms(4,5) spare_templatePodMapping [OF assms(1)] by (auto simp: spare_exact_def)
  then have "n \<notin> set (pod_names am t')" for t' using assms(3) unfolding home_def by (cases "t' = t") auto
  then have "n \<notin> fst ` seats am" unfolding names_of_seats [OF assms(2)] by blast
  then show ?thesis unfolding idle_def by force
qed

lemma manage_trace_effect:
  assumes ord: "permutes_keys ord" and tm: "templatePodMapping items = Some tm"
    and inv: "pods_inv am ru" "home am" "spare_exact tm am ru" "sub_pods ru tm"
  shows "registered_after (manage_trace ord session am ru gs) (gc_Name ` set gs) =
    {n. if n \<in> kpod_Name ` set items \<union> fst ` seats am then idle am n else n \<in> gc_Name ` set gs}"
proof -
  let ?m = "gcRegistrationsMap gs"
  let ?sp = "map kpod_Name (spare_pods ord ru)" and ?al = "map pod_Name (allocated_pods ord am)"
  have names: "(\<Union>t. set (pod_names am t)) = fst ` seats am" using names_of_seats [OF inv(1)] ..
  note spare_idle = spare_pod_idle [OF tm inv(1-3)]
  have sp: "set ?sp = (\<Union>t. spare ru t)" using spare_pods_names [OF ord tm inv(4)] by simp
  have al: "set ?al = fst ` seats am"
    using names by (simp add: allocated_pods_set [OF ord] pod_names_def image_UN)
  have t1: "map (\<lambda>p. gc_trace session ?m (kpod_Name p) True) (spare_pods ord ru) =
      map (\<lambda>n. gc_trace session ?m n (idle am n)) ?sp"
    unfolding map_map comp_def
  proof (rule map_cong [OF refl])
    fix p
    assume "p \<in> set (spare_pods ord ru)"
    then have "kpod_Name p \<in> set ?sp" by simp
    then have "idle am (kpod_Name p)" unfolding sp using spare_idle by blast
    then show "gc_trace session ?m (kpod_Name p) True = gc_trace session ?m (kpod_Name p) (idle am (kpod_Name p))"
      by simp
  qed
  have t2: "map (\<lambda>p. gc_trace session ?m (pod_Name p) (podIsEmpty p)) (allocated_pods ord am) =
      map (\<lambda>n. gc_trace session ?m n (idle am n)) ?al"
    using podIsEmpty_idle [OF inv(1,2)] by (simp add: allocated_pods_set [OF ord])
  have trace: "manage_trace ord session am ru gs =
      concat (map (\<lambda>n. gc_trace session ?m n (idle am n)) (?sp @ ?al))"
    unfolding manage_trace_def t1 t2 by simp
  note m = gcRegistrationsMap_names [of gs]
  have "gc_known ?m (idle am) (?sp @ ?al) (gc_Name ` set gs)" using m by (simp add: gc_known_def)
  note effect = gc_loop_effect [OF conjunct1 [OF m] this, of session, folded trace]
  have "set (?sp @ ?al) = kpod_Name ` set items \<union> fst ` seats am"
  proof -
    have "spare ru t = {n \<in> kpod_Name ` set items. templateNameOf n = Some t} - set (pod_names am t)" for t
      using inv(3) spare_templatePodMapping [OF tm] by (simp add: spare_exact_def)
    then have "(\<Union>t. spare ru t) \<union> fst ` seats am = kpod_Name ` set items \<union> fst ` seats am"
      using templatePodMapping_named [OF tm] unfolding names [symmetric] by fastforce
    with sp al show ?thesis by simp
  qed
  then show ?thesis unfolding effect by auto
qed

end
