(* ===== verification/Demo.thy ===== *)
theory Demo
  imports GC_Registrations
begin

text \<open>
  One concrete session and cluster, on which the witnesses of the theorems about client pods are
  evaluated: the client \<open>a\<close> sits in a running pod, \<open>b\<close> and \<open>c\<close> are new, a client \<open>d\<close> has gone
  away; the template seats one client per pod and the cluster has one spare pod.
\<close>

definition demo_spec :: podSpec where
  "demo_spec = \<lparr>podSpec_Containers = [\<lparr>container_Ports =
     [\<lparr>port_Name = ''http'', port_Protocol = ''TCP'', port_ContainerPort = 80\<rparr>]\<rparr>]\<rparr>"

definition demo_pod :: "string \<Rightarrow> string \<Rightarrow> kpod" where
  "demo_pod n ready = \<lparr>kpod_Name = n, kpod_Namespace = ''default'',
     kpod_Labels = Some [(''type'', ''client'')], kpod_Controller = None, kpod_Spec = demo_spec,
     kpod_Conditions = [\<lparr>podCondition_Type = ''Ready'', podCondition_Status = ready\<rparr>]\<rparr>"

definition demo_now :: instant where
  "demo_now = 1700000000000000000"

definition demo_session :: session where
  "demo_session = \<lparr>session_Name = ''demo-1'', session_Namespace = ''default'',
     session_Annotations = None,
     session_Spec = \<lparr>spec_SessionPodTemplates = [\<lparr>template_Name = ''relay'', template_Spec = demo_spec\<rparr>],
       spec_ClientPodTemplates =
         [\<lparr>template_Name = ''web'', template_Spec = demo_spec, template_MaxClients = 1\<rparr>],
       spec_TimeoutSeconds = 10, spec_ReutilizeTimeoutSeconds = 20,
       spec_Clients = Some [(''a'', True), (''b'', True), (''c'', True), (''d'', False)]\<rparr>,
     session_Status = \<lparr>status_SessionPods = \<lparr>podsStatus_Conditions = [], podsStatus_PodsStatus = None\<rparr>,
       status_Clients = Some
         [(''a'', \<lparr>clientStatus_LastSeenAt = defaultTime, clientStatus_Ready = False,
             clientStatus_PodStatus = [(''demo-1-web-aaaa'', buildPodStatus ''demo-1-web-aaaa'' demo_spec)]\<rparr>),
          (''d'', \<lparr>clientStatus_LastSeenAt = defaultTime, clientStatus_Ready = True,
             clientStatus_PodStatus = [(''demo-1-web-dddd'', buildPodStatus ''demo-1-web-dddd'' demo_spec)]\<rparr>)]\<rparr>\<rparr>"

definition demo_items :: "kpod list" where
  "demo_items = [demo_pod ''demo-1-web-aaaa'' ''True'', demo_pod ''demo-1-web-ssss'' ''False'',
     demo_pod ''demo-1-web-dddd'' ''True'']"

definition demo_uuid :: "string \<Rightarrow> string \<Rightarrow> string" where
  "demo_uuid clientId templateName = clientId @ ''00000000''"

definition demo_service :: service where
  "demo_service = \<lparr>svc_Name = ''ingress-nginx-controller'', svc_Namespace = ''ingress-nginx'',
     svc_Labels = None, svc_Ports = [], svc_Selector = [], svc_LoadBalancerIPs = [''10.0.0.1'']\<rparr>"

text \<open>A server that has the session and its pods and accepts every write.\<close>

definition demo_kube :: kube where
  "demo_kube = \<lparr>api_Now = (\<lambda>_. demo_now),
     api_GetSession = (\<lambda>_ ns n. if n = ''demo-1'' then Inr demo_session else Inl NotFound),
     api_GetService = (\<lambda>_ _ _. Inr demo_service),
     api_GetPod = (\<lambda>_ _ n. case find (\<lambda>p. kpod_Name p = n) demo_items of
        None \<Rightarrow> Inl NotFound | Some p \<Rightarrow> Inr p),
     api_GetIngress = (\<lambda>_ _ _. Inl NotFound),
     api_ListPods = (\<lambda>_ _ _. Inr demo_items),
     api_ListGCRegistrations = (\<lambda>_ _ _. Inr []),
     api_ListServices = (\<lambda>_ _ _. Inr []),
     api_CreateNamespace = (\<lambda>_ _. Some AlreadyExists),
     api_CreateGCRegistration = (\<lambda>_ _. None),
     api_CreatePod = (\<lambda>_ _. None),
     api_CreateService = (\<lambda>_ s. Inr s),
     api_UpdateSessionStatus = (\<lambda>_ s. Inr s),
     api_UpdateSession = (\<lambda>_ s. Inr s),
     api_UpdateGCRegistration = (\<lambda>_ _. None),
     api_UpdateIngress = (\<lambda>_ _. None),
     api_DeleteGCRegistration = (\<lambda>_ _. None),
     api_DeletePod = (\<lambda>_ _. None),
     api_SetPodController = (\<lambda>s p. Inr (p\<lparr>kpod_Controller := Some
        \<lparr>owner_APIVersion = ''core.mr.telepresence/v1alpha1'', owner_Kind = ''Session'',
         owner_Name = session_Name s\<rparr>\<rparr>)),
     api_SetServiceController = (\<lambda>_ s. Inr s)\<rparr>"

abbreviation visit :: "'l \<Rightarrow> 'k list \<Rightarrow> 'k list" where
  "visit \<equiv> \<lambda>_ ks. ks"

lemma demo_clients [simp]:
  "entries (spec_Clients (session_Spec demo_session)) = [(''a'', True), (''b'', True), (''c'', True), (''d'', False)]"
  "session_Name demo_session = ''demo-1''"
  by (simp_all add: demo_session_def)

lemma demo_maps_ok: "session_maps_ok demo_session"
  by code_simp

lemma demo_names: "names_split demo_session" "distinct (map kpod_Name demo_items)"
  unfolding names_split_def by code_simp+

lemma status_pod_names_list:
  assumes "session_maps_ok session"
  shows "status_pod_names session = set (concat (map (\<lambda>(c, v). map_keys (clientStatus_PodStatus v))
    (entries (status_Clients (session_Status session)))))"
proof -
  have "map_of (entries (status_Clients (session_Status session))) c = Some v \<longleftrightarrow>
      (c, v) \<in> set (entries (status_Clients (session_Status session)))" for c v
    using assms by (simp add: session_maps_ok_def map_of_Some_in_set)
  then show ?thesis by (auto simp: status_pod_names_def split: prod.splits)
qed

lemma demo_status_names: "status_pod_names demo_session = {''demo-1-web-aaaa'', ''demo-1-web-dddd''}"
proof -
  have "concat (map (\<lambda>(c, v). map_keys (clientStatus_PodStatus v))
    (entries (status_Clients (session_Status demo_session)))) = [''demo-1-web-aaaa'', ''demo-1-web-dddd'']"
    by code_simp
  then show ?thesis unfolding status_pod_names_list [OF demo_maps_ok] by simp
qed

lemma demo_templates: "pods_of_templates demo_session"
proof -
  have "\<forall>n \<in> {''demo-1-web-aaaa'', ''demo-1-web-dddd''}. templateNameOf n = Some ''web''" by code_simp
  moreover have "template_Name ` set (spec_ClientPodTemplates (session_Spec demo_session)) = {''web''}"
    by (simp add: demo_session_def)
  ultimately show ?thesis unfolding pods_of_templates_def demo_status_names by auto
qed

lemma demo_uuid_fresh: "uuid_fresh demo_uuid demo_session demo_items"
proof -
  have "last (newPodName s t (demo_uuid c t)) = CHR ''0''" if "c \<in> {''a'', ''b'', ''c'', ''d''}" for s c t
    using that by (auto simp: newPodName_def demo_uuid_def)
  moreover have "\<forall>n \<in> kpod_Name ` set demo_items \<union> {''demo-1-web-aaaa'', ''demo-1-web-dddd''}. last n \<noteq> CHR ''0''"
    by code_simp
  ultimately have "newPodName (session_Name demo_session) t (demo_uuid c t) \<notin>
      kpod_Name ` set demo_items \<union> status_pod_names demo_session" if "c \<in> {''a'', ''b'', ''c'', ''d''}" for t c
    unfolding demo_status_names using that by blast
  moreover have "inj_on (\<lambda>c. newPodName (session_Name demo_session) t (demo_uuid c t)) {''a'', ''b'', ''c'', ''d''}" for t
    by (simp add: inj_on_def newPodName_def demo_uuid_def)
  moreover have "dom (map_of (entries (spec_Clients (session_Spec demo_session)))) = {''a'', ''b'', ''c'', ''d''}"
    by auto
  ultimately show ?thesis unfolding uuid_fresh_def by simp
qed

lemma demo_instant: "unix demo_now \<noteq> unix defaultTime"
  by code_simp

end
