(* ===== verification/Client_Properties.thy ===== *)
theory Client_Properties
  imports Demo
begin

text \<open>
  The theorems about client pods: what one call of \<open>ReconcileClientPods\<close> (\<open>client_pods.go\<close>)
  does to the status of the clients, to the pods and to the GC registrations, and what its
  allocation routines keep.
\<close>

section \<open>One call\<close>

abbreviation ownedClientPods :: "session \<Rightarrow> selector" where
  "ownedClientPods session \<equiv> [(''ownerField'', session_Name session), (''podTypeField'', ''client'')]"

lemma ReconcileClientPods_run:
  assumes "run_state (ReconcileClientPods K ord u ns session gs ip) h = (Some (Inr podsToSpawn, session'), h')"
  obtains items st am ru tm st' e where
    "api_ListPods K h ns (ownedClientPods session) = Inr items"
    "planClientPods ord u (api_Now K h) session items = Some (st, am, ru, tm)"
    "run_state (manageGCRegistrations K ord session am ru gs) (h @ [ListPods ns (ownedClientPods session)]) = (e, h')"
    "reconcilePods ord am st tm ip = Some (st', podsToSpawn)"
    "session' = with_status_clients st' session"
proof (cases "api_ListPods K h ns (ownedClientPods session)")
  case (Inl err)
  with assms show thesis by (simp add: ReconcileClientPods_def Let_def)
next
  case (Inr items)
  show thesis
  proof (cases "planClientPods ord u (api_Now K h) session items")
    case None
    with Inr assms show thesis by (simp add: ReconcileClientPods_def Let_def)
  next
    case (Some plan)
    obtain st am ru tm where plan: "plan = (st, am, ru, tm)" by (metis prod.exhaust)
    obtain e h1 where m: "run_state (manageGCRegistrations K ord session am ru gs)
        (h @ [ListPods ns (ownedClientPods session)]) = (e, h1)" by force
    from assms Inr Some plan m obtain st' where
      "reconcilePods ord am st tm ip = Some (st', podsToSpawn)" "h1 = h'"
      "session' = with_status_clients st' session"
      by (auto simp: ReconcileClientPods_def Let_def)
    with that [OF Inr Some [unfolded plan]] m show thesis by blast
  qed
qed

lemma status_clients_with [simp]:
  "entries (status_Clients (session_Status (with_status_clients st session))) = st"
  by (simp add: with_status_clients_def)

lemma agree_names:
  assumes "agree st am"
  shows "fst ` seats am = {n. \<exists>c v. map_of st c = Some v \<and> n \<in> dom (map_of (clientStatus_PodStatus v))}"
proof (intro set_eqI iffI)
  fix n
  assume "n \<in> fst ` seats am"
  with assms show "n \<in> {n. \<exists>c v. map_of st c = Some v \<and> n \<in> dom (map_of (clientStatus_PodStatus v))}"
    unfolding agree_def by force
next
  fix n
  assume "n \<in> {n. \<exists>c v. map_of st c = Some v \<and> n \<in> dom (map_of (clientStatus_PodStatus v))}"
  then obtain c v where "map_of st c = Some v" "n \<in> dom (map_of (clientStatus_PodStatus v))" by blast
  then have "(n, seat_of c v) \<in> seats am" using assms unfolding agree_def by blast
  then show "n \<in> fst ` seats am" by force
qed

lemma reconcilePods_presence:
  assumes "reconcilePods ord am st tm ip = Some (st', podsToSpawn)"
  shows "presence_of (map_of st' c) = presence_of (map_of st c)"
proof -
  let ?es = "all_seats tm ip (map (map_get_zero zero_allocationValue am) (ord RangeAllocationSpawn (map_keys am)))"
  have "fold_opt seat_turn ?es st = Some st'" using assms by (auto simp: reconcilePods_flat Let_def)
  then show ?thesis
  proof (rule fold_opt_invariant [where P = "\<lambda>s. presence_of (map_of s c) = presence_of (map_of st c)"])
    fix e s s'
    assume p: "presence_of (map_of s c) = presence_of (map_of st c)" and "seat_turn e s = Some s'"
    note turn = seat_turn_status [OF this(2)]
    show "presence_of (map_of s' c) = presence_of (map_of st c)"
    proof (cases "podClient_Id (seat_client e) = c")
      case False
      with turn p show ?thesis by simp
    next
      case True
      with turn p show ?thesis
        by (cases "map_of s c"; cases "map_of s' c") (auto simp: seat_status_def)
    qed
  qed simp
qed

text \<open>
  C1. The lifecycle of a client is the state machine \<open>client_next\<close>: after a call of
  \<open>ReconcileClientPods\<close> that ends without an error, the status of every client (absent, online, or
  away since an instant) is the next state from its status before the call and its entry in the
  spec, whatever the order in which the maps are visited and whatever the pods are.
\<close>

theorem client_lifecycle:
  assumes "permutes_keys ord" and "session_maps_ok session"
    and "unix (api_Now K h) \<noteq> unix defaultTime"
    and "run_state (ReconcileClientPods K ord u ns session gs ip) h = (Some (Inr podsToSpawn, session'), h')"
  shows "presence_of (map_of (entries (status_Clients (session_Status session'))) c) =
    client_next (api_Now K h) (spec_TimeoutSeconds (session_Spec session))
      (map_of (entries (spec_Clients (session_Spec session))) c)
      (presence_of (map_of (entries (status_Clients (session_Status session))) c))"
  using assms(4)
proof (rule ReconcileClientPods_run)
  fix items st am ru tm st' e
  assume "planClientPods ord u (api_Now K h) session items = Some (st, am, ru, tm)"
    "reconcilePods ord am st tm ip = Some (st', podsToSpawn)" "session' = with_status_clients st' session"
  with plan_presence [OF assms(1,2,3)] reconcilePods_presence show ?thesis by simp
qed

abbreviation demo_run :: "(apiError + kpod list) \<times> session \<Rightarrow> history \<Rightarrow> bool" where
  "demo_run r h \<equiv> run_state (ReconcileClientPods demo_kube visit demo_uuid ''default'' demo_session []
     (Some ''10.0.0.1'')) [] = (Some r, h)"

lemma run_result:
  assumes "case x of Some (Inr _, s) \<Rightarrow> P s | _ \<Rightarrow> False"
  obtains out s where "x = Some (Inr out, s)" "P s"
proof (cases x)
  case (Some p)
  obtain r s where p: "p = (r, s)" by force
  with Some assms that show thesis by (cases r) simp_all
qed (use assms in simp)

lemma demo_run_ok: "\<exists>out s h. demo_run (Inr out, s) h"
proof -
  let ?r = "run_state (ReconcileClientPods demo_kube visit demo_uuid ''default'' demo_session []
     (Some ''10.0.0.1'')) []"
  have "(case fst ?r of Some (Inr _, _) \<Rightarrow> True | _ \<Rightarrow> False)" by code_simp
  then obtain out s where "fst ?r = Some (Inr out, s)"
    by (auto split: option.splits sum.splits prod.splits)
  then show ?thesis by (metis prod.collapse)
qed

lemma demo_kube_now: "api_Now demo_kube h = demo_now"
  by (simp add: demo_kube_def)

lemma client_lifecycle_witness:
  "\<exists>out s h. demo_run (Inr out, s) h \<and>
     presence_of (map_of (entries (status_Clients (session_Status s))) ''b'') = Online \<and>
     presence_of (map_of (entries (status_Clients (session_Status s))) ''d'') = Away demo_now"
proof -
  from demo_run_ok obtain out s h where run: "demo_run (Inr out, s) h" by blast
  have "unix (api_Now demo_kube []) \<noteq> unix defaultTime" using demo_instant by (simp add: demo_kube_now)
  note next_state = client_lifecycle [OF permutes_keys_id demo_maps_ok this run, unfolded demo_kube_now]
  have "presence_of (map_of (entries (status_Clients (session_Status demo_session))) ''d'') = Online"
    by code_simp
  with run next_state [of "''b''"] next_state [of "''d''"] show ?thesis by auto
qed

text \<open>What a call relies on: maps, API answers, fresh names, and names that can be split.\<close>

definition client_call ::
    "kube \<Rightarrow> iteration \<Rightarrow> (string \<Rightarrow> string \<Rightarrow> string) \<Rightarrow> string \<Rightarrow> session \<Rightarrow> kpod list \<Rightarrow> history \<Rightarrow> bool" where
  "client_call K ord u ns session items h \<longleftrightarrow> permutes_keys ord \<and> session_maps_ok session \<and>
     api_ListPods K h ns (ownedClientPods session) = Inr items \<and> distinct (map kpod_Name items) \<and>
     uuid_fresh u session items \<and> names_split session \<and> pods_of_templates session"

text \<open>
  C6. After a call of \<open>ReconcileClientPods\<close> a client with pods is reported ready exactly when the
  ingress has an address and every pod in its status is a pod of the cluster whose condition
  \<open>Ready\<close> is true; and it is reported with the same pods that the plan gave it.
\<close>

theorem client_ready:
  assumes "client_call K ord u ns session items h"
    and "run_state (ReconcileClientPods K ord u ns session gs ip) h = (Some (Inr podsToSpawn, session'), h')"
    and "map_of (entries (status_Clients (session_Status session'))) c = Some v"
    and "clientStatus_PodStatus v \<noteq> []"
  shows "clientStatus_Ready v \<longleftrightarrow> (\<forall>n \<in> dom (map_of (clientStatus_PodStatus v)). up_in items ip n)"
  using assms(2)
proof (rule ReconcileClientPods_run)
  fix items' st am ru tm st' e
  assume i: "api_ListPods K h ns (ownedClientPods session) = Inr items'"
    and p: "planClientPods ord u (api_Now K h) session items' = Some (st, am, ru, tm)"
    and r: "reconcilePods ord am st tm ip = Some (st', podsToSpawn)"
    and s: "session' = with_status_clients st' session"
  have ord: "permutes_keys ord" and ok: "session_maps_ok session" and items: "items' = items"
    and dist: "distinct (map kpod_Name items)" and fresh: "uuid_fresh u session items"
    and names: "names_split session" "pods_of_templates session"
    using assms(1) i unfolding client_call_def by auto
  note e = plan_end_client_pods [OF ord ok fresh p [unfolded items]]
  note k = plan_end_names [OF ord ok names p]
  have "rel_option (\<lambda>v v'. reported (up_in items ip) (dom (map_of (clientStatus_PodStatus v))) v v')
      (map_of st c) (map_of st' c)"
    using reconcilePods_reported [OF ord e(2) dist _ _ _ r] k e(1) by (simp add: plan_end_def)
  with assms(3) s obtain w where w: "reported (up_in items ip) (dom (map_of (clientStatus_PodStatus w))) w v"
    by (cases "map_of st c") auto
  then have "dom (map_of (clientStatus_PodStatus w)) = dom (map_of (clientStatus_PodStatus v))"
    by (simp add: reported_dom)
  with w assms(4) have ready: "clientStatus_Ready v \<longleftrightarrow> (\<forall>s \<in> ran (map_of (clientStatus_PodStatus v)). podStatus_Ready s)"
    and up: "\<forall>n s. map_of (clientStatus_PodStatus v) n = Some s \<longrightarrow> podStatus_Ready s = up_in items ip n"
    unfolding reported_def by (auto simp: domIff)
  show ?thesis unfolding ready ran_def dom_def using up by blast
qed

lemma demo_call: "client_call demo_kube visit demo_uuid ''default'' demo_session demo_items []"
proof -
  have "api_ListPods demo_kube [] ''default'' (ownedClientPods demo_session) = Inr demo_items"
    by (simp add: demo_kube_def)
  then show ?thesis unfolding client_call_def
    using demo_maps_ok demo_names demo_uuid_fresh demo_templates by simp
qed

lemma client_ready_witness:
  "\<exists>out s h v. demo_run (Inr out, s) h \<and>
     map_of (entries (status_Clients (session_Status s))) ''a'' = Some v \<and>
     (clientStatus_Ready v \<longleftrightarrow>
        (\<forall>n \<in> dom (map_of (clientStatus_PodStatus v)). up_in demo_items (Some ''10.0.0.1'') n))"
proof -
  let ?r = "run_state (ReconcileClientPods demo_kube visit demo_uuid ''default'' demo_session []
     (Some ''10.0.0.1'')) []"
  have "(case fst ?r of Some (Inr _, s) \<Rightarrow> map_option clientStatus_PodStatus
      (map_of (entries (status_Clients (session_Status s))) ''a'') \<notin> {None, Some []} | _ \<Rightarrow> False)" by code_simp
  then obtain out s where rs: "fst ?r = Some (Inr out, s)" and v: "map_option clientStatus_PodStatus
      (map_of (entries (status_Clients (session_Status s))) ''a'') \<notin> {None, Some []}"
    by (rule run_result)
  from v obtain v where "map_of (entries (status_Clients (session_Status s))) ''a'' = Some v"
      "clientStatus_PodStatus v \<noteq> []" by auto
  note r = rs this
  then obtain h where run: "demo_run (Inr out, s) h" by (metis prod.collapse)
  with client_ready [OF demo_call run r(2,3)] r(2) show ?thesis by blast
qed

text \<open>The status names the pod, and it names it for a connected client.\<close>

definition has_pod :: "(string, clientStatus) gomap \<Rightarrow> string \<Rightarrow> bool" where
  "has_pod st n \<longleftrightarrow> (\<exists>c v. map_of st c = Some v \<and> n \<in> dom (map_of (clientStatus_PodStatus v)))"

definition in_use :: "(string, clientStatus) gomap \<Rightarrow> string \<Rightarrow> bool" where
  "in_use st n \<longleftrightarrow> (\<exists>c v. map_of st c = Some v \<and> n \<in> dom (map_of (clientStatus_PodStatus v)) \<and>
     isClientConnected v)"

lemma reconcilePods_names:
  assumes "reconcilePods ord am st tm ip = Some (st', podsToSpawn)"
  shows "map_option (dom \<circ> map_of \<circ> clientStatus_PodStatus) (map_of st' c) =
    map_option (dom \<circ> map_of \<circ> clientStatus_PodStatus) (map_of st c)"
proof -
  let ?es = "all_seats tm ip (map (map_get_zero zero_allocationValue am) (ord RangeAllocationSpawn (map_keys am)))"
  let ?names = "\<lambda>s. map_option (dom \<circ> map_of \<circ> clientStatus_PodStatus) (map_of s c)"
  have "fold_opt seat_turn ?es st = Some st'" using assms by (auto simp: reconcilePods_flat Let_def)
  then show ?thesis
  proof (rule fold_opt_invariant [where P = "\<lambda>s. ?names s = ?names st"])
    fix e s s'
    assume p: "?names s = ?names st" and "seat_turn e s = Some s'"
    note turn = seat_turn_status [OF this(2)]
    have "?names s' = ?names s"
    proof (cases "podClient_Id (seat_client e) = c")
      case True
      with turn show ?thesis by (cases "map_of s c"; cases "map_of s' c") (simp_all add: seat_status_dom)
    qed (use turn in simp)
    with p show "?names s' = ?names st" by simp
  qed simp
qed

lemma reconcilePods_has_pod:
  assumes "reconcilePods ord am st tm ip = Some (st', podsToSpawn)"
  shows "has_pod st' n \<longleftrightarrow> has_pod st n"
proof -
  have "(\<exists>v. map_of st' c = Some v \<and> n \<in> dom (map_of (clientStatus_PodStatus v))) \<longleftrightarrow>
      (\<exists>v. map_of st c = Some v \<and> n \<in> dom (map_of (clientStatus_PodStatus v)))" for c
    using reconcilePods_names [OF assms, of c] by (cases "map_of st c"; cases "map_of st' c") auto
  then show ?thesis by (simp add: has_pod_def)
qed

lemma status_names_with: "status_pod_names (with_status_clients st session) = {n. has_pod st n}"
  unfolding status_pod_names_def has_pod_def status_clients_with ..

lemma spawned_pods_exact:
  assumes "client_call K ord u ns session items h"
    and "run_state (ReconcileClientPods K ord u ns session gs ip) h = (Some (Inr podsToSpawn, session'), h')"
  shows "distinct (map kpod_Name podsToSpawn) \<and>
    kpod_Name ` set podsToSpawn = status_pod_names session' - kpod_Name ` set items \<and>
    (\<forall>k \<in> set podsToSpawn. \<exists>t. templateNameOf (kpod_Name k) = Some t \<and>
       k = clientPodObject (kpod_Name k) (template_Spec (template_of
         (initAllocationMap (spec_ClientPodTemplates (session_Spec session))) t)))"
  using assms(2)
proof (rule ReconcileClientPods_run)
  fix items' st am ru tm st' e
  assume i: "api_ListPods K h ns (ownedClientPods session) = Inr items'"
    and p: "planClientPods ord u (api_Now K h) session items' = Some (st, am, ru, tm)"
    and r: "reconcilePods ord am st tm ip = Some (st', podsToSpawn)"
    and s: "session' = with_status_clients st' session"
  have ord: "permutes_keys ord" and ok: "session_maps_ok session" and items: "items' = items"
    and dist: "distinct (map kpod_Name items)" and fresh: "uuid_fresh u session items"
    and names: "names_split session" "pods_of_templates session"
    using assms(1) i unfolding client_call_def by auto
  note e = plan_end_client_pods [OF ord ok fresh p [unfolded items]]
  note k = plan_end_names [OF ord ok names p]
  have inv: "pods_inv am ru" "map_ok am" "agree st am" using e(1) by (simp_all add: plan_end_def)
  have home: "home am" "template_keys am" using k by blast+
  have tmpl: "\<forall>t. template_of am t =
      template_of (initAllocationMap (spec_ClientPodTemplates (session_Spec session))) t" using k by blast
  note out = reconcilePods_spawned [OF ord e(2) dist home inv(1,2) r]
  have "status_pod_names session' = {n. has_pod st n}"
    unfolding s status_names_with reconcilePods_has_pod [OF r] ..
  then have "fst ` seats am = status_pod_names session'" by (simp add: agree_names [OF inv(3)] has_pod_def)
  moreover have "\<exists>t. templateNameOf (kpod_Name k) = Some t \<and>
       k = clientPodObject (kpod_Name k) (template_Spec (template_of
         (initAllocationMap (spec_ClientPodTemplates (session_Spec session))) t))"
    if "k \<in> set podsToSpawn" for k
    using out(3) [OF that] tmpl by metis
  ultimately show ?thesis using out(1,2) by blast
qed

text \<open>
  C7. The pods that a call of \<open>ReconcileClientPods\<close> asks to spawn are exactly the pods that the new
  status names and the cluster does not have, each once, with the spec of the template that the
  name belongs to.
\<close>

theorem pods_to_spawn:
  assumes "client_call K ord u ns session items h"
    and "run_state (ReconcileClientPods K ord u ns session gs ip) h = (Some (Inr podsToSpawn, session'), h')"
  shows "distinct (map kpod_Name podsToSpawn) \<and>
    kpod_Name ` set podsToSpawn = status_pod_names session' - kpod_Name ` set items \<and>
    (\<forall>k \<in> set podsToSpawn. \<exists>t. templateNameOf (kpod_Name k) = Some t \<and>
       k = clientPodObject (kpod_Name k) (template_Spec (template_of
         (initAllocationMap (spec_ClientPodTemplates (session_Spec session))) t)))"
  using assms by (rule spawned_pods_exact)

lemma pods_to_spawn_witness:
  "\<exists>out s h. demo_run (Inr out, s) h \<and>
     kpod_Name ` set out = status_pod_names s - kpod_Name ` set demo_items"
proof -
  from demo_run_ok obtain out s h where run: "demo_run (Inr out, s) h" by blast
  from pods_to_spawn [OF demo_call run] run show ?thesis by blast
qed

lemma registered_iff_idle:
  assumes "client_call K ord u ns session items h0"
    and "planClientPods ord u now session items = Some (st, am, ru, tm)"
    and "run_state (manageGCRegistrations K ord session am ru gs) h = (None, h')"
  shows "\<exists>t. h' = h @ t \<and> registered_after t (gc_Name ` set gs) =
    {n. if n \<in> kpod_Name ` set items \<or> has_pod st n then \<not> in_use st n else n \<in> gc_Name ` set gs}"
proof -
  have ord: "permutes_keys ord" and ok: "session_maps_ok session" and fresh: "uuid_fresh u session items"
    and names: "names_split session" "pods_of_templates session"
    using assms(1) unfolding client_call_def by auto
  note e = plan_end_client_pods [OF ord ok fresh assms(2)]
  have inv: "pods_inv am ru" "agree st am" "spare_exact tm am ru" "sub_pods ru tm" "home am"
    using e(1) plan_end_names [OF ord ok names assms(2)] by (simp_all add: plan_end_def)
  have seats: "seats am = {(n, seat_of c v) | n c v. map_of st c = Some v \<and>
     n \<in> dom (map_of (clientStatus_PodStatus v))}"
    using inv(2) by (simp add: agree_def)
  have idle: "idle am n \<longleftrightarrow> \<not> in_use st n" for n
  proof -
    have "idle am n \<longleftrightarrow> (\<forall>c v. map_of st c = Some v \<and>
      n \<in> dom (map_of (clientStatus_PodStatus v)) \<longrightarrow> \<not> podClient_Connected (seat_of c v))"
      unfolding idle_def seats by blast
    then show ?thesis unfolding in_use_def by simp blast
  qed
  have named: "n \<in> fst ` seats am \<longleftrightarrow> has_pod st n" for n
    unfolding agree_names [OF inv(2)] has_pod_def by blast
  show ?thesis
    using manageGCRegistrations_run(1) [OF assms(3)] manage_trace_effect [OF ord e(2) inv(1,5,3,4)]
    by (auto simp: idle named)
qed

text \<open>
  C8. When \<open>manageGCRegistrations\<close> reports no error for the plan of a session, the requests it made
  leave a pod of the session (in the cluster or in the status) registered for garbage collection
  exactly when no connected client of the status has it, and every other registration as it was.
\<close>

theorem gc_registered_iff_idle:
  assumes "client_call K ord u ns session items h0"
    and "planClientPods ord u now session items = Some (st, am, ru, tm)"
    and "run_state (manageGCRegistrations K ord session am ru gs) h = (None, h')"
  shows "\<exists>t. h' = h @ t \<and> registered_after t (gc_Name ` set gs) =
    {n. if n \<in> kpod_Name ` set items \<or> has_pod st n then \<not> in_use st n else n \<in> gc_Name ` set gs}"
  using assms by (rule registered_iff_idle)

lemma gc_registered_iff_idle_witness:
  "\<exists>st am ru tm h' t. planClientPods visit demo_uuid demo_now demo_session demo_items = Some (st, am, ru, tm) \<and>
     run_state (manageGCRegistrations demo_kube visit demo_session am ru []) [] = (None, h') \<and>
     registered_after h' {} = {n. if n \<in> kpod_Name ` set demo_items \<or> has_pod st n
       then \<not> in_use st n else n \<in> gc_Name ` set []}"
proof -
  have "case planClientPods visit demo_uuid demo_now demo_session demo_items of None \<Rightarrow> False
    | Some (st, am, ru, tm) \<Rightarrow>
        fst (run_state (manageGCRegistrations demo_kube visit demo_session am ru []) []) = None"
    by code_simp
  then obtain st am ru tm where
    p: "planClientPods visit demo_uuid demo_now demo_session demo_items = Some (st, am, ru, tm)" and
    m: "fst (run_state (manageGCRegistrations demo_kube visit demo_session am ru []) []) = None"
    by (auto split: option.splits)
  from m obtain h' where h: "run_state (manageGCRegistrations demo_kube visit demo_session am ru []) [] = (None, h')"
    by (metis prod.collapse)
  from gc_registered_iff_idle [OF demo_call p h] have
    "registered_after h' {} = {n. if n \<in> kpod_Name ` set demo_items \<or> has_pod st n
       then \<not> in_use st n else n \<in> gc_Name ` set []}" by simp
  with p h show ?thesis by blast
qed

end
