(* ===== verification/Client_Totality.thy ===== *)
theory Client_Totality
  imports Client_Results
begin

text \<open>
  \<open>ReconcileClientPods\<close> does not panic: when the names of the pods can be split and their paths are
  those the program builds, every slice, index and map access of the function is in range, and the
  status it leaves has these properties again.
\<close>

section \<open>The invariant\<close>

text \<open>The pods in a status have names with a template and paths as the program builds them.\<close>

definition pods_ok :: "(string, clientStatus) gomap \<Rightarrow> bool" where
  "pods_ok st \<longleftrightarrow> (\<forall>c v n s. map_of st c = Some v \<longrightarrow> map_of (clientStatus_PodStatus v) n = Some s \<longrightarrow>
     templateNameOf n \<noteq> None \<and> paths_ok s)"

definition session_ok :: "session \<Rightarrow> bool" where
  "session_ok session \<longleftrightarrow> session_maps_ok session \<and> names_split session \<and> pods_of_templates session \<and>
     pods_ok (entries (status_Clients (session_Status session)))"

lemma pods_okD: "pods_ok st \<Longrightarrow> map_of st c = Some v \<Longrightarrow> map_of (clientStatus_PodStatus v) n = Some s \<Longrightarrow>
    templateNameOf n \<noteq> None \<and> paths_ok s"
  unfolding pods_ok_def by blast

lemma pods_ok_names: "pods_ok st \<Longrightarrow> map_of st c = Some v \<Longrightarrow>
    \<forall>n \<in> dom (map_of (clientStatus_PodStatus v)). templateNameOf n \<noteq> None"
  unfolding pods_ok_def by blast

lemma pods_ok_from:
  assumes "pods_ok st" and "\<And>c v. map_of st' c = Some v \<Longrightarrow>
    \<exists>w. map_of st c = Some w \<and> clientStatus_PodStatus v = clientStatus_PodStatus w"
  shows "pods_ok st'"
  unfolding pods_ok_def
proof (intro allI impI)
  fix c v n s
  assume "map_of st' c = Some v" and s: "map_of (clientStatus_PodStatus v) n = Some s"
  then obtain w where "map_of st c = Some w" "clientStatus_PodStatus v = clientStatus_PodStatus w"
    using assms(2) by blast
  with s pods_okD [OF assms(1), of c w n s] show "templateNameOf n \<noteq> None \<and> paths_ok s" by simp
qed

section \<open>The plan\<close>

lemma status_loop_total:
  assumes "permutes_keys ord" and "pods_ok st"
  shows "\<exists>r. fold_opt (reconcileStatusClient ord spec) cs (st, am, ru) = Some r"
proof -
  have "\<exists>t. reconcileStatusClient ord spec c m = Some t \<and> pods_ok (fst t)" if "pods_ok (fst m)" for c m
  proof -
    obtain st1 am1 ru1 where m: "m = (st1, am1, ru1)" by (metis prod.exhaust)
    show ?thesis
    proof (cases "map_of st1 c")
      case None
      with that m show ?thesis by (simp add: reconcileStatusClient_def)
    next
      case (Some v)
      show ?thesis
      proof (cases "map_of spec c")
        case None
        have "pods_ok (map_del c st1)"
          by (rule pods_ok_from [of st1]) (use that m in \<open>auto split: if_splits\<close>)
        with Some None m show ?thesis by (simp add: reconcileStatusClient_def)
      next
        case s: (Some b)
        from that m Some have "\<forall>n \<in> dom (map_of (clientStatus_PodStatus v)). templateNameOf n \<noteq> None"
          using pods_ok_names by simp
        from buildAllocationMap_total [OF assms(1) this] obtain m' where
          "buildAllocationMap ord c v (isClientConnected v) (am1, ru1) = Some m'" by blast
        moreover obtain am2 ru2 where "m' = (am2, ru2)" by force
        ultimately show ?thesis using that m Some s by (simp add: reconcileStatusClient_def)
      qed
    qed
  qed
  then have "\<exists>t. fold_opt (reconcileStatusClient ord spec) cs (st, am, ru) = Some t \<and> pods_ok (fst t)"
    by (intro fold_opt_total) (use assms(2) in simp_all)
  then show ?thesis by blast
qed

lemma home_sort_total:
  assumes "home am" and "map_ok am"
  shows "\<exists>am'. sortAllocationMap am = Some am'"
proof (rule sortAllocationMap_total, clarify)
  fix t v p
  assume "(t, v) \<in> set am" and p: "p \<in> set (alloc_Pods v)"
  then have "map_of am t = Some v" using assms(2) map_of_Some_in_set by metis
  with p have "pod_Name p \<in> set (pod_names am t)" by (simp add: pod_names_def)
  with assms(1) show "pod_named p" by (rule home_pod_named)
qed

lemma planClientPods_total:
  assumes ord: "permutes_keys ord" and ok: "session_maps_ok session"
    and pods: "pods_ok (entries (status_Clients (session_Status session)))"
    and items: "\<forall>p \<in> set items. templateNameOf (kpod_Name p) \<noteq> None"
  shows "\<exists>r. planClientPods ord u now session items = Some r"
proof -
  obtain st1 new where s: "planStatus ord now session = (st1, new)" by force
  note st1 = planStatus_spec [OF ord ok s]
  have ok1: "pods_ok st1" by (rule pods_ok_from [OF pods]) (use st1(5) in blast)
  obtain tm where tm: "templatePodMapping items = Some tm" using templatePodMapping_total items by blast
  from status_loop_total [OF ord ok1] obtain r where
    "fold_opt (reconcileStatusClient ord (entries (spec_Clients (session_Spec session))))
       (ord RangeStatusClients (map_keys st1))
       (st1, initAllocationMap (spec_ClientPodTemplates (session_Spec session)), tm) = Some r" by blast
  moreover obtain st2 am2 ru2 where "r = (st2, am2, ru2)" by (metis prod.exhaust)
  ultimately have loop: "fold_opt (reconcileStatusClient ord (entries (spec_Clients (session_Spec session))))
       (ord RangeStatusClients (map_keys st1))
       (st1, initAllocationMap (spec_ClientPodTemplates (session_Spec session)), tm) = Some (st2, am2, ru2)" by simp
  have "home am2" "map_ok am2" using plan_middle_status(1) [OF ord ok s tm loop] unfolding plan_middle_def by blast+
  from home_sort_total [OF this] obtain am3 where "sortAllocationMap am2 = Some am3" by blast
  with s tm loop show ?thesis by (simp add: planClientPods_def planStatus_def Let_def split: prod.splits)
qed

lemma allocateClients_map_ok:
  assumes "allocateClients ord u s cs (am, ru, st) = (am', ru', st')" and "map_ok st"
  shows "map_ok st'"
proof -
  have one: "map_ok (snd (snd (allocateClient ord u s c m)))" if "map_ok (snd (snd m))" for c m
    using that by (auto simp: allocateClient_def Let_def split: prod.splits)
  have "map_ok (snd (snd (fold (allocateClient ord u s) cs m)))" if "map_ok (snd (snd m))" for m
    using that by (induction cs arbitrary: m) (simp_all add: one)
  from this [of "(am, ru, st)"] assms show ?thesis by (simp add: allocateClients_def)
qed

text \<open>The status at the end of the plan has the invariant; every pod in it is a pod of a template.\<close>

lemma plan_end_pods:
  assumes ord: "permutes_keys ord" and ok: "session_ok session" and fresh: "uuid_fresh u session items"
    and plan: "planClientPods ord u now session items = Some (st, am, ru, tm)"
    and st: "map_of st c = Some v" "n \<in> dom (map_of (clientStatus_PodStatus v))"
  shows "\<exists>t \<in> template_Name ` set (spec_ClientPodTemplates (session_Spec session)). templateNameOf n = Some t"
proof -
  have maps: "session_maps_ok session" and split: "names_split session" "pods_of_templates session"
    using ok by (simp_all add: session_ok_def)
  have am: "home am" "dom (map_of am) = template_Name ` set (spec_ClientPodTemplates (session_Spec session))"
    using plan_end_names [OF ord maps split plan] by blast+
  have "agree st am" using plan_end_client_pods(1) [OF ord maps fresh plan] unfolding plan_end_def by blast
  with st have "(n, seat_of c v) \<in> seats am" unfolding agree_def by blast
  then obtain t p where p: "p \<in> set (pods_of am t)" "n = pod_Name p" by (auto simp: seats_def seats_in_def)
  then have "n \<in> set (pod_names am t)" by (simp add: pod_names_def)
  with am(1) have "templateNameOf n = Some t" unfolding home_def by blast
  moreover have "t \<in> dom (map_of am)" using p(1) by (cases "map_of am t") (auto simp: pods_of_absent)
  ultimately show ?thesis using am(2) by blast
qed

lemma plan_end_paths:
  assumes ord: "permutes_keys ord" and ok: "session_ok session"
    and plan: "planClientPods ord u now session items = Some (st, am, ru, tm)"
  shows "map_ok st \<and> (\<forall>c v. map_of st c = Some v \<longrightarrow> ran (map_of (clientStatus_PodStatus v)) \<subseteq> Collect paths_ok)"
  using plan
proof (cases rule: planClientPods_split)
  case (1 st1 new st2 am2 ru2)
  have maps: "session_maps_ok session" and pods: "pods_ok (entries (status_Clients (session_Status session)))"
    using ok by (simp_all add: session_ok_def)
  note st1 = planStatus_spec [OF ord maps 1(1)]
  note middle = plan_middle_status [OF ord maps 1(1,2,3)]
  have ok2: "map_ok st2" using middle(1) unfolding plan_middle_def by blast
  have "pods_ok st2"
  proof (rule pods_ok_from [OF pods])
    show "\<exists>w. map_of (entries (status_Clients (session_Status session))) c = Some w \<and>
        clientStatus_PodStatus v = clientStatus_PodStatus w" if "map_of st2 c = Some v" for c v
      using that st1(5) [of c v] middle(2) [of c] by (auto split: if_splits)
  qed
  then have paths2: "ran (map_of (clientStatus_PodStatus v)) \<subseteq> Collect paths_ok" if "map_of st2 c = Some v" for c v
    using that pods_okD by (force simp: ran_def)
  show ?thesis using 1(4)
  proof (elim disjE conjE exE)
    assume "st = st2"
    with ok2 paths2 show ?thesis by blast
  next
    fix am3
    assume s: "sortAllocationMap am2 = Some am3"
      and a: "allocateClients ord u (session_Name session) new (am3, ru2, st2) = (am, ru, st)"
    have "map_ok am3" using plan_middle_sort [OF middle(1) s] unfolding plan_middle_def by blast
    from allocateClients_seats [OF ord this st1(3) a] obtain f where
      f: "\<forall>c. c \<notin> set new \<longrightarrow> map_of st c = map_of st2 c"
      "\<forall>c \<in> set new. \<exists>v. map_of st c = Some v \<and> new_client_status (f c ` dom (map_of am3)) v" by blast
    have "ran (map_of (clientStatus_PodStatus v)) \<subseteq> Collect paths_ok" if "map_of st c = Some v" for c v
    proof (cases "c \<in> set new")
      case True
      with f(2) that have "new_client_status (f c ` dom (map_of am3)) v" by force
      then show ?thesis unfolding new_client_status_def fresh_pod_status_def by blast
    next
      case False
      with f(1) that paths2 show ?thesis by simp
    qed
    with allocateClients_map_ok [OF a ok2] show ?thesis by blast
  qed
qed

section \<open>The report\<close>

definition all_paths_ok :: "(string, clientStatus) gomap \<Rightarrow> bool" where
  "all_paths_ok st \<longleftrightarrow> map_ok st \<and>
     (\<forall>c v. map_of st c = Some v \<longrightarrow> ran (map_of (clientStatus_PodStatus v)) \<subseteq> Collect paths_ok)"

lemma seat_turn_keeps:
  assumes "all_paths_ok st" and "CHR ''/'' \<notin> set (seat_ip e)" and "seat_turn e st = Some st'"
  shows "all_paths_ok st'"
proof (cases "map_of st (podClient_Id (seat_client e))")
  case None
  with assms show ?thesis by (simp add: seat_turn_def setOneClientReadiness_def)
next
  case (Some v)
  then have v: "ran (map_of (clientStatus_PodStatus v)) \<subseteq> Collect paths_ok" and st: "map_ok st"
    using assms(1) unfolding all_paths_ok_def by blast+
  have put: "all_paths_ok (map_put c w st)" if "ran (map_of (clientStatus_PodStatus w)) \<subseteq> Collect paths_ok" for c w
    using assms(1) that by (simp add: all_paths_ok_def)
  show ?thesis
  proof (cases "map_of (clientStatus_PodStatus v) (seat_pod e)")
    case None
    with Some assms(3) put [of "v\<lparr>clientStatus_Ready := True\<rparr>"] v show ?thesis
      by (auto simp: seat_turn_def setOneClientReadiness_def)
  next
    case s: (Some s)
    let ?t = "s\<lparr>podStatus_Ready := seat_up e\<rparr>"
    from v s have t: "paths_ok ?t" by (auto simp: ran_def paths_ok_def)
    let ?r = "if seat_ip e \<noteq> [] then concatIngressExternalIpToPodPaths (seat_ip e) ?t else Some ?t"
    from assms(3) Some s obtain t' where t': "?r = Some t'"
      by (cases ?r) (simp_all add: seat_turn_def setOneClientReadiness_def)
    have "paths_ok t'" using t t' concat_paths_ok [OF t assms(2)] by (auto split: if_splits)
    with v have "ran (map_of (map_put (seat_pod e) t' (clientStatus_PodStatus v))) \<subseteq> Collect paths_ok"
      by (auto simp: ran_def)
    with Some s t' assms(3) put show ?thesis
      by (auto simp: seat_turn_def setOneClientReadiness_def Let_def)
  qed
qed

lemma seat_loop_total:
  assumes "all_paths_ok st" and "\<forall>e \<in> set es. CHR ''/'' \<notin> set (seat_ip e)"
  shows "\<exists>st'. fold_opt seat_turn es st = Some st' \<and> all_paths_ok st'"
proof (rule fold_opt_total [where P = all_paths_ok], rule assms(1))
  fix e st
  assume e: "e \<in> set es" and st: "all_paths_ok st"
  have "paths_ok s" if "map_of st c = Some v" "map_of (clientStatus_PodStatus v) n = Some s" for c v n s
    using st that unfolding all_paths_ok_def by (blast intro: ranI)
  then obtain st' where "seat_turn e st = Some st'" using seat_turn_total assms(2) e by metis
  with seat_turn_keeps [OF st _ this] assms(2) e show "\<exists>t. seat_turn e st = Some t \<and> all_paths_ok t" by blast
qed

lemma all_seats_ip:
  assumes "\<forall>a \<in> set_option ip. CHR ''/'' \<notin> set a" and "e \<in> set (all_seats tm ip avs)"
  shows "CHR ''/'' \<notin> set (seat_ip e)"
  using assms by (cases ip) (auto simp: all_seats_def pod_seats_def pod_ip_def pod_up_def)

lemma reconcilePods_total:
  assumes "all_paths_ok st" and "\<forall>a \<in> set_option ip. CHR ''/'' \<notin> set a"
  shows "\<exists>st' out. reconcilePods ord am st tm ip = Some (st', out) \<and> all_paths_ok st'"
  using seat_loop_total [OF assms(1)] all_seats_ip [OF assms(2)]
  unfolding reconcilePods_flat Let_def by fastforce

end
