(* ===== verification/Client_Total_Properties.thy ===== *)
theory Client_Total_Properties
  imports Client_Properties Client_Totality
begin

text \<open>
  Two theorems about repeated calls of \<open>ReconcileClientPods\<close>: a call returns and leaves a session on
  which the next call returns as well, and a call that finds the pods of the status in the cluster
  asks for no more pods.
\<close>

section \<open>A call returns\<close>

lemma same_spec_with [simp]:
  "session_Spec (with_status_clients st session) = session_Spec session"
  "session_Name (with_status_clients st session) = session_Name session"
  by (simp_all add: with_status_clients_def)

lemma session_ok_after:
  assumes ok: "session_ok session" and st: "all_paths_ok st"
    and names: "\<And>n. has_pod st n \<Longrightarrow>
      \<exists>t \<in> template_Name ` set (spec_ClientPodTemplates (session_Spec session)). templateNameOf n = Some t"
  shows "session_ok (with_status_clients st session)"
  unfolding session_ok_def
proof (intro conjI)
  show "session_maps_ok (with_status_clients st session)"
    using ok st by (simp add: session_ok_def session_maps_ok_def all_paths_ok_def)
  show "names_split (with_status_clients st session)"
    using ok by (simp add: session_ok_def names_split_def)
  show "pods_of_templates (with_status_clients st session)"
    unfolding pods_of_templates_def status_names_with same_spec_with using names by fastforce
  have "templateNameOf n \<noteq> None \<and> paths_ok s"
    if "map_of st c = Some v" "map_of (clientStatus_PodStatus v) n = Some s" for c v n s
  proof -
    have "has_pod st n" using that unfolding has_pod_def by blast
    from names [OF this] have "templateNameOf n \<noteq> None" by auto
    moreover have "paths_ok s" using st that unfolding all_paths_ok_def by (blast intro: ranI)
    ultimately show ?thesis ..
  qed
  then show "pods_ok (entries (status_Clients (session_Status (with_status_clients st session))))"
    unfolding pods_ok_def status_clients_with by blast
qed

text \<open>What a call needs from the cluster and the ingress, beside \<open>client_call\<close>.\<close>

definition cluster_ok :: "kpod list \<Rightarrow> string option \<Rightarrow> bool" where
  "cluster_ok items ip \<longleftrightarrow> (\<forall>p \<in> set items. templateNameOf (kpod_Name p) \<noteq> None) \<and>
     (\<forall>a \<in> set_option ip. CHR ''/'' \<notin> set a)"

lemma ReconcileClientPods_returns:
  assumes call: "client_call K ord u ns session items h" and ok: "session_ok session"
    and cluster: "cluster_ok items ip"
  shows "\<exists>podsToSpawn session' h'.
    run_state (ReconcileClientPods K ord u ns session gs ip) h = (Some (Inr podsToSpawn, session'), h') \<and>
    session_ok session'"
proof -
  have ord: "permutes_keys ord" and maps: "session_maps_ok session" and fresh: "uuid_fresh u session items"
    and list: "api_ListPods K h ns (ownedClientPods session) = Inr items"
    using call unfolding client_call_def by blast+
  obtain st am ru tm where plan: "planClientPods ord u (api_Now K h) session items = Some (st, am, ru, tm)"
    using planClientPods_total [OF ord maps] ok cluster
    unfolding session_ok_def cluster_ok_def by (metis prod.exhaust)
  have "all_paths_ok st" using plan_end_paths [OF ord ok plan] unfolding all_paths_ok_def by blast
  then obtain st' out where out: "reconcilePods ord am st tm ip = Some (st', out)" and st': "all_paths_ok st'"
    using reconcilePods_total cluster unfolding cluster_ok_def by meson
  have "\<exists>t \<in> template_Name ` set (spec_ClientPodTemplates (session_Spec session)). templateNameOf n = Some t"
    if "has_pod st' n" for n
  proof -
    from that have "has_pod st n" by (simp add: reconcilePods_has_pod [OF out])
    then show ?thesis using plan_end_pods [OF ord ok fresh plan] unfolding has_pod_def by blast
  qed
  from session_ok_after [OF ok st' this] have "session_ok (with_status_clients st' session)" .
  moreover obtain e h' where "run_state (manageGCRegistrations K ord session am ru gs)
      (h @ [ListPods ns (ownedClientPods session)]) = (e, h')" by force
  with list plan out have "run_state (ReconcileClientPods K ord u ns session gs ip) h =
      (Some (Inr out, with_status_clients st' session), h')"
    by (simp add: ReconcileClientPods_def Let_def)
  ultimately show ?thesis by blast
qed

text \<open>
  A call of \<open>ReconcileClientPods\<close> returns without a panic and without an error when the list of
  the pods succeeds, the names of the pods and their paths have the form the program gives them and
  the address of the ingress has no slash; the session it leaves has this form again, and so have
  the pods it asks for.
\<close>

theorem client_pods_total:
  assumes "client_call K ord u ns session items h" and "session_ok session" and "cluster_ok items ip"
  shows "\<exists>podsToSpawn session' h'.
    run_state (ReconcileClientPods K ord u ns session gs ip) h = (Some (Inr podsToSpawn, session'), h') \<and>
    session_ok session' \<and> cluster_ok (items @ podsToSpawn) ip"
proof -
  from ReconcileClientPods_returns [OF assms] obtain out session' h' where
    r: "run_state (ReconcileClientPods K ord u ns session gs ip) h = (Some (Inr out, session'), h')"
    "session_ok session'" by blast
  have "\<forall>k \<in> set out. templateNameOf (kpod_Name k) \<noteq> None"
    using spawned_pods_exact [OF assms(1) r(1)] by auto
  then have "cluster_ok (items @ out) ip" using assms(3) by (auto simp: cluster_ok_def)
  with r show ?thesis by blast
qed

lemma demo_session_ok: "session_ok demo_session"
proof -
  have "pods_ok (entries (status_Clients (session_Status demo_session)))"
    unfolding pods_ok_def
  proof (intro allI impI)
    fix c v n s
    assume "map_of (entries (status_Clients (session_Status demo_session))) c = Some v"
      and "map_of (clientStatus_PodStatus v) n = Some s"
    then have "n \<in> {''demo-1-web-aaaa'', ''demo-1-web-dddd''}" and "s = buildPodStatus n demo_spec"
      by (auto simp: demo_session_def split: if_splits)
    moreover have "\<forall>n \<in> {''demo-1-web-aaaa'', ''demo-1-web-dddd''}. templateNameOf n \<noteq> None" by code_simp
    ultimately show "templateNameOf n \<noteq> None \<and> paths_ok s" using paths_ok_build by blast
  qed
  then show ?thesis using demo_maps_ok demo_names demo_templates by (simp add: session_ok_def)
qed

lemma demo_cluster_ok: "cluster_ok demo_items (Some ''10.0.0.1'')"
  unfolding cluster_ok_def by code_simp

lemma client_pods_total_witness:
  "\<exists>out s h. demo_run (Inr out, s) h \<and> session_ok s"
  using client_pods_total [OF demo_call demo_session_ok demo_cluster_ok] by blast

section \<open>Repeated calls settle\<close>

text \<open>A client that is online has its pods, so the plan does not allocate it again.\<close>

lemma online_not_new:
  assumes "permutes_keys ord" and "session_maps_ok session" and "planStatus ord now session = (st1, new)"
    and "presence_of (map_of (entries (status_Clients (session_Status session))) c) = Online"
  shows "c \<notin> set new"
proof
  assume new: "c \<in> set new"
  let ?st = "entries (status_Clients (session_Status session))"
  let ?clean = "cleanExpiredClientsFromStatus ord now ?st (spec_TimeoutSeconds (session_Spec session))"
  have ok: "map_ok (entries (spec_Clients (session_Spec session)))" "map_ok ?st"
    using assms(2) by (auto simp: session_maps_ok_def)
  have h: "handleClientChanges ord now (entries (spec_Clients (session_Spec session))) ?clean = (st1, new)"
    using assms(3) by (simp add: planStatus_def)
  have "map_of ?clean c = None"
    using new assms(1) handleClientChanges_spec(2) [OF assms(1) ok(1) h]
    by (auto simp: go_order_simps is_new_client_def)
  then show False
    using assms(4) by (auto simp: map_of_cleanExpired [OF assms(1) ok(2)] clientHasExpired_def split: option.splits if_splits)
qed

text \<open>A plan without new clients names pods of the status only.\<close>

lemma plan_without_new:
  assumes ord: "permutes_keys ord" and ok: "session_maps_ok session"
    and plan: "planClientPods ord u now session items = Some (st, am, ru, tm)"
    and online: "\<And>c. map_of (entries (spec_Clients (session_Spec session))) c = Some True \<Longrightarrow>
      presence_of (map_of (entries (status_Clients (session_Status session))) c) = Online"
  shows "{n. has_pod st n} \<subseteq> status_pod_names session"
  using plan
proof (cases rule: planClientPods_split)
  case (1 st1 new st2 am2 ru2)
  note st1 = planStatus_spec [OF ord ok 1(1)]
  have "c \<notin> set new" for c
    using st1(4) [of c] online [of c] online_not_new [OF ord ok 1(1), of c] by blast
  then have "new = []" by (cases new) auto
  with 1(4) have "st = st2" by simp
  moreover have "\<exists>w. map_of (entries (status_Clients (session_Status session))) c = Some w \<and>
      clientStatus_PodStatus v = clientStatus_PodStatus w" if "map_of st2 c = Some v" for c v
    using that plan_middle_status(2) [OF ord ok 1(1-3), of c] st1(5) [of c v] by (auto split: if_splits)
  ultimately show ?thesis unfolding has_pod_def status_pod_names_def by fastforce
qed

lemma settled_call:
  assumes call: "client_call K ord u ns session items h"
    and online: "\<And>c. map_of (entries (spec_Clients (session_Spec session))) c = Some True \<Longrightarrow>
      presence_of (map_of (entries (status_Clients (session_Status session))) c) = Online"
    and pods: "status_pod_names session \<subseteq> kpod_Name ` set items"
    and run: "run_state (ReconcileClientPods K ord u ns session gs ip) h = (Some (Inr podsToSpawn, session'), h')"
  shows "podsToSpawn = [] \<and> status_pod_names session' \<subseteq> status_pod_names session"
  using run
proof (rule ReconcileClientPods_run)
  fix items' st am ru tm st' e
  assume p: "planClientPods ord u (api_Now K h) session items' = Some (st, am, ru, tm)"
    and r: "reconcilePods ord am st tm ip = Some (st', podsToSpawn)"
    and s: "session' = with_status_clients st' session"
  have ord: "permutes_keys ord" and ok: "session_maps_ok session" using call unfolding client_call_def by blast+
  have "status_pod_names session' = {n. has_pod st n}"
    unfolding s status_names_with reconcilePods_has_pod [OF r] ..
  with plan_without_new [OF ord ok p online] have sub: "status_pod_names session' \<subseteq> status_pod_names session" by simp
  with pods have "status_pod_names session' - kpod_Name ` set items = {}" by blast
  with spawned_pods_exact [OF call run] sub show ?thesis by simp
qed

lemma online_after_call:
  assumes call: "client_call K ord u ns session items h" and now: "unix (api_Now K h) \<noteq> unix defaultTime"
    and run: "run_state (ReconcileClientPods K ord u ns session gs ip) h = (Some (Inr podsToSpawn, session'), h')"
    and c: "map_of (entries (spec_Clients (session_Spec session'))) c = Some True"
  shows "presence_of (map_of (entries (status_Clients (session_Status session'))) c) = Online"
  using run
proof (rule ReconcileClientPods_run)
  fix items' st am ru tm st' e
  assume p: "planClientPods ord u (api_Now K h) session items' = Some (st, am, ru, tm)"
    and r: "reconcilePods ord am st tm ip = Some (st', podsToSpawn)"
    and s: "session' = with_status_clients st' session"
  have "permutes_keys ord" "session_maps_ok session" using call unfolding client_call_def by blast+
  from plan_presence [OF this now p, of c] c s reconcilePods_presence [OF r, of c] show ?thesis by simp
qed

text \<open>
  C9. Calls of \<open>ReconcileClientPods\<close> settle: when the pods in the status that a call left are in the
  cluster and the clients of the spec did not change, the next call, at any later time and in any
  order of the maps, returns, asks for no pod, and its status names no pod that was not there.
\<close>

theorem client_pods_settle:
  assumes "client_call K ord u ns session items h" and "unix (api_Now K h) \<noteq> unix defaultTime"
    and "session_ok session"
    and "run_state (ReconcileClientPods K ord u ns session gs ip) h = (Some (Inr podsToSpawn, session1), h1)"
    and "client_call K' ord' u' ns session1 items1 h1'" and "cluster_ok items ip" and "cluster_ok items1 ip1"
    and "status_pod_names session1 \<subseteq> kpod_Name ` set items1"
  shows "\<exists>session2 h2.
    run_state (ReconcileClientPods K' ord' u' ns session1 gs1 ip1) h1' = (Some (Inr [], session2), h2) \<and>
    status_pod_names session2 \<subseteq> status_pod_names session1"
proof -
  have "session_ok session1"
    using ReconcileClientPods_returns [OF assms(1,3,6), of gs] assms(4) by auto
  from ReconcileClientPods_returns [OF assms(5) this assms(7), of gs1] obtain out session2 h2 where
    r: "run_state (ReconcileClientPods K' ord' u' ns session1 gs1 ip1) h1' = (Some (Inr out, session2), h2)" by blast
  from settled_call [OF assms(5) online_after_call [OF assms(1,2,4)] assms(8) r] r show ?thesis by blast
qed

text \<open>The demonstration cluster after its first call, with the pods the call asked for.\<close>

lemma demo_second_call:
  assumes run: "demo_run (Inr out, s) h" and fresh: "\<forall>k \<in> set out. last (kpod_Name k) \<noteq> CHR ''1''"
  shows "client_call (demo_kube\<lparr>api_ListPods := \<lambda>_ _ _. Inr (demo_items @ out)\<rparr>) visit
    (\<lambda>c t. c @ ''11111111'') ''default'' s (demo_items @ out) h"
    and "status_pod_names s \<subseteq> kpod_Name ` set (demo_items @ out)"
    and "cluster_ok (demo_items @ out) (Some ''10.0.0.1'')"
proof -
  note out = spawned_pods_exact [OF demo_call run]
  have ok: "session_ok s"
    using ReconcileClientPods_returns [OF demo_call demo_session_ok demo_cluster_ok, of "[]"] run by auto
  from run obtain st where s: "s = with_status_clients st demo_session" by (rule ReconcileClientPods_run)
  show sub: "status_pod_names s \<subseteq> kpod_Name ` set (demo_items @ out)" using out by auto
  have "\<forall>n \<in> kpod_Name ` set demo_items. last n \<noteq> CHR ''1''" by code_simp
  then have old: "\<forall>n \<in> kpod_Name ` set (demo_items @ out) \<union> status_pod_names s. last n \<noteq> CHR ''1''"
    using fresh sub by auto
  have "last (newPodName n t (c @ ''11111111'')) = CHR ''1''" if "c \<in> {''a'', ''b'', ''c'', ''d''}" for n t c
    using that by (auto simp: newPodName_def)
  then have "newPodName n t (c @ ''11111111'') \<notin> kpod_Name ` set (demo_items @ out) \<union> status_pod_names s"
    if "c \<in> {''a'', ''b'', ''c'', ''d''}" for n t c using that old by blast
  moreover have "inj_on (\<lambda>c. newPodName n t (c @ ''11111111'')) {''a'', ''b'', ''c'', ''d''}" for n t
    by (simp add: inj_on_def newPodName_def)
  moreover have "dom (map_of (entries (spec_Clients (session_Spec s)))) = {''a'', ''b'', ''c'', ''d''}"
    by (auto simp: s)
  ultimately have "uuid_fresh (\<lambda>c t. c @ ''11111111'') s (demo_items @ out)"
    unfolding uuid_fresh_def by simp
  moreover have "distinct (map kpod_Name (demo_items @ out))" using out demo_names(2) by auto
  ultimately show "client_call (demo_kube\<lparr>api_ListPods := \<lambda>_ _ _. Inr (demo_items @ out)\<rparr>) visit
      (\<lambda>c t. c @ ''11111111'') ''default'' s (demo_items @ out) h"
    using ok by (simp add: client_call_def session_ok_def)
  show "cluster_ok (demo_items @ out) (Some ''10.0.0.1'')"
    using out demo_cluster_ok by (auto simp: cluster_ok_def)
qed

lemma client_pods_settle_witness:
  "\<exists>out s h s2 h2. demo_run (Inr out, s) h \<and> out \<noteq> [] \<and>
     run_state (ReconcileClientPods (demo_kube\<lparr>api_ListPods := \<lambda>_ _ _. Inr (demo_items @ out)\<rparr>) visit
       (\<lambda>c t. c @ ''11111111'') ''default'' s [] (Some ''10.0.0.1'')) h = (Some (Inr [], s2), h2)"
proof -
  let ?r = "run_state (ReconcileClientPods demo_kube visit demo_uuid ''default'' demo_session []
     (Some ''10.0.0.1'')) []"
  have "case fst ?r of Some (Inr out, _) \<Rightarrow> out \<noteq> [] \<and> list_all (\<lambda>k. last (kpod_Name k) \<noteq> CHR ''1'') out
    | _ \<Rightarrow> False" by code_simp
  then obtain out s where "fst ?r = Some (Inr out, s)" and out: "out \<noteq> []"
      "\<forall>k \<in> set out. last (kpod_Name k) \<noteq> CHR ''1''"
    by (auto simp: list_all_iff split: option.splits sum.splits prod.splits)
  then obtain h where run: "demo_run (Inr out, s) h" by (metis prod.collapse)
  have "unix (api_Now demo_kube []) \<noteq> unix defaultTime" using demo_instant by (simp add: demo_kube_now)
  from client_pods_settle [OF demo_call this demo_session_ok run demo_second_call(1) [OF run out(2)]
      demo_cluster_ok demo_second_call(3,2) [OF run out(2)]] run out(1)
  show ?thesis by blast
qed

end
