(* ===== verification/Allocation_Properties.thy ===== *)
theory Allocation_Properties
  imports Demo
begin

text \<open>
  The theorems about the placement of new clients: \<open>allocateClients\<close>, \<open>sortAllocationMap\<close> and the
  names and paths of \<open>client_pods.go\<close>.
\<close>

section \<open>A small allocation map\<close>

definition demo_template :: clientPodTemplate where
  "demo_template = \<lparr>template_Name = ''web'', template_Spec = demo_spec, template_MaxClients = 2\<rparr>"

definition demo_map :: allocationMap where
  "demo_map = [(''web'', \<lparr>alloc_PodTemplate = demo_template,
     alloc_Pods = [\<lparr>pod_Name = ''demo-1-web-aaaa'', pod_Clients = [connected ''a'']\<rparr>]\<rparr>)]"

lemma demo_map_ok: "map_ok demo_map"
  by code_simp

lemma demo_map_pods: "pods_of demo_map t =
    (if t = ''web'' then [\<lparr>pod_Name = ''demo-1-web-aaaa'', pod_Clients = [connected ''a'']\<rparr>] else [])"
  by (simp add: demo_map_def pods_of_def map_get_zero_def zero_allocationValue_def)

lemma demo_map_inv: "pods_inv demo_map []"
  by (simp add: pods_inv_def pod_names_def demo_map_pods spare_def)

section \<open>Properties\<close>

text \<open>
  No template gets over its capacity: if before \<open>allocateClients\<close> no pod of a template has more
  than \<open>MaxClients\<close> clients (or one, where \<open>MaxClients\<close> is below one), then none has afterwards.
\<close>

theorem capacity:
  assumes "permutes_keys ord" and "map_ok am" and "\<And>t. room_in (max_of am t) (pods_of am t)"
    and "allocateClients ord u s new (am, ru, st) = (am', ru', st')"
  shows "room_in (max_of am' t) (pods_of am' t)"
proof -
  have "room_in (max_of am t) (pods_of am' t) \<and> map_keys am' = map_keys am \<and> template_of am' t = template_of am t"
    by (rule allocateClients_invariant [OF assms(1,2,4)]) (use assms(3) placed_room in blast)+
  then show ?thesis by simp
qed

lemma capacity_witness:
  "\<exists>am' ru' st'. allocateClients visit demo_uuid ''demo-1'' [''b'', ''c''] (demo_map, [], []) = (am', ru', st') \<and>
     room_in (max_of am' ''web'') (pods_of am' ''web'')"
proof -
  obtain am' ru' st' where
    run: "allocateClients visit demo_uuid ''demo-1'' [''b'', ''c''] (demo_map, [], []) = (am', ru', st')"
    by (metis prod.exhaust)
  have "room_in (max_of demo_map t) (pods_of demo_map t)" for t
    by (simp add: room_in_def demo_map_pods)
  from capacity [OF permutes_keys_id demo_map_ok this run] run show ?thesis by blast
qed

lemma allocate_descending:
  assumes ord: "permutes_keys ord" and "map_ok am" and "\<And>t. descending (pods_of am t)"
    and "\<And>t p. p \<in> set (pods_of am t) \<Longrightarrow> pod_Clients p \<noteq> []"
    and "allocateClients ord u s new (am, ru, st) = (am', ru', st')"
  shows "(descending (pods_of am' t) \<and> (\<forall>p \<in> set (pods_of am' t). pod_Clients p \<noteq> [])) \<and>
    map_keys am' = map_keys am \<and> template_of am' t = template_of am t"
proof (rule allocateClients_invariant [OF assms(1,2,5)])
  fix c t n ps sp ps' sp'
  assume p: "placed (connected c) (max_of am t) (newPodName s t (u c t)) ps sp n ps' sp'"
    and d: "descending ps \<and> (\<forall>p \<in> set ps. pod_Clients p \<noteq> [])"
  with placed_descending [OF p] placed_nonempty [OF p]
  show "descending ps' \<and> (\<forall>p \<in> set ps'. pod_Clients p \<noteq> [])" by blast
qed (use assms(3,4) in blast)

lemma sort_descending:
  assumes "home am" and "sortAllocationMap am = Some am'"
  shows "descending (pods_of am' t)"
proof (cases "map_of am t")
  case None
  then show ?thesis
    using sortAllocationMap_lookup(2) [OF assms(2), of t] by (simp add: descending_def)
next
  case (Some v)
  have "pod_named p" if "p \<in> set (alloc_Pods v)" for p
    by (rule home_pod_named [OF assms(1), of _ t]) (use that Some in \<open>simp add: pod_names_def\<close>)
  then obtain ps where ps: "sort_slice podBefore (alloc_Pods v) = Some ps"
      "sorted_wrt (\<lambda>p q. pod_rank q \<le> pod_rank p) ps"
    using by_rank.sort_slice_sorts [of "alloc_Pods v"] by blast
  then have "pods_of am' t = ps"
    using sortAllocationMap_lookup(2) [OF assms(2), of t] Some by simp
  with sorted_by_count [OF ps(2)] show ?thesis by (simp add: descending_def)
qed

text \<open>
  C10. The placement is best fit: after the sort, when its turn comes every new client joins in
  every template a fullest pod among those with room, or gets a pod of its own at the end if no pod
  has room.
\<close>

theorem best_fit_placement:
  assumes "permutes_keys ord" and "map_ok am0" and "pods_inv am0 ru0" and "home am0"
    and "sortAllocationMap am0 = Some am"
    and "allocateClients ord u s before (am, ru, st) = (am1, ru1, st1)"
    and "allocateClient ord u s c (am1, ru1, st1) = (am2, ru2, st2)"
    and "t \<in> dom (map_of am0)"
  shows "best_fit (connected c) (max_of am0 t) (pods_of am1 t) (pods_of am2 t)"
proof -
  note sets = sort_sets [OF assms(5)]
  have ok: "map_ok am" using assms(2) sets(6) by simp
  have nonempty: "pod_Clients p \<noteq> []" if "p \<in> set (pods_of am t)" for t p
    using assms(3) that sets(2) [of t] unfolding pods_inv_def by blast
  have before: "descending (pods_of am1 t) \<and> map_keys am1 = map_keys am \<and> template_of am1 t = template_of am t"
    using allocate_descending [OF assms(1) ok sort_descending [OF assms(4,5)] nonempty assms(6), of "\<lambda>t _. t" t]
    by blast
  have keys: "map_keys am1 = map_keys am" using before by blast
  then have "map_ok am1" "dom (map_of am1) = dom (map_of am0)"
    using ok sets(7) by (simp_all add: map_ok_def flip: set_map_keys)
  with allocateClient_placed [OF assms(1) this(1) assms(7)] assms(8) obtain f where
    "placed (connected c) (max_of am1 t) (newPodName s t (u c t)) (pods_of am1 t) (spare ru1 t) (f t)
       (pods_of am2 t) (spare ru2 t)"
    unfolding placed_all_def by metis
  moreover have "template_of am1 t = template_of am0 t" using before sets(5) by simp
  ultimately show ?thesis using placed_best_fit before by metis
qed

lemma best_fit_placement_witness:
  "\<exists>am am2 ru2 st2. sortAllocationMap demo_map = Some am \<and>
     allocateClient visit demo_uuid ''demo-1'' ''b'' (am, [], []) = (am2, ru2, st2) \<and>
     best_fit (connected ''b'') (max_of demo_map ''web'') (pods_of am ''web'') (pods_of am2 ''web'')"
proof -
  have "sortAllocationMap demo_map \<noteq> None" by code_simp
  then obtain am where s: "sortAllocationMap demo_map = Some am" by auto
  obtain am2 ru2 st2 where
    run: "allocateClient visit demo_uuid ''demo-1'' ''b'' (am, [], []) = (am2, ru2, st2)" by (metis prod.exhaust)
  have "templateNameOf ''demo-1-web-aaaa'' = Some ''web''" by code_simp
  then have home: "home demo_map" by (simp add: home_def pod_names_def demo_map_pods)
  have "allocateClients visit demo_uuid ''demo-1'' [] (am, [], []) = (am, [], [])"
    by (simp add: allocateClients_def)
  moreover have "''web'' \<in> dom (map_of demo_map)" by (simp add: demo_map_def)
  ultimately show ?thesis
    using best_fit_placement [OF permutes_keys_id demo_map_ok demo_map_inv home s _ run] s run by blast
qed

text \<open>
  Every new client gets exactly one pod in every template of the map: \<open>allocateClients\<close> adds
  for each new client and each template one seat and no other seat, and writes into the status of
  the client exactly these pods, not ready, with the client connected; the status of the other
  clients stays.
\<close>

theorem one_pod_per_template:
  assumes "permutes_keys ord" and "map_ok am" and "distinct new"
    and "allocateClients ord u s new (am, ru, st) = (am', ru', st')"
  shows "\<exists>f. (\<forall>t. seats_in (pods_of am' t) = seats_in (pods_of am t) \<union>
        (if t \<in> dom (map_of am) then (\<lambda>c. (f c t, connected c)) ` set new else {})) \<and>
      (\<forall>c. c \<notin> set new \<longrightarrow> map_of st' c = map_of st c) \<and>
      (\<forall>c \<in> set new. \<exists>v. map_of st' c = Some v \<and> new_client_status (f c ` dom (map_of am)) v)"
  using assms by (rule allocateClients_seats)

lemma one_pod_per_template_witness:
  "\<exists>am' ru' st' n. allocateClients visit demo_uuid ''demo-1'' [''b'', ''c''] (demo_map, [], []) = (am', ru', st') \<and>
     (n, connected ''c'') \<in> seats_in (pods_of am' ''web'')"
proof -
  obtain am' ru' st' where
    run: "allocateClients visit demo_uuid ''demo-1'' [''b'', ''c''] (demo_map, [], []) = (am', ru', st')"
    by (metis prod.exhaust)
  have "distinct [''b'', ''c'']" by simp
  from one_pod_per_template [OF permutes_keys_id demo_map_ok this run] show ?thesis
  proof (elim exE conjE)
    fix f
    assume "\<forall>t. seats_in (pods_of am' t) = seats_in (pods_of demo_map t) \<union>
        (if t \<in> dom (map_of demo_map) then (\<lambda>c. (f c t, connected c)) ` set [''b'', ''c''] else {})"
    then have "seats_in (pods_of am' ''web'') = seats_in (pods_of demo_map ''web'') \<union>
        (if ''web'' \<in> dom (map_of demo_map) then (\<lambda>c. (f c ''web'', connected c)) ` set [''b'', ''c''] else {})" ..
    moreover have "''web'' \<in> dom (map_of demo_map)" by (simp add: demo_map_def)
    ultimately have "(f ''c'' ''web'', connected ''c'') \<in> seats_in (pods_of am' ''web'')"
      by (simp only: if_True) (rule UnI2, rule imageI, simp)
    with run show ?thesis by blast
  qed
qed

text \<open>
  C11. \<open>allocateClients\<close> keeps the allocation map sound and never gives a pod away twice: in every
  template the pods have different names and at least one client each, no allocated pod is spare,
  and the spare pods are the pods of the cluster that are not allocated, provided the texts drawn
  from \<open>uuid.New\<close> give names that are not in use.
\<close>

theorem allocation_sound:
  assumes "permutes_keys ord" and "map_ok am" and "pods_inv am ru" and "spare_exact tm am ru"
    and "fresh_names u s new am ru" and "allocateClients ord u s new (am, ru, st) = (am', ru', st')"
  shows "pods_inv am' ru' \<and> spare_exact tm am' ru'"
  using allocateClients_pods_inv [OF assms(1-3,5,6)] allocateClients_spare_exact [OF assms(1-3,5,4,6)] ..

lemma allocation_sound_witness:
  "\<exists>am' ru' st'. allocateClients visit demo_uuid ''demo-1'' [''b'', ''c''] (demo_map, [], []) = (am', ru', st') \<and>
     pods_inv am' ru' \<and> spare_exact [] am' ru'"
proof -
  obtain am' ru' st' where
    run: "allocateClients visit demo_uuid ''demo-1'' [''b'', ''c''] (demo_map, [], []) = (am', ru', st')"
    by (metis prod.exhaust)
  have sp: "spare_exact [] demo_map []" by (simp add: spare_exact_def spare_def)
  have "last (newPodName ''demo-1'' t (demo_uuid c t)) = CHR ''0''" if "c \<in> {''b'', ''c''}" for c t
    using that by (auto simp: newPodName_def demo_uuid_def)
  moreover have "last ''demo-1-web-aaaa'' \<noteq> CHR ''0''" by simp
  ultimately have "newPodName ''demo-1'' t (demo_uuid c t) \<noteq> ''demo-1-web-aaaa''" if "c \<in> {''b'', ''c''}" for c t
    using that by metis
  moreover have "set (pod_names demo_map t) \<union> spare [] t \<subseteq> {''demo-1-web-aaaa''}" for t
    by (auto simp: pod_names_def demo_map_pods spare_def)
  moreover have "distinct (map (\<lambda>c. newPodName ''demo-1'' t (demo_uuid c t)) [''b'', ''c''])" for t
    by (simp add: newPodName_def demo_uuid_def)
  ultimately have "fresh_names demo_uuid ''demo-1'' [''b'', ''c''] demo_map []"
    unfolding fresh_names_def by fastforce
  from allocation_sound [OF permutes_keys_id demo_map_ok demo_map_inv sp this run] run show ?thesis by blast
qed

text \<open>
  The name of a new pod can be read back: for a session name with exactly one dash and a
  template name without one, the template that \<open>strings.Split(podName, "-")[2]\<close> finds is the one the
  pod was made for, and two such names of a session are equal only for the same template and the
  same first four characters of the UUID.
\<close>

theorem pod_name_round_trip:
  assumes "count_list s (CHR ''-'') = 1" and "CHR ''-'' \<notin> set t" and "CHR ''-'' \<notin> set t'"
  shows "templateNameOf (newPodName s t u) = Some t \<and>
    (newPodName s t u = newPodName s t' u' \<longrightarrow> t = t' \<and> take 4 u = take 4 u')"
  using templateNameOf_newPodName [OF assms(1,2)] newPodName_inject [OF _ assms(2,3)] by blast

lemma pod_name_round_trip_witness:
  "templateNameOf (newPodName ''demo-1'' ''web'' ''0a1b2c3d'') = Some ''web''"
  using pod_name_round_trip [of "''demo-1''" "''web''" "''web''"] by simp

text \<open>
  The address in the paths of a pod can be changed any number of times: for paths made by
  \<open>buildPodStatus\<close>, \<open>concatIngressExternalIpToPodPaths\<close> succeeds for every address without a slash,
  and a second call with another address gives what a first call with that address would have given.
\<close>

theorem paths_refresh:
  assumes "CHR ''/'' \<notin> set ip"
  shows "\<exists>st. concatIngressExternalIpToPodPaths ip (buildPodStatus n spec) = Some st \<and>
    concatIngressExternalIpToPodPaths ip' st = concatIngressExternalIpToPodPaths ip' (buildPodStatus n spec)"
  using concat_paths_ok [OF paths_ok_build assms] concat_paths_refresh [OF paths_ok_build assms] by blast

lemma paths_refresh_witness:
  "\<exists>st. concatIngressExternalIpToPodPaths ''10.0.0.1'' (buildPodStatus ''p'' demo_spec) = Some st \<and>
    concatIngressExternalIpToPodPaths ''10.0.0.2'' st =
      concatIngressExternalIpToPodPaths ''10.0.0.2'' (buildPodStatus ''p'' demo_spec)"
  by (rule paths_refresh) simp

end
