(* ===== verification/Session_Pods.thy ===== *)
theory Session_Pods
  imports GC_Registrations
begin

text \<open>
  The pods that a session has once: \<open>session_pods.go\<close>, the conditions of \<open>utils/conditions.go\<close> and
  \<open>SpawnPod\<close> of \<open>utils/pods.go\<close>.  An operation that changes the session through its pointer returns
  the changed session; \<open>None\<close> is a panic.
\<close>

section \<open>Loops that change a state and may panic\<close>

fun loop_io ::
    "('a \<Rightarrow> 's \<Rightarrow> (apiError option \<times> 's) option io) \<Rightarrow> 'a list \<Rightarrow> 's
       \<Rightarrow> (apiError option \<times> 's) option io" where
  "loop_io f [] s = ret (Some (None, s))"
| "loop_io f (x # xs) s = do {
     r \<leftarrow> f x s;
     (case r of
        None \<Rightarrow> ret None
      | Some (Some err, s') \<Rightarrow> ret (Some (Some err, s'))
      | Some (None, s') \<Rightarrow> loop_io f xs s') }"

section \<open>The Ready condition\<close>

text \<open>\<open>containsCondition\<close> visits all conditions and returns the last index that matches, or -1.\<close>

fun containsConditionFrom :: "int \<Rightarrow> int \<Rightarrow> string \<Rightarrow> condition list \<Rightarrow> int" where
  "containsConditionFrom index i conditionType [] = index"
| "containsConditionFrom index i conditionType (c # cs) =
     containsConditionFrom (if condition_Type c = conditionType then i else index) (i + 1) conditionType cs"

definition session_conditions :: "session \<Rightarrow> condition list" where
  "session_conditions session = podsStatus_Conditions (status_SessionPods (session_Status session))"

definition with_conditions :: "condition list \<Rightarrow> session \<Rightarrow> session" where
  "with_conditions cs session = session\<lparr>session_Status := (session_Status session)\<lparr>status_SessionPods :=
     (status_SessionPods (session_Status session))\<lparr>podsStatus_Conditions := cs\<rparr>\<rparr>\<rparr>"

definition containsCondition :: "session \<Rightarrow> string \<Rightarrow> int" where
  "containsCondition session conditionType =
     containsConditionFrom (- 1) 0 conditionType (session_conditions session)"

text \<open>\<open>removeConditionAtIndex\<close> is called with an index of the list only.\<close>

definition removeConditionAtIndex :: "int \<Rightarrow> session \<Rightarrow> session" where
  "removeConditionAtIndex index session = with_conditions
     (take (nat index) (session_conditions session) @ drop (nat index + 1) (session_conditions session))
     session"

definition appendCondition ::
    "instant \<Rightarrow> string \<Rightarrow> string \<Rightarrow> string \<Rightarrow> string \<Rightarrow> session \<Rightarrow> session" where
  "appendCondition now conditionType status reason message session = with_conditions
     (session_conditions session @ [\<lparr>condition_Type = conditionType, condition_Status = status,
        condition_Reason = reason, condition_Message = message, condition_LastTransitionTime = now\<rparr>])
     session"

definition SetReadyCondition ::
    "instant \<Rightarrow> string \<Rightarrow> string \<Rightarrow> string \<Rightarrow> session \<Rightarrow> session" where
  "SetReadyCondition now status reason message session =
     (let index = containsCondition session ''Ready'' in
      if index \<noteq> - 1
      then appendCondition now ''Ready'' status reason message (removeConditionAtIndex index session)
      else appendCondition now ''Ready'' status reason message session)"

text \<open>The clock is read when the condition is made.\<close>

definition setReady :: "kube \<Rightarrow> string \<Rightarrow> string \<Rightarrow> string \<Rightarrow> session \<Rightarrow> session io" where
  "setReady K status reason message session = do {
     now \<leftarrow> peek (api_Now K);
     ret (SetReadyCondition now status reason message session) }"

section \<open>Spawning a pod\<close>

definition SpawnPod :: "kube \<Rightarrow> session \<Rightarrow> kpod \<Rightarrow> apiError option option io" where
  "SpawnPod K session pod =
     (case Option.bind (nilmap_put ''telepresence'' ''true'' (kpod_Labels pod))
         (nilmap_put ''svc'' (kpod_Name pod)) of
        None \<Rightarrow> ret None
      | Some labels \<Rightarrow>
          (case api_SetPodController K session
               (pod\<lparr>kpod_Labels := labels, kpod_Namespace := ''default''\<rparr>) of
             Inl err \<Rightarrow> ret (Some (Some err))
           | Inr pod \<Rightarrow> do {
               err \<leftarrow> call (CreatePod pod) (\<lambda>h. api_CreatePod K h pod);
               (if err \<noteq> None \<and> err \<noteq> Some AlreadyExists then ret (Some err)
                else ret (Some None)) }))"

section \<open>The status of the session pods\<close>

definition with_pods_status :: "(string, podStatus) nilmap \<Rightarrow> session \<Rightarrow> session" where
  "with_pods_status m session = session\<lparr>session_Status := (session_Status session)\<lparr>status_SessionPods :=
     (status_SessionPods (session_Status session))\<lparr>podsStatus_PodsStatus := m\<rparr>\<rparr>\<rparr>"

definition pods_status :: "session \<Rightarrow> (string, podStatus) nilmap" where
  "pods_status session = podsStatus_PodsStatus (status_SessionPods (session_Status session))"

definition buildPodsStatus :: "podTemplate list \<Rightarrow> string \<Rightarrow> session \<Rightarrow> session option" where
  "buildPodsStatus templates ingressServiceExternalIp session = do {
     podsStatusMap \<leftarrow> fold_opt (\<lambda>template m. do {
         let podName = sessionPodName (session_Name session) (template_Name template);
         podStatus \<leftarrow> concatIngressExternalIpToPodPaths ingressServiceExternalIp
           (buildPodStatus podName (template_Spec template));
         Some (map_put podName podStatus m) }) templates [];
     Some (with_pods_status (Some podsStatusMap) session) }"

definition setPodsStatusToTrue :: "iteration \<Rightarrow> (string, podStatus) nilmap \<Rightarrow> (string, podStatus) nilmap" where
  "setPodsStatusToTrue ord podsStatus = map_option (\<lambda>m.
     fold (\<lambda>pod m. map_put pod ((map_get_zero zero_podStatus m pod)\<lparr>podStatus_Ready := True\<rparr>) m)
       (ord RangeSessionPods (map_keys m)) m) podsStatus"

definition sessionPodObject :: "string \<Rightarrow> podSpec \<Rightarrow> kpod" where
  "sessionPodObject key spec =
     \<lparr>kpod_Name = key, kpod_Namespace = [], kpod_Labels = Some [(''type'', ''session'')],
      kpod_Controller = None, kpod_Spec = spec, kpod_Conditions = []\<rparr>"

definition restorePod ::
    "kube \<Rightarrow> string list \<Rightarrow> podTemplate \<Rightarrow> session \<Rightarrow> (apiError option \<times> session) option io" where
  "restorePod K foundPods template session =
     (let key = sessionPodName (session_Name session) (template_Name template) in
      if key \<in> set foundPods then ret (Some (None, session))
      else
        (case nilmap_put key ((map_get_zero zero_podStatus (entries (pods_status session)) key)
              \<lparr>podStatus_Ready := False\<rparr>) (pods_status session) of
           None \<Rightarrow> ret None
         | Some m \<Rightarrow> do {
             let session = with_pods_status m session;
             r \<leftarrow> SpawnPod K session (sessionPodObject key (template_Spec template));
             ret (map_option (\<lambda>err. (err, session)) r) }))"

definition restorePods ::
    "kube \<Rightarrow> kpod list \<Rightarrow> podTemplate list \<Rightarrow> session \<Rightarrow> (apiError option \<times> session) option io" where
  "restorePods K foundPods podTemplates session =
     loop_io (restorePod K (map kpod_Name foundPods)) podTemplates session"

section \<open>GC registrations of the session pods\<close>

definition countConnectedClients :: "(string, bool) gomap \<Rightarrow> int" where
  "countConnectedClients specClients = int (length (filter snd specClients))"

definition registerSessionPod ::
    "kube \<Rightarrow> session \<Rightarrow> int \<Rightarrow> (string, gcRegistration) gomap \<Rightarrow> kpod \<Rightarrow> apiError option io" where
  "registerSessionPod K session connectedClients registrations pod =
     (case map_of registrations (kpod_Name pod) of
        None \<Rightarrow>
          if connectedClients = 0
          then createGCRegistration K (kpod_Name pod) (session_Name session) (session_Namespace session)
          else ret None
      | Some gcRegistration \<Rightarrow>
          if connectedClients \<noteq> 0 then deleteGCRegistration K gcRegistration else ret None)"

definition manageGCRegistrationsForSessionPods ::
    "kube \<Rightarrow> session \<Rightarrow> int \<Rightarrow> kpod list \<Rightarrow> gcRegistration list \<Rightarrow> apiError option io" where
  "manageGCRegistrationsForSessionPods K session connectedClients foundPods gcRegistrations =
     for_each (registerSessionPod K session connectedClients (gcRegistrationsMap gcRegistrations)) foundPods"

section \<open>The operation\<close>

text \<open>
  The result is the error and the session as the pointer leaves it.  The error of
  \<open>manageGCRegistrationsForSessionPods\<close> is dropped, and a nil address of the ingress panics, as in
  the code.
\<close>

definition ReconcileSessionPods ::
    "kube \<Rightarrow> iteration \<Rightarrow> string \<Rightarrow> session \<Rightarrow> gcRegistration list \<Rightarrow> string option
       \<Rightarrow> (apiError option \<times> session) option io" where
  "ReconcileSessionPods K ord namespace session gcRegistrations ingressServiceExternalIp = do {
     let fieldSelector = [(''ownerField'', session_Name session), (''podTypeField'', ''session'')];
     sessionPods \<leftarrow> call (ListPods namespace fieldSelector)
       (\<lambda>h. api_ListPods K h namespace fieldSelector);
     (case sessionPods of
        Inl err \<Rightarrow> do {
          session \<leftarrow> setReady K ''Unknown'' ''FailedGetSessionPods'' ''Failed to get the session pods'' session;
          ret (Some (Some err, session)) }
      | Inr items \<Rightarrow>
          let templates = spec_SessionPodTemplates (session_Spec session);
              connectedClients = countConnectedClients (entries (spec_Clients (session_Spec session)))
          in (case Option.bind ingressServiceExternalIp (\<lambda>ip. buildPodsStatus templates ip session) of
             None \<Rightarrow> ret None
           | Some session \<Rightarrow> do {
               _ \<leftarrow> manageGCRegistrationsForSessionPods K session connectedClients items gcRegistrations;
               (if length templates = length items then
                  (if PodsAreReady items then do {
                     session \<leftarrow> setReady K ''True'' ''SessionPodsReady''
                       ''All the session pods present the ready contidion set to true''
                       (with_pods_status (setPodsStatusToTrue ord (pods_status session)) session);
                     ret (Some (None, session)) }
                   else do {
                     session \<leftarrow> setReady K ''False'' ''SessionPodsNotReady''
                       ''At least one session pod presents the ready contidion set to false'' session;
                     ret (Some (None, session)) })
                else if connectedClients > 0 then do {
                  r \<leftarrow> restorePods K items templates session;
                  (case r of
                     None \<Rightarrow> ret None
                   | Some (Some err, session) \<Rightarrow> do {
                       session \<leftarrow> setReady K ''False'' ''SessionPodsNotReady''
                         ''At least one session pod presents the ready contidion set to false'' session;
                       ret (Some (Some err, session)) }
                   | Some (None, session) \<Rightarrow> do {
                       session \<leftarrow> setReady K ''Unknown'' ''PodsHaveBeenReconciled''
                         ''Pods have been reconciled successfully'' session;
                       ret (Some (None, session)) }) }
                else ret (Some (None, session))) })) }"

end
