(* ===== verification/Session_Pods_Spec.thy ===== *)
theory Session_Pods_Spec
  imports Session_Pods Demo
begin

text \<open>
  The theorems about the session pods: the Ready condition, the pods that are restored, their GC
  registrations, and when \<open>ReconcileSessionPods\<close> panics.
\<close>

section \<open>The Ready condition\<close>

lemma session_conditions_with [simp]: "session_conditions (with_conditions cs session) = cs"
  by (simp add: session_conditions_def with_conditions_def)

lemma with_conditions_twice [simp]:
  "with_conditions cs (with_conditions ds session) = with_conditions cs session"
  by (simp add: with_conditions_def)

text \<open>The last index with the type, or the index handed on.\<close>

lemma containsConditionFrom_spec:
  "containsConditionFrom index i ty cs = index \<and> (\<forall>c \<in> set cs. condition_Type c \<noteq> ty) \<or>
   (\<exists>k < length cs. containsConditionFrom index i ty cs = i + int k \<and> condition_Type (cs ! k) = ty \<and>
      (\<forall>c \<in> set (drop (Suc k) cs). condition_Type c \<noteq> ty))"
proof (induction cs arbitrary: index i)
  case Nil
  then show ?case by simp
next
  case (Cons c cs)
  let ?index = "if condition_Type c = ty then i else index"
  from Cons.IH [of ?index "i + 1"] show ?case
  proof (elim disjE exE conjE)
    assume "containsConditionFrom ?index (i + 1) ty cs = ?index" "\<forall>c \<in> set cs. condition_Type c \<noteq> ty"
    then show ?thesis by (cases "condition_Type c = ty") auto
  next
    fix k
    assume "k < length cs" "containsConditionFrom ?index (i + 1) ty cs = i + 1 + int k"
      "condition_Type (cs ! k) = ty" "\<forall>c \<in> set (drop (Suc k) cs). condition_Type c \<noteq> ty"
    then show ?thesis by (intro disjI2 exI [of _ "Suc k"]) auto
  qed
qed

definition is_ready_condition :: "condition \<Rightarrow> bool" where
  "is_ready_condition c \<longleftrightarrow> condition_Type c = ''Ready''"

text \<open>The conditions without the last one of type \<open>Ready\<close>.\<close>

definition drop_last_ready :: "condition list \<Rightarrow> condition list" where
  "drop_last_ready cs = rev (takeWhile (\<lambda>c. \<not> is_ready_condition c) (rev cs) @
     drop 1 (dropWhile (\<lambda>c. \<not> is_ready_condition c) (rev cs)))"

lemma drop_last_ready_split:
  assumes "is_ready_condition c" and "\<forall>d \<in> set bs. \<not> is_ready_condition d"
  shows "drop_last_ready (as @ c # bs) = as @ bs"
  using assms by (simp add: drop_last_ready_def takeWhile_append dropWhile_append)

lemma drop_last_ready_absent:
  assumes "\<forall>c \<in> set cs. \<not> is_ready_condition c"
  shows "drop_last_ready cs = cs"
proof -
  have tw: "takeWhile (\<lambda>c. \<not> is_ready_condition c) (rev cs) = rev cs"
    and dw: "dropWhile (\<lambda>c. \<not> is_ready_condition c) (rev cs) = []"
    using assms by (simp_all add: takeWhile_eq_all_conv dropWhile_eq_Nil_conv)
  show ?thesis unfolding drop_last_ready_def tw dw by simp
qed

lemma SetReadyCondition_conditions:
  "session_conditions (SetReadyCondition now status reason message session) =
     drop_last_ready (session_conditions session) @
     [\<lparr>condition_Type = ''Ready'', condition_Status = status, condition_Reason = reason,
       condition_Message = message, condition_LastTransitionTime = now\<rparr>]"
proof -
  let ?cs = "session_conditions session"
  let ?i = "containsCondition session ''Ready''"
  from containsConditionFrom_spec [of "- 1" 0 "''Ready''" ?cs]
  consider (absent) "?i = - 1" "\<forall>c \<in> set ?cs. condition_Type c \<noteq> ''Ready''"
    | (present) k where "k < length ?cs" "?i = int k" "condition_Type (?cs ! k) = ''Ready''"
      "\<forall>c \<in> set (drop (Suc k) ?cs). condition_Type c \<noteq> ''Ready''"
    by (fastforce simp: containsCondition_def)
  then show ?thesis
  proof cases
    case absent
    then have "drop_last_ready ?cs = ?cs" by (intro drop_last_ready_absent) (simp add: is_ready_condition_def)
    with absent show ?thesis by (simp add: SetReadyCondition_def appendCondition_def)
  next
    case (present k)
    then have "drop_last_ready (take k ?cs @ ?cs ! k # drop (Suc k) ?cs) = take k ?cs @ drop (Suc k) ?cs"
      by (intro drop_last_ready_split) (simp_all add: is_ready_condition_def)
    with present show ?thesis
      by (simp add: SetReadyCondition_def appendCondition_def removeConditionAtIndex_def
          id_take_nth_drop [symmetric])
  qed
qed

lemma drop_last_ready_count:
  "length (filter is_ready_condition (drop_last_ready cs)) = length (filter is_ready_condition cs) - 1"
proof (cases "\<exists>c \<in> set cs. is_ready_condition c")
  case False
  then show ?thesis by (simp add: drop_last_ready_absent)
next
  case True
  then obtain as c bs where "cs = as @ c # bs" "is_ready_condition c" "\<forall>d \<in> set bs. \<not> is_ready_condition d"
    by (metis split_list_last_prop)
  then show ?thesis using drop_last_ready_split [of c bs as] by (simp add: filter_False)
qed

lemma drop_last_ready_others:
  "filter (\<lambda>c. \<not> is_ready_condition c) (drop_last_ready cs) = filter (\<lambda>c. \<not> is_ready_condition c) cs"
proof (cases "\<exists>c \<in> set cs. is_ready_condition c")
  case False
  then show ?thesis by (simp add: drop_last_ready_absent)
next
  case True
  then obtain as c bs where "cs = as @ c # bs" "is_ready_condition c" "\<forall>d \<in> set bs. \<not> is_ready_condition d"
    by (metis split_list_last_prop)
  then show ?thesis using drop_last_ready_split [of c bs as] by simp
qed

section \<open>The runs of the operations\<close>

lemma run_setReady [simp, io_simps]:
  "run_state (setReady K status reason message session) h =
     (SetReadyCondition (api_Now K h) status reason message session, h)"
  by (simp add: setReady_def)

lemma concat_build_paths:
  "concatIngressExternalIpToPodPaths ip (buildPodStatus n spec) = Some ((buildPodStatus n spec)
     \<lparr>podStatus_Paths := map (\<lambda>p. scheme @ ip @ p) (podStatus_Paths (buildPodStatus n spec))\<rparr>)"
proof -
  let ?ps = "podStatus_Paths (buildPodStatus n spec)"
  have "concatIngressExternalIpToPath ip p = Some (scheme @ ip @ p)" if "p \<in> set ?ps" for p
    using that by (auto simp: buildPodStatus_def)
  then have "map (concatIngressExternalIpToPath ip) ?ps = map Some (map (\<lambda>p. scheme @ ip @ p) ?ps)"
    by simp
  then have "those (map (concatIngressExternalIpToPath ip) ?ps) = Some (map (\<lambda>p. scheme @ ip @ p) ?ps)"
    unfolding those_Some_iff .
  then show ?thesis by (simp add: concatIngressExternalIpToPodPaths_def)
qed

text \<open>The status that \<open>buildPodsStatus\<close> makes for a template.\<close>

definition session_pod_status :: "string \<Rightarrow> string \<Rightarrow> podTemplate \<Rightarrow> podStatus" where
  "session_pod_status ip name t = (buildPodStatus (sessionPodName name (template_Name t)) (template_Spec t))
     \<lparr>podStatus_Paths := map (\<lambda>p. scheme @ ip @ p)
        (podStatus_Paths (buildPodStatus (sessionPodName name (template_Name t)) (template_Spec t)))\<rparr>"

lemma buildPodsStatus_total:
  "buildPodsStatus templates ip session = Some (with_pods_status (Some (fold (\<lambda>t.
     map_put (sessionPodName (session_Name session) (template_Name t))
       (session_pod_status ip (session_Name session) t)) templates [])) session)"
proof -
  have "fold_opt (\<lambda>template m. do {
         let podName = sessionPodName (session_Name session) (template_Name template);
         podStatus \<leftarrow> concatIngressExternalIpToPodPaths ip
           (buildPodStatus podName (template_Spec template));
         Some (map_put podName podStatus m) }) templates m = Some (fold (\<lambda>t.
     map_put (sessionPodName (session_Name session) (template_Name t))
       (session_pod_status ip (session_Name session) t)) templates m)" for m
    by (rule fold_opt_Some) (simp add: concat_build_paths session_pod_status_def Let_def)
  then show ?thesis by (simp add: buildPodsStatus_def)
qed

lemma pods_status_with [simp]: "pods_status (with_pods_status m session) = m"
  "session_conditions (with_pods_status m session) = session_conditions session"
  "session_Name (with_pods_status m session) = session_Name session"
  "session_Spec (with_pods_status m session) = session_Spec session"
  "session_Namespace (with_pods_status m session) = session_Namespace session"
  by (simp_all add: pods_status_def session_conditions_def with_pods_status_def)

lemma with_pods_status_twice [simp]:
  "with_pods_status m (with_pods_status m' session) = with_pods_status m session"
  by (simp add: with_pods_status_def)

lemma SpawnPod_run:
  assumes "kpod_Labels pod = Some l"
  shows "run_state (SpawnPod K session pod) h =
    (case api_SetPodController K session (pod\<lparr>kpod_Labels := Some (map_put ''svc'' (kpod_Name pod)
         (map_put ''telepresence'' ''true'' l)), kpod_Namespace := ''default''\<rparr>) of
       Inl err \<Rightarrow> (Some (Some err), h)
     | Inr pod' \<Rightarrow> (Some (let err = api_CreatePod K h pod' in
         if err \<noteq> None \<and> err \<noteq> Some AlreadyExists then err else None), h @ [CreatePod pod']))"
  using assms by (auto simp: SpawnPod_def nilmap_put_def Let_def split: sum.splits)

section \<open>Restoring pods\<close>

definition key_of :: "session \<Rightarrow> podTemplate \<Rightarrow> string" where
  "key_of session t = sessionPodName (session_Name session) (template_Name t)"

text \<open>One turn of the loop: what it asks for and what it leaves.\<close>

lemma restorePod_run:
  assumes "run_state (restorePod K found t session) h = (r, h')" and "pods_status session \<noteq> None"
  obtains e session' where "r = Some (e, session')" "pods_status session' \<noteq> None"
    "session' = with_pods_status (pods_status session') session"
    "key_of session t \<in> set found \<Longrightarrow> e = None \<and> session' = session \<and> h' = h"
    "key_of session t \<notin> set found \<Longrightarrow> run_state (SpawnPod K session'
       (sessionPodObject (key_of session t) (template_Spec t))) h = (Some e, h')"
proof -
  obtain m where m: "pods_status session = Some m" using assms(2) by blast
  have same: "session = with_pods_status (pods_status session) session"
    by (simp add: with_pods_status_def pods_status_def)
  show thesis
  proof (cases "key_of session t \<in> set found")
    case True
    with assms(1) have "r = Some (None, session)" "h' = h"
      by (simp_all add: restorePod_def key_of_def Let_def)
    with that [of None session] assms(2) same True show thesis by blast
  next
    case False
    let ?m = "map_put (key_of session t) ((map_get_zero zero_podStatus m (key_of session t))
       \<lparr>podStatus_Ready := False\<rparr>) m"
    let ?s = "with_pods_status (Some ?m) session"
    obtain e h1 where e: "run_state (SpawnPod K ?s (sessionPodObject (key_of session t) (template_Spec t))) h = (Some e, h1)"
      using SpawnPod_run [of "sessionPodObject (key_of session t) (template_Spec t)" "[(''type'', ''session'')]" K ?s h]
      by (auto simp: sessionPodObject_def split: sum.splits)
    with False m assms(1) have "r = Some (e, ?s)" "h' = h1"
      by (simp_all add: restorePod_def key_of_def [symmetric] Let_def nilmap_put_def)
    with that [of e ?s] e False show thesis
      by (simp add: with_pods_status_def pods_status_def)
  qed
qed

text \<open>\<open>ctrl.SetControllerReference\<close> changes the owner of an object and nothing else.\<close>

definition sets_owner :: "kube \<Rightarrow> bool" where
  "sets_owner K \<longleftrightarrow> (\<forall>session p p'. api_SetPodController K session p = Inr p' \<longrightarrow>
     (\<exists>owner. p' = p\<lparr>kpod_Controller := owner\<rparr>))"

text \<open>What a spawned pod keeps of the pod it was asked for.\<close>

definition spawned :: "kpod \<Rightarrow> kpod \<Rightarrow> bool" where
  "spawned pod p \<longleftrightarrow> kpod_Name p = kpod_Name pod \<and> kpod_Spec p = kpod_Spec pod \<and>
     kpod_Namespace p = ''default'' \<and>
     map_of (entries (kpod_Labels p)) = (map_of (entries (kpod_Labels pod)))
       (''telepresence'' \<mapsto> ''true'', ''svc'' \<mapsto> kpod_Name pod)"

lemma SpawnPod_asks:
  assumes "sets_owner K" and "kpod_Labels pod \<noteq> None"
    and "run_state (SpawnPod K session pod) h = (Some e, h')"
  shows "(\<exists>p. h' = h @ [CreatePod p] \<and> spawned pod p) \<or> e \<noteq> None \<and> h' = h"
proof -
  obtain l where l: "kpod_Labels pod = Some l" using assms(2) by blast
  let ?pod = "pod\<lparr>kpod_Labels := Some (map_put ''svc'' (kpod_Name pod)
         (map_put ''telepresence'' ''true'' l)), kpod_Namespace := ''default''\<rparr>"
  show ?thesis
  proof (cases "api_SetPodController K session ?pod")
    case (Inl err)
    with assms(3) show ?thesis unfolding SpawnPod_run [OF l] by auto
  next
    case (Inr p)
    with assms(1) obtain owner where "p = ?pod\<lparr>kpod_Controller := owner\<rparr>" unfolding sets_owner_def by blast
    then have "spawned pod p" using l by (simp add: spawned_def)
    moreover have "h' = h @ [CreatePod p]" using assms(3) Inr unfolding SpawnPod_run [OF l] by simp
    ultimately show ?thesis by blast
  qed
qed

lemma SpawnPod_done:
  assumes "sets_owner K" and "kpod_Labels pod \<noteq> None"
    and "run_state (SpawnPod K session pod) h = (Some None, h')"
  shows "\<exists>p. h' = h @ [CreatePod p] \<and> spawned pod p"
  using SpawnPod_asks [OF assms] by simp

lemma restorePods_total:
  assumes "pods_status session \<noteq> None"
  shows "\<exists>e session' h'. run_state (restorePods K items ts session) h = (Some (e, session'), h') \<and>
    pods_status session' \<noteq> None \<and> session' = with_pods_status (pods_status session') session"
  unfolding restorePods_def using assms
proof (induction ts arbitrary: session h)
  case Nil
  then show ?case by (auto simp: with_pods_status_def pods_status_def)
next
  case (Cons t ts)
  obtain r h1 where r: "run_state (restorePod K (map kpod_Name items) t session) h = (r, h1)" by force
  from this Cons.prems show ?case
  proof (cases rule: restorePod_run)
    case (1 e session1)
    show ?thesis
    proof (cases e)
      case None
      obtain e' session' h' where "run_state (loop_io (restorePod K (map kpod_Name items)) ts session1) h1 =
          (Some (e', session'), h')" "pods_status session' \<noteq> None"
          "session' = with_pods_status (pods_status session') session1"
        using Cons.IH [OF 1(2), of h1] by blast
      moreover from this(3) 1(3) have "session' = with_pods_status (pods_status session') session"
        by (metis with_pods_status_twice)
      ultimately show ?thesis using r 1(1) None by simp
    next
      case (Some err)
      with r 1 show ?thesis by simp
    qed
  qed
qed

definition missing_templates :: "string list \<Rightarrow> session \<Rightarrow> podTemplate list \<Rightarrow> podTemplate list" where
  "missing_templates found session ts = filter (\<lambda>t. key_of session t \<notin> set found) ts"

text \<open>The creations, in the order of the templates: all of them without an error, the first ones otherwise.\<close>

lemma restorePods_asks:
  assumes "sets_owner K" and "pods_status session \<noteq> None"
    and "run_state (restorePods K items ts session) h = (Some (e, session'), h')"
  shows "\<exists>ps. h' = h @ map CreatePod ps \<and>
    list_all2 (\<lambda>t p. spawned (sessionPodObject (key_of session t) (template_Spec t)) p)
      (take (length ps) (missing_templates (map kpod_Name items) session ts)) ps \<and>
    (e = None \<longrightarrow> length ps = length (missing_templates (map kpod_Name items) session ts))"
  using assms(2,3) unfolding restorePods_def
proof (induction ts arbitrary: session h)
  case Nil
  then show ?case by (simp add: missing_templates_def)
next
  case (Cons t ts)
  let ?found = "map kpod_Name items"
  obtain r h1 where r: "run_state (restorePod K ?found t session) h = (r, h1)" by force
  from this Cons.prems(1) show ?case
  proof (cases rule: restorePod_run)
    case (1 e1 session1)
    have turn: "\<exists>ps1. h1 = h @ map CreatePod ps1 \<and>
        list_all2 (\<lambda>t p. spawned (sessionPodObject (key_of session t) (template_Spec t)) p)
          (take (length ps1) (missing_templates ?found session [t])) ps1 \<and>
        (e1 = None \<longrightarrow> length ps1 = length (missing_templates ?found session [t]))"
    proof (cases "key_of session t \<in> set ?found")
      case True
      with 1(4) show ?thesis by (simp add: missing_templates_def)
    next
      case False
      have "kpod_Labels (sessionPodObject (key_of session t) (template_Spec t)) \<noteq> None" by (simp add: sessionPodObject_def)
      from SpawnPod_asks [OF assms(1) this 1(5) [OF False]] show ?thesis
      proof (elim disjE exE conjE)
        fix p
        assume "h1 = h @ [CreatePod p]" "spawned (sessionPodObject (key_of session t) (template_Spec t)) p"
        with False show ?thesis by (intro exI [of _ "[p]"]) (simp add: missing_templates_def)
      qed auto
    qed
    have both: "missing_templates ?found session (t # ts) =
        missing_templates ?found session [t] @ missing_templates ?found session ts"
      by (simp add: missing_templates_def)
    show ?thesis
    proof (cases e1)
      case (Some err)
      then have "e = Some err" "h1 = h'" using Cons.prems(2) r 1(1) by auto
      moreover from turn obtain ps1 where ps1: "h1 = h @ map CreatePod ps1"
        "list_all2 (\<lambda>t p. spawned (sessionPodObject (key_of session t) (template_Spec t)) p)
          (take (length ps1) (missing_templates ?found session [t])) ps1" by blast
      moreover have "length ps1 \<le> length (missing_templates ?found session [t])"
        using list_all2_lengthD [OF ps1(2)] by simp
      ultimately show ?thesis unfolding both by (intro exI [of _ ps1]) simp
    next
      case None
      then have rest: "run_state (loop_io (restorePod K ?found) ts session1) h1 = (Some (e, session'), h')"
        using Cons.prems(2) r 1(1) by simp
      have key: "key_of session1 = key_of session"
        using 1(3) by (metis ext key_of_def pods_status_with(3))
      from Cons.IH [OF 1(2) rest] obtain ps where ps: "h' = h1 @ map CreatePod ps"
        "list_all2 (\<lambda>t p. spawned (sessionPodObject (key_of session t) (template_Spec t)) p)
          (take (length ps) (missing_templates ?found session ts)) ps"
        "e = None \<longrightarrow> length ps = length (missing_templates ?found session ts)"
        unfolding missing_templates_def key by blast
      from turn None obtain ps1 where ps1: "h1 = h @ map CreatePod ps1"
        "list_all2 (\<lambda>t p. spawned (sessionPodObject (key_of session t) (template_Spec t)) p)
          (take (length ps1) (missing_templates ?found session [t])) ps1"
        "length ps1 = length (missing_templates ?found session [t])" by blast
      from ps ps1 show ?thesis unfolding both
        by (intro exI [of _ "ps1 @ ps"]) (simp add: list_all2_appendI)
    qed
  qed
qed

section \<open>GC registrations of the session pods\<close>

interpretation session_gc: exact_step "registerSessionPod K session n m"
    "\<lambda>pod. gc_trace session m (kpod_Name pod) (n = 0)" for K session n m
  by unfold_locales
    (auto simp: registerSessionPod_def gc_trace_def dest: create_trace delete_trace
      split: if_splits option.splits)

text \<open>The management of the registrations creates no pod.\<close>

lemma session_gc_requests:
  assumes "run_state (manageGCRegistrationsForSessionPods K session n items gs) h = (e, h')"
  shows "\<exists>t. h' = h @ t \<and> (\<forall>p. CreatePod p \<notin> set t)"
proof -
  have none: "CreatePod p \<notin> set (gc_trace session m c b)" for p m c b
    by (auto simp: gc_trace_def split: option.splits if_splits)
  from session_gc.loop_allowed [OF assms [unfolded manageGCRegistrationsForSessionPods_def]] obtain t where
    "h' = h @ t" "\<forall>r \<in> set t. \<exists>pod \<in> set items. r \<in> set (gc_trace session (gcRegistrationsMap gs) (kpod_Name pod) (n = 0))"
    by blast
  with none show ?thesis by (intro exI [of _ t] conjI allI notI) (assumption, metis)
qed

lemma countConnectedClients_zero:
  "countConnectedClients m = 0 \<longleftrightarrow> (\<forall>(c, connected) \<in> set m. \<not> connected)"
  by (auto simp: countConnectedClients_def filter_empty_conv)

lemma manage_session_gc:
  assumes "run_state (manageGCRegistrationsForSessionPods K session n items gs) h = (None, h')"
  shows "\<exists>t. h' = h @ t \<and> registered_after t (gc_Name ` set gs) =
    (if n = 0 then gc_Name ` set gs \<union> kpod_Name ` set items else gc_Name ` set gs - kpod_Name ` set items)"
proof -
  let ?m = "gcRegistrationsMap gs" and ?ns = "map kpod_Name items"
  note m = gcRegistrationsMap_names [of gs]
  have "gc_known ?m (\<lambda>_. n = 0) ?ns (gc_Name ` set gs)" using m by (simp add: gc_known_def)
  note effect = gc_loop_effect [OF conjunct1 [OF m] this, of session]
  have "h' = h @ concat (map (\<lambda>p. gc_trace session ?m (kpod_Name p) (n = 0)) items)"
    using assms session_gc.loop_done unfolding manageGCRegistrationsForSessionPods_def by blast
  then show ?thesis
    using effect by (intro exI [of _ "concat (map (\<lambda>p. gc_trace session ?m (kpod_Name p) (n = 0)) items)"])
      (auto simp: comp_def)
qed

section \<open>All pods ready\<close>

lemma set_ready_loop:
  "map_of (fold (\<lambda>pod m. map_put pod ((map_get_zero zero_podStatus m pod)\<lparr>podStatus_Ready := True\<rparr>) m) ks m) n
     = Some s \<Longrightarrow> (n \<in> set ks \<longrightarrow> podStatus_Ready s) \<and> (n \<notin> set ks \<longrightarrow> map_of m n = Some s)"
  by (induction ks arbitrary: s rule: rev_induct) (auto split: if_splits)

lemma setPodsStatusToTrue_ready:
  assumes "permutes_keys ord" and "s \<in> ran (map_of (entries (setPodsStatusToTrue ord podsStatus)))"
  shows "podStatus_Ready s"
proof (cases podsStatus)
  case None
  with assms(2) show ?thesis by (simp add: setPodsStatusToTrue_def)
next
  case (Some m)
  from assms(2) obtain n where n: "map_of (fold (\<lambda>pod m. map_put pod ((map_get_zero zero_podStatus m pod)
      \<lparr>podStatus_Ready := True\<rparr>) m) (ord RangeSessionPods (map_keys m)) m) n = Some s"
    unfolding Some by (auto simp: setPodsStatusToTrue_def ran_def)
  have "set (ord RangeSessionPods (map_keys m)) = dom (map_of m)"
    using assms(1) by (simp add: go_order_simps)
  with set_ready_loop [OF n] show ?thesis by (cases "n \<in> dom (map_of m)") auto
qed

lemma demo_sets_owner: "sets_owner demo_kube"
  by (auto simp: sets_owner_def demo_kube_def)

end
