(* ===== verification/Session_Pod_Properties.thy ===== *)
theory Session_Pod_Properties
  imports Session_Pods_Spec
begin

text \<open>
  The properties of \<open>ReconcileSessionPods\<close>, \<open>restorePods\<close>, \<open>SetReadyCondition\<close> and of the GC
  registrations of session pods.
\<close>

text \<open>
  \<open>SetReadyCondition\<close> appends the new condition as the last one, keeps the conditions of other
  types in their order, and never lets the number of Ready conditions grow beyond one: it removes
  one whenever there was one.
\<close>

theorem ready_condition_unique:
  "last (session_conditions (SetReadyCondition now status reason message session)) =
     \<lparr>condition_Type = ''Ready'', condition_Status = status, condition_Reason = reason,
       condition_Message = message, condition_LastTransitionTime = now\<rparr> \<and>
   filter (\<lambda>c. \<not> is_ready_condition c) (session_conditions (SetReadyCondition now status reason message session)) =
     filter (\<lambda>c. \<not> is_ready_condition c) (session_conditions session) \<and>
   length (filter is_ready_condition (session_conditions (SetReadyCondition now status reason message session))) =
     max 1 (length (filter is_ready_condition (session_conditions session)))"
proof -
  have "is_ready_condition \<lparr>condition_Type = ''Ready'', condition_Status = status, condition_Reason = reason,
       condition_Message = message, condition_LastTransitionTime = now\<rparr>"
    by (simp add: is_ready_condition_def)
  then show ?thesis
    by (auto simp: SetReadyCondition_conditions drop_last_ready_count drop_last_ready_others)
qed

abbreviation ownedSessionPods :: "session \<Rightarrow> selector" where
  "ownedSessionPods session \<equiv> [(''ownerField'', session_Name session), (''podTypeField'', ''session'')]"

text \<open>The status and the reason of the Ready condition that a call leaves, replacing the one before.\<close>

definition reports :: "string \<Rightarrow> string \<Rightarrow> session \<Rightarrow> session \<Rightarrow> bool" where
  "reports status reason session session' \<longleftrightarrow> (\<exists>c. condition_Type c = ''Ready'' \<and> condition_Status c = status \<and>
     condition_Reason c = reason \<and> session_conditions session' = drop_last_ready (session_conditions session) @ [c])"

lemma reports_SetReadyCondition:
  "session_conditions session1 = session_conditions session \<Longrightarrow>
     reports status reason session (SetReadyCondition now status reason message session1)"
  by (auto simp: reports_def SetReadyCondition_conditions)

definition connected_clients :: "session \<Rightarrow> int" where
  "connected_clients session = countConnectedClients (entries (spec_Clients (session_Spec session)))"

text \<open>The session when the status of the pods has been built.\<close>

definition built :: "string \<Rightarrow> session \<Rightarrow> session" where
  "built ip session = the (buildPodsStatus (spec_SessionPodTemplates (session_Spec session)) ip session)"

lemma built_simps [simp]:
  "buildPodsStatus (spec_SessionPodTemplates (session_Spec session)) ip session = Some (built ip session)"
  "pods_status (built ip session) \<noteq> None" "session_conditions (built ip session) = session_conditions session"
  "session_Name (built ip session) = session_Name session" "session_Spec (built ip session) = session_Spec session"
  "session_Namespace (built ip session) = session_Namespace session"
  by (simp_all add: built_def buildPodsStatus_total)

text \<open>The rest of a call, from the session with the built status and the history then.\<close>

definition session_outcome ::
    "kube \<Rightarrow> iteration \<Rightarrow> kpod list \<Rightarrow> session \<Rightarrow> history \<Rightarrow> (apiError option \<times> session) option \<times> history" where
  "session_outcome K ord items s h =
     (let ts = spec_SessionPodTemplates (session_Spec s) in
      if length ts = length items then
        (if PodsAreReady items
         then (Some (None, SetReadyCondition (api_Now K h) ''True'' ''SessionPodsReady''
            ''All the session pods present the ready contidion set to true''
            (with_pods_status (setPodsStatusToTrue ord (pods_status s)) s)), h)
         else (Some (None, SetReadyCondition (api_Now K h) ''False'' ''SessionPodsNotReady''
            ''At least one session pod presents the ready contidion set to false'' s), h))
      else if connected_clients s > 0 then
        (case run_state (restorePods K items ts s) h of
           (None, h') \<Rightarrow> (None, h')
         | (Some (Some err, s'), h') \<Rightarrow> (Some (Some err, SetReadyCondition (api_Now K h') ''False''
             ''SessionPodsNotReady'' ''At least one session pod presents the ready contidion set to false'' s'), h')
         | (Some (None, s'), h') \<Rightarrow> (Some (None, SetReadyCondition (api_Now K h') ''Unknown''
             ''PodsHaveBeenReconciled'' ''Pods have been reconciled successfully'' s'), h'))
      else (Some (None, s), h))"

lemma ReconcileSessionPods_run:
  assumes "api_ListPods K h ns (ownedSessionPods session) = Inr items"
  obtains e h1 where
    "run_state (manageGCRegistrationsForSessionPods K (built ip session) (connected_clients session) items gs)
       (h @ [ListPods ns (ownedSessionPods session)]) = (e, h1)"
    "run_state (ReconcileSessionPods K ord ns session gs (Some ip)) h =
       session_outcome K ord items (built ip session) h1"
proof -
  obtain e h1 where m: "run_state (manageGCRegistrationsForSessionPods K (built ip session)
      (connected_clients session) items gs) (h @ [ListPods ns (ownedSessionPods session)]) = (e, h1)" by force
  with assms show thesis
    by (intro that [OF m])
      (simp add: ReconcileSessionPods_def session_outcome_def Let_def connected_clients_def
        split: prod.split option.split)
qed

lemma outcome_session:
  "session_outcome K ord items s h = (Some (None, session'), h') \<Longrightarrow>
     session_outcome K ord items s h = (Some (None, t), h'') \<Longrightarrow> session' = t"
  by simp

lemma restorePods_obtain:
  assumes "pods_status s \<noteq> None"
  obtains e s' h' where "run_state (restorePods K items ts s) h = (Some (e, s'), h')"
    "s' = with_pods_status (pods_status s') s"
  using restorePods_total [OF assms, of K items ts h] by (elim exE conjE) (rule that)

lemma session_outcome_total:
  assumes "pods_status s \<noteq> None"
  obtains e s' h' where "session_outcome K ord items s h = (Some (e, s'), h')"
proof -
  obtain e s' h' where "run_state (restorePods K items (spec_SessionPodTemplates (session_Spec s)) s) h =
      (Some (e, s'), h')"
    using restorePods_total [OF assms] by blast
  then have "\<exists>e s' h'. session_outcome K ord items s h = (Some (e, s'), h')"
    by (cases e) (auto simp: session_outcome_def Let_def)
  with that show thesis by blast
qed

text \<open>
  \<open>ReconcileSessionPods\<close> panics exactly when the list of the pods succeeds and the ingress has no
  address yet: the dereference of the nil pointer is its only panic.
\<close>

theorem session_pods_panic:
  "fst (run_state (ReconcileSessionPods K ord ns session gs ip) h) = None \<longleftrightarrow>
     \<not> isl (api_ListPods K h ns (ownedSessionPods session)) \<and> ip = None"
proof (cases "api_ListPods K h ns (ownedSessionPods session)")
  case (Inl err)
  then show ?thesis by (simp add: ReconcileSessionPods_def Let_def)
next
  case (Inr items)
  show ?thesis
  proof (cases ip)
    case None
    with Inr show ?thesis by (simp add: ReconcileSessionPods_def Let_def)
  next
    case (Some ip')
    from Inr show ?thesis
    proof (rule ReconcileSessionPods_run [where ip = ip' and gs = gs and ord = ord])
      fix e h1
      assume "run_state (ReconcileSessionPods K ord ns session gs (Some ip')) h =
        session_outcome K ord items (built ip' session) h1"
      moreover obtain e s' h' where "session_outcome K ord items (built ip' session) h1 = (Some (e, s'), h')"
        using session_outcome_total [OF built_simps(2)] by blast
      ultimately show ?thesis using Some by simp
    qed
  qed
qed

lemma pods_status_ready: "pods_status (SetReadyCondition now status reason message s) = pods_status s"
  by (simp add: SetReadyCondition_def appendCondition_def removeConditionAtIndex_def pods_status_def
      with_conditions_def Let_def)

text \<open>The pod that a template asks for.\<close>

definition restored_pod :: "session \<Rightarrow> podTemplate \<Rightarrow> kpod \<Rightarrow> bool" where
  "restored_pod session t p \<longleftrightarrow> kpod_Name p = key_of session t \<and> kpod_Spec p = template_Spec t \<and>
     kpod_Namespace p = ''default'' \<and> map_of (entries (kpod_Labels p)) =
       [''type'' \<mapsto> ''session'', ''telepresence'' \<mapsto> ''true'', ''svc'' \<mapsto> key_of session t]"

lemma spawned_restored: "spawned (sessionPodObject (key_of session t) (template_Spec t)) p \<Longrightarrow> restored_pod session t p"
  by (simp add: restored_pod_def spawned_def sessionPodObject_def fun_eq_iff)

text \<open>The report with as many pods as templates.\<close>

lemma outcome_complete:
  assumes ord: "permutes_keys ord"
    and len: "length (spec_SessionPodTemplates (session_Spec session)) = length items"
  shows "\<exists>s'. session_outcome K ord items (built ip session) h1 = (Some (None, s'), h1) \<and>
    (if PodsAreReady items then reports ''True'' ''SessionPodsReady'' session s' \<and>
       (\<forall>s \<in> ran (map_of (entries (pods_status s'))). podStatus_Ready s)
     else reports ''False'' ''SessionPodsNotReady'' session s')"
proof -
  let ?s = "with_pods_status (setPodsStatusToTrue ord (pods_status (built ip session))) (built ip session)"
  have "\<forall>s \<in> ran (map_of (entries (pods_status (SetReadyCondition now status reason message ?s)))). podStatus_Ready s"
    for now status reason message
    unfolding pods_status_ready pods_status_with using setPodsStatusToTrue_ready [OF ord] by blast
  moreover have "session_conditions ?s = session_conditions session" by simp
  ultimately show ?thesis using len by (simp add: session_outcome_def Let_def reports_SetReadyCondition)
qed

text \<open>The report with another number of pods.\<close>

lemma outcome_incomplete:
  assumes owner: "sets_owner K" and len: "length (spec_SessionPodTemplates (session_Spec session)) \<noteq> length items"
  defines "missing \<equiv> filter (\<lambda>t. key_of session t \<notin> kpod_Name ` set items) (spec_SessionPodTemplates (session_Spec session))"
  shows "\<exists>e s' ps. session_outcome K ord items (built ip session) h1 = (Some (e, s'), h1 @ map CreatePod ps) \<and>
    (if connected_clients session > 0 then
       list_all2 (restored_pod session) (take (length ps) missing) ps \<and>
       (if e = None then length ps = length missing \<and> reports ''Unknown'' ''PodsHaveBeenReconciled'' session s'
        else reports ''False'' ''SessionPodsNotReady'' session s')
     else e = None \<and> ps = [] \<and> session_conditions s' = session_conditions session)"
proof (cases "connected_clients session > 0")
  case False
  then show ?thesis using len by (simp add: session_outcome_def Let_def connected_clients_def)
next
  case True
  obtain e s h2 where run: "run_state (restorePods K items (spec_SessionPodTemplates (session_Spec session))
      (built ip session)) h1 = (Some (e, s), h2)" and s: "s = with_pods_status (pods_status s) (built ip session)"
    by (rule restorePods_obtain [OF built_simps(2)])
  have conditions: "session_conditions s = session_conditions session" by (subst s) simp
  have key: "key_of (built ip session) = key_of session" by (simp add: key_of_def fun_eq_iff)
  from restorePods_asks [OF owner built_simps(2) run, unfolded missing_templates_def key set_map, folded missing_def]
  obtain ps where ps: "h2 = h1 @ map CreatePod ps" "e = None \<longrightarrow> length ps = length missing"
    and "list_all2 (\<lambda>t p. spawned (sessionPodObject (key_of session t) (template_Spec t)) p) (take (length ps) missing) ps"
    by blast
  from this(3) spawned_restored have all: "list_all2 (restored_pod session) (take (length ps) missing) ps"
    by (rule list_all2_mono)
  have "connected_clients (built ip session) > 0" using True by (simp add: connected_clients_def)
  with run len True ps all conditions show ?thesis
    by (cases e) (auto simp: session_outcome_def Let_def reports_SetReadyCondition)
qed

text \<open>
  C38. What \<open>ReconcileSessionPods\<close> reports and asks for, in every case.  If the list of the pods fails, Ready
  is Unknown and the error is returned; without an address of the ingress the call panics.  With as many
  pods as templates, Ready is True exactly when no pod says False or Unknown, and then every pod is
  reported ready.  With another number of pods and a connected client, the missing pods are created in the
  order of the templates: if all creations succeed Ready is Unknown, and if one fails it is False, the
  error is returned and the later pods are not asked for.  With another number of pods and no connected
  client, nothing is created and the conditions stay as they were.
\<close>

theorem session_ready_report:
  assumes "permutes_keys ord" and "sets_owner K"
    and "run_state (ReconcileSessionPods K ord ns session gs ip) h = (out, h')"
  defines "missing items \<equiv>
    filter (\<lambda>t. key_of session t \<notin> kpod_Name ` set items) (spec_SessionPodTemplates (session_Spec session))"
  shows "case (api_ListPods K h ns (ownedSessionPods session), ip) of
      (Inl err, _) \<Rightarrow> (\<exists>s'. out = Some (Some err, s') \<and> reports ''Unknown'' ''FailedGetSessionPods'' session s' \<and>
        h' = h @ [ListPods ns (ownedSessionPods session)])
    | (Inr items, None) \<Rightarrow> out = None
    | (Inr items, Some _) \<Rightarrow> (\<exists>e s' gcs ps. out = Some (e, s') \<and>
        h' = h @ ListPods ns (ownedSessionPods session) # gcs @ map CreatePod ps \<and> (\<forall>p. CreatePod p \<notin> set gcs) \<and>
        (if length (spec_SessionPodTemplates (session_Spec session)) = length items then
           e = None \<and> ps = [] \<and>
           (if PodsAreReady items then reports ''True'' ''SessionPodsReady'' session s' \<and>
              (\<forall>s \<in> ran (map_of (entries (pods_status s'))). podStatus_Ready s)
            else reports ''False'' ''SessionPodsNotReady'' session s')
         else if connected_clients session > 0 then
           list_all2 (restored_pod session) (take (length ps) (missing items)) ps \<and>
           (if e = None then length ps = length (missing items) \<and> reports ''Unknown'' ''PodsHaveBeenReconciled'' session s'
            else reports ''False'' ''SessionPodsNotReady'' session s')
         else e = None \<and> ps = [] \<and> session_conditions s' = session_conditions session))"
proof (cases "api_ListPods K h ns (ownedSessionPods session)")
  case (Inl err)
  with assms(3) show ?thesis
    by (auto simp: ReconcileSessionPods_def setReady_def Let_def intro: reports_SetReadyCondition)
next
  case (Inr items)
  show ?thesis
  proof (cases ip)
    case None
    with Inr assms(3) show ?thesis by (simp add: ReconcileSessionPods_def Let_def)
  next
    case (Some a)
    obtain e0 h1 where manage: "run_state (manageGCRegistrationsForSessionPods K (built a session) (connected_clients session)
        items gs) (h @ [ListPods ns (ownedSessionPods session)]) = (e0, h1)"
      and run: "run_state (ReconcileSessionPods K ord ns session gs (Some a)) h = session_outcome K ord items (built a session) h1"
      by (rule ReconcileSessionPods_run [OF Inr, where ip = a and gs = gs and ord = ord])
    from session_gc_requests [OF manage] obtain gcs where
      gcs: "h1 = h @ ListPods ns (ownedSessionPods session) # gcs" "\<forall>p. CreatePod p \<notin> set gcs" by auto
    have out: "session_outcome K ord items (built a session) h1 = (out, h')" using run assms(3) Some by simp
    show ?thesis
    proof (cases "length (spec_SessionPodTemplates (session_Spec session)) = length items")
      case True
      from outcome_complete [OF assms(1) True, of K a h1] obtain s' where
        s': "session_outcome K ord items (built a session) h1 = (Some (None, s'), h1)"
          "if PodsAreReady items then reports ''True'' ''SessionPodsReady'' session s' \<and>
             (\<forall>s \<in> ran (map_of (entries (pods_status s'))). podStatus_Ready s)
           else reports ''False'' ''SessionPodsNotReady'' session s'" by blast
      with out have "out = Some (None, s')" "h' = h1" by simp_all
      with s'(2) gcs show ?thesis unfolding Inr Some prod.case sum.case option.case if_P [OF True]
        by (intro exI [of _ None] exI [of _ s'] exI [of _ gcs] exI [of _ "[]"]) simp
    next
      case False
      from outcome_incomplete [OF assms(2) False, of ord a h1, folded missing_def] obtain e s' ps where
        s': "session_outcome K ord items (built a session) h1 = (Some (e, s'), h1 @ map CreatePod ps)"
        and "if connected_clients session > 0 then
           list_all2 (restored_pod session) (take (length ps) (missing items)) ps \<and>
           (if e = None then length ps = length (missing items) \<and> reports ''Unknown'' ''PodsHaveBeenReconciled'' session s'
            else reports ''False'' ''SessionPodsNotReady'' session s')
         else e = None \<and> ps = [] \<and> session_conditions s' = session_conditions session" by blast
      moreover have "out = Some (e, s')" "h' = h1 @ map CreatePod ps" using out s' by simp_all
      ultimately show ?thesis using gcs unfolding Inr Some prod.case sum.case option.case if_not_P [OF False]
        by (intro exI [of _ e] exI [of _ s'] exI [of _ gcs] exI [of _ ps]) simp
    qed
  qed
qed

abbreviation demo_session_run :: "(apiError option \<times> session) option \<times> history" where
  "demo_session_run \<equiv> run_state (ReconcileSessionPods demo_kube visit ''default'' demo_session [] (Some ''10.0.0.1'')) []"

abbreviation demo_session_list :: request where
  "demo_session_list \<equiv> ListPods ''default'' (ownedSessionPods demo_session)"

lemma demo_session_items: "api_ListPods demo_kube [] ''default'' (ownedSessionPods demo_session) = Inr demo_items"
  by (simp add: demo_kube_def)

lemma demo_session_run_ok: "\<exists>s h. demo_session_run = (Some (None, s), h)"
proof -
  have "(case fst demo_session_run of Some (None, _) \<Rightarrow> True | _ \<Rightarrow> False)" by code_simp
  then show ?thesis by (auto split: option.splits prod.splits simp: prod_eq_iff)
qed

lemma session_ready_report_witness:
  "\<exists>s gcs ps. demo_session_run = (Some (None, s), demo_session_list # gcs @ map CreatePod ps) \<and>
     reports ''Unknown'' ''PodsHaveBeenReconciled'' demo_session s \<and>
     list_all2 (restored_pod demo_session) (spec_SessionPodTemplates (session_Spec demo_session)) ps"
proof -
  from demo_session_run_ok obtain s h where run: "demo_session_run = (Some (None, s), h)" by blast
  have other: "length (spec_SessionPodTemplates (session_Spec demo_session)) \<noteq> length demo_items"
    "connected_clients demo_session > 0" by code_simp+
  have "list_all (\<lambda>t. key_of demo_session t \<notin> set (map kpod_Name demo_items))
      (spec_SessionPodTemplates (session_Spec demo_session))" by code_simp
  then have "filter (\<lambda>t. key_of demo_session t \<notin> kpod_Name ` set demo_items) (spec_SessionPodTemplates (session_Spec demo_session)) =
      spec_SessionPodTemplates (session_Spec demo_session)"
    by (simp add: list_all_iff filter_id_conv)
  note all = this
  from session_ready_report [OF permutes_keys_id demo_sets_owner run, unfolded demo_session_items prod.case sum.case
      option.case if_not_P [OF other(1)] if_P [OF other(2)] all] obtain e :: "apiError option" and s' gcs ps where
    r: "Some (None, s) = Some (e, s')" "h = [] @ demo_session_list # gcs @ map CreatePod ps" and
    ps: "list_all2 (restored_pod demo_session) (take (length ps) (spec_SessionPodTemplates (session_Spec demo_session))) ps" and
    report: "if e = None then length ps = length (spec_SessionPodTemplates (session_Spec demo_session)) \<and>
       reports ''Unknown'' ''PodsHaveBeenReconciled'' demo_session s'
     else reports ''False'' ''SessionPodsNotReady'' demo_session s'" by (elim exE conjE) (rule that, assumption+)
  from r(1) report have "length ps = length (spec_SessionPodTemplates (session_Spec demo_session))"
    "reports ''Unknown'' ''PodsHaveBeenReconciled'' demo_session s" by (simp_all only: option.inject prod.inject if_True simp_thms)
  with run r(2) ps show ?thesis by (intro exI [of _ s] exI [of _ gcs] exI [of _ ps]) (simp only: take_all append_Nil order_refl simp_thms)
qed

text \<open>
  C39. When \<open>restorePods\<close> reports no error it has created exactly one pod for every template whose pod
  was not found, in the order of the templates, with the name and the spec of the template, the
  labels \<open>type\<close>, \<open>telepresence\<close> and \<open>svc\<close>, and always in the namespace \<open>default\<close>, provided
  \<open>SetControllerReference\<close> changes nothing but the owner.
\<close>

theorem restores_missing_pods:
  assumes "sets_owner K" and "pods_status session \<noteq> None"
    and "run_state (restorePods K items ts session) h = (Some (None, session'), h')"
  shows "\<exists>ps. h' = h @ map CreatePod ps \<and>
    list_all2 (restored_pod session) (filter (\<lambda>t. key_of session t \<notin> kpod_Name ` set items) ts) ps"
proof -
  from restorePods_asks [OF assms] obtain ps where ps: "h' = h @ map CreatePod ps"
    "list_all2 (\<lambda>t p. spawned (sessionPodObject (key_of session t) (template_Spec t)) p)
      (missing_templates (map kpod_Name items) session ts) ps" by auto
  with list_all2_mono [OF ps(2)] spawned_restored show ?thesis
    unfolding missing_templates_def set_map by blast
qed

lemma restores_missing_pods_witness:
  "\<exists>s ps. run_state (restorePods demo_kube demo_items (spec_SessionPodTemplates (session_Spec demo_session))
       (with_pods_status (Some []) demo_session)) [] = (Some (None, s), map CreatePod ps) \<and>
     list_all2 (restored_pod (with_pods_status (Some []) demo_session))
       (spec_SessionPodTemplates (session_Spec demo_session)) ps"
proof -
  let ?s = "with_pods_status (Some []) demo_session"
  let ?ts = "spec_SessionPodTemplates (session_Spec demo_session)"
  let ?run = "run_state (restorePods demo_kube demo_items ?ts ?s) []"
  have "(case fst ?run of Some (None, _) \<Rightarrow> True | _ \<Rightarrow> False)" by code_simp
  then obtain s h where run: "?run = (Some (None, s), h)"
    by (auto split: option.splits prod.splits simp: prod_eq_iff)
  have some: "pods_status ?s \<noteq> None" by simp
  have "list_all (\<lambda>t. key_of ?s t \<notin> set (map kpod_Name demo_items)) ?ts" by code_simp
  then have "filter (\<lambda>t. key_of ?s t \<notin> kpod_Name ` set demo_items) ?ts = ?ts"
    by (simp add: list_all_iff filter_id_conv)
  with restores_missing_pods [OF demo_sets_owner some run] run show ?thesis by auto
qed

lemma set_decided: "(if b then R \<union> A else R - A) = {n. if n \<in> A then b else n \<in> R}"
  by auto

text \<open>
  C40. When \<open>manageGCRegistrationsForSessionPods\<close> reports no error, its requests leave every session
  pod of the cluster registered exactly when no client of the spec is connected, and every other
  registration as it was.
\<close>

theorem session_pods_registered_iff_idle:
  assumes "run_state (manageGCRegistrationsForSessionPods K session
      (countConnectedClients (entries (spec_Clients (session_Spec session)))) items gs) h = (None, h')"
  shows "\<exists>t. h' = h @ t \<and> registered_after t (gc_Name ` set gs) =
    {n. if n \<in> kpod_Name ` set items
      then \<forall>(c, connected) \<in> set (entries (spec_Clients (session_Spec session))). \<not> connected
      else n \<in> gc_Name ` set gs}"
  using manage_session_gc [OF assms] unfolding countConnectedClients_zero set_decided .

lemma session_pods_registered_iff_idle_witness:
  "\<exists>h. run_state (manageGCRegistrationsForSessionPods demo_kube demo_session
      (countConnectedClients (entries (spec_Clients (session_Spec demo_session)))) demo_items []) [] = (None, h) \<and>
     registered_after h (gc_Name ` set []) = {n. if n \<in> kpod_Name ` set demo_items
      then \<forall>(c, connected) \<in> set (entries (spec_Clients (session_Spec demo_session))). \<not> connected
      else n \<in> gc_Name ` set []}"
proof -
  let ?run = "run_state (manageGCRegistrationsForSessionPods demo_kube demo_session
      (countConnectedClients (entries (spec_Clients (session_Spec demo_session)))) demo_items []) []"
  have "fst ?run = None" by code_simp
  then obtain h where run: "?run = (None, h)" by (metis prod.collapse)
  from session_pods_registered_iff_idle [OF run] run show ?thesis by simp
qed

end
