(* ===== verification/Group_Versions.thy ===== *)
theory Group_Versions
  imports Kube
begin

text \<open>
  The API groups of the program (\<open>groupversion_info.go\<close> and the \<open>init\<close> of both API packages) and the
  registration of their kinds by the session manager (\<open>k8s-client/register.go\<close>).
\<close>

record groupVersion =
  gv_Group :: string
  gv_Version :: string

definition session_GroupVersion :: groupVersion where
  "session_GroupVersion = \<lparr>gv_Group = ''core.mr.telepresence'', gv_Version = ''v1alpha1''\<rparr>"

definition gc_GroupVersion :: groupVersion where
  "gc_GroupVersion = \<lparr>gv_Group = ''gc.mr.telepresence'', gv_Version = ''v1alpha1''\<rparr>"

text \<open>\<open>GroupVersion.String()\<close> for a group with a name.\<close>

definition groupVersionString :: "groupVersion \<Rightarrow> string" where
  "groupVersionString gv = gv_Group gv @ ''/'' @ gv_Version gv"

lemma group_names [simp]:
  "gv_Group session_GroupVersion = ''core.mr.telepresence''" "gv_Group gc_GroupVersion = ''gc.mr.telepresence''"
  by (simp_all add: session_GroupVersion_def gc_GroupVersion_def)

section \<open>Kinds\<close>

datatype kind = SessionKind | SessionListKind | GCRegistrationKind | GCRegistrationListKind
  | PodKind | ServiceKind | IngressKind | NamespaceKind | OtherKind string

text \<open>\<open>SchemeBuilder.Register\<close> of the two API packages.\<close>

definition sessionGroupKinds :: "kind list" where
  "sessionGroupKinds = [SessionKind, SessionListKind]"

definition gcGroupKinds :: "kind list" where
  "gcGroupKinds = [GCRegistrationKind, GCRegistrationListKind]"

section \<open>The registration of the session manager\<close>

text \<open>The calls to a scheme, which is library code.\<close>

datatype schemeCall = AddKnownTypes groupVersion "kind list" | AddToGroupVersion groupVersion

definition addKnownTypes :: "(schemeCall list, string option) state" where
  "addKnownTypes = do {
     _ \<leftarrow> call (AddKnownTypes session_GroupVersion [SessionKind, SessionListKind]) (\<lambda>_. ());
     _ \<leftarrow> call (AddToGroupVersion session_GroupVersion) (\<lambda>_. ());
     ret None }"

text \<open>The session manager registers the kinds that the API package registers.\<close>

lemma addKnownTypes_run: "run_state addKnownTypes h =
    (None, h @ [AddKnownTypes session_GroupVersion sessionGroupKinds, AddToGroupVersion session_GroupVersion])"
  by (simp add: addKnownTypes_def sessionGroupKinds_def)

end
