(* ===== verification/Session_Controller.thy ===== *)
theory Session_Controller
  imports Session_Pods_Spec Group_Versions
begin

text \<open>
  The session controller itself: the events it reacts to (\<open>utils/predicates.go\<close> and the predicates
  of \<open>SetupWithManager\<close>), the indexes its lists use (\<open>utils/indexing.go\<close>), the hash of the status
  (\<open>utils/status.go\<close>) and \<open>Reconcile\<close> of \<open>session_controller.go\<close>.
\<close>

section \<open>Events\<close>

text \<open>
  \<open>SessionUpdateFunc\<close> compares the clients of the spec; the loop over the new ones returns true at the
  first difference, so the order of the visit does not matter.
\<close>

definition SessionUpdateFunc :: "session \<Rightarrow> session \<Rightarrow> bool" where
  "SessionUpdateFunc oldObj newObj =
     (let old = entries (spec_Clients (session_Spec oldObj));
          new = entries (spec_Clients (session_Spec newObj))
      in if length old \<noteq> length new then True
         else list_ex (\<lambda>(specClient, connected).
           (case map_of old specClient of Some v \<Rightarrow> v \<noteq> connected | None \<Rightarrow> True)) new)"

definition PodUpdateFunc :: "kpod \<Rightarrow> kpod \<Rightarrow> bool" where
  "PodUpdateFunc oldObj newObj \<longleftrightarrow>
     ExtractReadyConditionStatusFromPod oldObj \<noteq> ExtractReadyConditionStatusFromPod newObj"

text \<open>
  The predicates of \<open>SetupWithManager\<close>.  They leave out \<open>GenericFunc\<close>, and \<open>predicate.Funcs\<close> lets an
  event pass that has no function.
\<close>

fun sessionEvents :: "session watchEvent \<Rightarrow> bool" where
  "sessionEvents (CreateEvent _) = True"
| "sessionEvents (DeleteEvent _) = False"
| "sessionEvents (UpdateEvent old new) = SessionUpdateFunc old new"
| "sessionEvents (GenericEvent _) = True"

fun podEvents :: "kpod watchEvent \<Rightarrow> bool" where
  "podEvents (CreateEvent _) = False"
| "podEvents (DeleteEvent _) = True"
| "podEvents (UpdateEvent old new) = PodUpdateFunc old new"
| "podEvents (GenericEvent _) = True"

section \<open>Indexes\<close>

text \<open>\<open>sessionv1alpha1.GroupVersion.String()\<close>\<close>

definition sessionGroupVersion :: string where
  "sessionGroupVersion = groupVersionString session_GroupVersion"

definition indexPodByOwner :: "kpod \<Rightarrow> string list" where
  "indexPodByOwner obj =
     (case kpod_Controller obj of
        None \<Rightarrow> []
      | Some owner \<Rightarrow>
          if owner_APIVersion owner \<noteq> sessionGroupVersion \<or> owner_Kind owner \<noteq> ''Session'' then []
          else [owner_Name owner])"

definition indexPodByType :: "kpod \<Rightarrow> string list" where
  "indexPodByType pod =
     (case map_of (entries (kpod_Labels pod)) ''type'' of None \<Rightarrow> [] | Some podType \<Rightarrow> [podType])"

definition indexGCRegistrationBySession :: "gcRegistration \<Rightarrow> string list" where
  "indexGCRegistrationBySession gcRegistration = [ref_Name (gc_Session gcRegistration)]"

section \<open>The hash of the status\<close>

text \<open>
  \<open>json.Marshal\<close> and SHA-256 are library code: parameters.  The marshalled bytes of a failed call are
  the empty list, which the parameter covers.
\<close>

record hashing =
  json_Marshal :: "sessionStatus \<Rightarrow> 8 word list"
  sha256_Sum :: "8 word list \<Rightarrow> 8 word list"

definition HashStatus :: "hashing \<Rightarrow> sessionStatus \<Rightarrow> string" where
  "HashStatus H status = hex_encode (sha256_Sum H (json_Marshal H status))"

definition SetStatusHashAnnotation :: "string \<Rightarrow> session \<Rightarrow> session" where
  "SetStatusHashAnnotation hash session =
     session\<lparr>session_Annotations := Some (map_put ''statusHash'' hash (entries (session_Annotations session)))\<rparr>"

definition StatusHasChanged :: "string \<Rightarrow> string \<Rightarrow> bool" where
  "StatusHasChanged oldStatusHash newStatusHash \<longleftrightarrow> oldStatusHash \<noteq> newStatusHash"

section \<open>Reconcile\<close>

definition getIngressServiceExternalIp :: "kube \<Rightarrow> string option io" where
  "getIngressServiceExternalIp K = do {
     svc \<leftarrow> call (GetService ''ingress-nginx'' ''ingress-nginx-controller'')
       (\<lambda>h. api_GetService K h ''ingress-nginx'' ''ingress-nginx-controller'');
     ret (case svc of
        Inl _ \<Rightarrow> None
      | Inr svc \<Rightarrow> (case svc_LoadBalancerIPs svc of [] \<Rightarrow> None | ip # _ \<Rightarrow> Some ip)) }"

text \<open>The end of \<open>Reconcile\<close>: the update of the status if its hash changed, then the client pods.\<close>

definition spawnClientPods :: "kube \<Rightarrow> session \<Rightarrow> kpod list \<Rightarrow> apiError option option io" where
  "spawnClientPods K session clientPodsToSpawn = do {
     r \<leftarrow> loop_io (\<lambda>pod s. do { r \<leftarrow> SpawnPod K session pod; ret (map_option (\<lambda>err. (err, s)) r) })
       clientPodsToSpawn ();
     ret (map_option fst r) }"

definition updateStatusAndSpawn :: "kube \<Rightarrow> hashing \<Rightarrow> session \<Rightarrow> kpod list \<Rightarrow> apiError option option io" where
  "updateStatusAndSpawn K H session clientPodsToSpawn =
     (let oldStatusHash = map_get_zero [] (entries (session_Annotations session)) ''statusHash'';
          newStatusHash = HashStatus H (session_Status session)
      in if StatusHasChanged oldStatusHash newStatusHash then do {
           r \<leftarrow> call (UpdateSessionStatus session) (\<lambda>h. api_UpdateSessionStatus K h session);
           (case r of
              Inl err \<Rightarrow> ret (Some (Some err))
            | Inr session \<Rightarrow> do {
                let session = SetStatusHashAnnotation newStatusHash session;
                r \<leftarrow> call (UpdateSession session) (\<lambda>h. api_UpdateSession K h session);
                (case r of
                   Inl err \<Rightarrow> ret (Some (Some err))
                 | Inr session \<Rightarrow> spawnClientPods K session clientPodsToSpawn) }) }
         else spawnClientPods K session clientPodsToSpawn)"

definition reconcileClients ::
    "kube \<Rightarrow> hashing \<Rightarrow> iteration \<Rightarrow> (string \<Rightarrow> string \<Rightarrow> string) \<Rightarrow> string \<Rightarrow> session
       \<Rightarrow> gcRegistration list \<Rightarrow> string option \<Rightarrow> apiError option option io" where
  "reconcileClients K H ord newUUID namespace session gcRegistrations ip =
     (if spec_ClientPodTemplates (session_Spec session) \<noteq> [] then do {
        r \<leftarrow> ReconcileClientPods K ord newUUID namespace session gcRegistrations ip;
        (case r of
           None \<Rightarrow> ret None
         | Some (Inl err, _) \<Rightarrow> ret (Some (Some err))
         | Some (Inr pods, session) \<Rightarrow> updateStatusAndSpawn K H session pods) }
      else updateStatusAndSpawn K H session [])"

text \<open>
  The result is the error; the \<open>Result\<close> is always the empty one.  The error of the update of the
  status after failed session pods is dropped.
\<close>

definition Reconcile ::
    "kube \<Rightarrow> hashing \<Rightarrow> iteration \<Rightarrow> (string \<Rightarrow> string \<Rightarrow> string) \<Rightarrow> string \<Rightarrow> string
       \<Rightarrow> apiError option option io" where
  "Reconcile K H ord newUUID namespace name = do {
     r \<leftarrow> call (GetSession namespace name) (\<lambda>h. api_GetSession K h namespace name);
     (case r of
        Inl err \<Rightarrow> ret (Some (if err = NotFound then None else Some err))
      | Inr session \<Rightarrow> do {
          let opts = [(''gcRegistrationSessionField'', session_Name session)];
          r \<leftarrow> call (ListGCRegistrations gcNamespace opts)
            (\<lambda>h. api_ListGCRegistrations K h gcNamespace opts);
          (case r of
             Inl err \<Rightarrow> ret (Some (Some err))
           | Inr gcRegistrations \<Rightarrow> do {
               ip \<leftarrow> getIngressServiceExternalIp K;
               (if spec_SessionPodTemplates (session_Spec session) \<noteq> [] then do {
                  r \<leftarrow> ReconcileSessionPods K ord namespace session gcRegistrations ip;
                  (case r of
                     None \<Rightarrow> ret None
                   | Some (Some err, session) \<Rightarrow> do {
                       _ \<leftarrow> call (UpdateSessionStatus session) (\<lambda>h. api_UpdateSessionStatus K h session);
                       ret (Some (Some err)) }
                   | Some (None, session) \<Rightarrow>
                       reconcileClients K H ord newUUID namespace session gcRegistrations ip) }
                else reconcileClients K H ord newUUID namespace session gcRegistrations ip) }) }) }"

end
