(* ===== verification/Session_Controller_Properties.thy ===== *)
theory Session_Controller_Properties
  imports Session_Controller Client_Properties
begin

text \<open>
  The properties of the session controller: which updates trigger it, which pods its lists find, when
  it stores the status, and in which order it stores and spawns.
\<close>

section \<open>Events and indexes\<close>

text \<open>
  C37. An update of a session triggers a reconciliation exactly when the map of its clients changed:
  \<open>SessionUpdateFunc\<close> decides the equality of the two maps, whatever order their keys have.
\<close>

theorem session_update_iff_clients_differ:
  assumes "map_ok (entries (spec_Clients (session_Spec old)))" and "map_ok (entries (spec_Clients (session_Spec new)))"
  shows "sessionEvents (UpdateEvent old new) \<longleftrightarrow>
    map_of (entries (spec_Clients (session_Spec old))) \<noteq> map_of (entries (spec_Clients (session_Spec new)))"
proof -
  let ?old = "entries (spec_Clients (session_Spec old))" and ?new = "entries (spec_Clients (session_Spec new))"
  have len: "length m = card (dom (map_of m))" if "map_ok m" for m :: "(string, bool) gomap"
    using that distinct_card [of "map_keys m"] by (simp add: map_ok_def map_keys_def flip: set_map_keys)
  have "\<not> sessionEvents (UpdateEvent old new) \<longleftrightarrow>
      length ?old = length ?new \<and> (\<forall>(c, b) \<in> set ?new. map_of ?old c = Some b)"
    by (auto simp: SessionUpdateFunc_def Let_def list_ex_iff split: option.splits)
  also have "\<dots> \<longleftrightarrow> map_of ?old = map_of ?new"
  proof
    assume "map_of ?old = map_of ?new"
    then show "length ?old = length ?new \<and> (\<forall>(c, b) \<in> set ?new. map_of ?old c = Some b)"
      using len [OF assms(1)] len [OF assms(2)] map_of_Some_in_set [OF assms(2)] by auto
  next
    assume eq: "length ?old = length ?new \<and> (\<forall>(c, b) \<in> set ?new. map_of ?old c = Some b)"
    have sub: "map_of ?new \<subseteq>\<^sub>m map_of ?old"
      unfolding map_le_def
    proof
      fix c
      assume "c \<in> dom (map_of ?new)"
      then obtain b where b: "map_of ?new c = Some b" by blast
      then have "(c, b) \<in> set ?new" using map_of_Some_in_set [OF assms(2)] by blast
      with eq have "map_of ?old c = Some b" by blast
      with b show "map_of ?new c = map_of ?old c" by simp
    qed
    then have "dom (map_of ?new) \<subseteq> dom (map_of ?old)" by (rule map_le_implies_dom_le)
    moreover have "card (dom (map_of ?new)) = card (dom (map_of ?old))"
      using eq len [OF assms(1)] len [OF assms(2)] by simp
    ultimately have "dom (map_of ?new) = dom (map_of ?old)"
      by (simp add: card_subset_eq finite_dom_map_of)
    with sub show "map_of ?old = map_of ?new" by (metis map_le_antisym map_le_def)
  qed
  finally show ?thesis by blast
qed

definition with_clients :: "(string, bool) gomap \<Rightarrow> session" where
  "with_clients m = demo_session\<lparr>session_Spec := (session_Spec demo_session)\<lparr>spec_Clients := Some m\<rparr>\<rparr>"

lemma session_update_iff_clients_differ_witness:
  "\<not> sessionEvents (UpdateEvent (with_clients [(''a'', True), (''b'', False)]) (with_clients [(''b'', False), (''a'', True)]))"
proof -
  have ok: "map_ok (entries (spec_Clients (session_Spec (with_clients [(''a'', True), (''b'', False)]))))"
    "map_ok (entries (spec_Clients (session_Spec (with_clients [(''b'', False), (''a'', True)]))))"
    by code_simp+
  show ?thesis
    unfolding session_update_iff_clients_differ [OF ok] by (simp add: with_clients_def fun_eq_iff)
qed

text \<open>\<open>ctrl.SetControllerReference\<close> makes the session the controller of the pod and changes nothing else.\<close>

definition sets_session_owner :: "kube \<Rightarrow> bool" where
  "sets_session_owner K \<longleftrightarrow> (\<forall>session p p'. api_SetPodController K session p = Inr p' \<longrightarrow>
     p' = p\<lparr>kpod_Controller := Some \<lparr>owner_APIVersion = sessionGroupVersion, owner_Kind = ''Session'',
       owner_Name = session_Name session\<rparr>\<rparr>)"

lemma sets_session_owner_owner: "sets_session_owner K \<Longrightarrow> sets_owner K"
  unfolding sets_session_owner_def sets_owner_def by blast

text \<open>
  The session finds the pods it spawned: a pod created by \<open>SpawnPod\<close> is indexed under the name
  of its session and under the type its labels had before, so that the lists of
  \<open>ReconcileSessionPods\<close> and \<open>ReconcileClientPods\<close> with these fields select it.
\<close>

theorem spawned_pod_is_indexed:
  assumes "sets_session_owner K" and "kpod_Labels pod = Some l"
    and "run_state (SpawnPod K session pod) h = (Some None, h')"
  shows "\<exists>p. h' = h @ [CreatePod p] \<and> kpod_Name p = kpod_Name pod \<and>
    indexPodByOwner p = [session_Name session] \<and> indexPodByType p = indexPodByType pod"
proof -
  let ?labelled = "pod\<lparr>kpod_Labels := Some (map_put ''svc'' (kpod_Name pod)
         (map_put ''telepresence'' ''true'' l)), kpod_Namespace := ''default''\<rparr>"
  from assms(3) obtain p where p: "h' = h @ [CreatePod p]"
    "api_SetPodController K session ?labelled = Inr p"
    unfolding SpawnPod_run [OF assms(2)] by (auto split: sum.splits)
  then have "p = ?labelled\<lparr>kpod_Controller := Some \<lparr>owner_APIVersion = sessionGroupVersion,
      owner_Kind = ''Session'', owner_Name = session_Name session\<rparr>\<rparr>"
    using assms(1) unfolding sets_session_owner_def by blast
  then have "kpod_Name p = kpod_Name pod \<and> indexPodByOwner p = [session_Name session] \<and>
      indexPodByType p = indexPodByType pod"
    using assms(2) by (simp add: indexPodByOwner_def indexPodByType_def)
  with p(1) show ?thesis by blast
qed

lemma demo_sets_session_owner: "sets_session_owner demo_kube"
  by (auto simp: sets_session_owner_def demo_kube_def sessionGroupVersion_def groupVersionString_def session_GroupVersion_def)

lemma spawned_pod_is_indexed_witness:
  "\<exists>h p. run_state (SpawnPod demo_kube demo_session (clientPodObject ''demo-1-web-c000'' demo_spec)) [] = (Some None, h) \<and>
     h = [] @ [CreatePod p] \<and> indexPodByOwner p = [''demo-1''] \<and>
     indexPodByType p = indexPodByType (clientPodObject ''demo-1-web-c000'' demo_spec)"
proof -
  let ?pod = "clientPodObject ''demo-1-web-c000'' demo_spec"
  have labels: "kpod_Labels ?pod = Some [(''type'', ''client'')]" by (simp add: clientPodObject_def)
  have "fst (run_state (SpawnPod demo_kube demo_session ?pod) []) = Some None" by code_simp
  then obtain h where run: "run_state (SpawnPod demo_kube demo_session ?pod) [] = (Some None, h)"
    by (metis prod.collapse)
  from spawned_pod_is_indexed [OF demo_sets_session_owner labels run] run show ?thesis by auto
qed

section \<open>The hash of the status\<close>

text \<open>
  The annotation tells whether the status changed as far as the digest does: after
  \<open>SetStatusHashAnnotation\<close> with the hash of a status, \<open>StatusHasChanged\<close> against another status is
  true exactly when the digests of the two marshalled statuses differ; in particular it is false for
  the same status.
\<close>

theorem status_hash_detects_change:
  "StatusHasChanged (map_get_zero [] (entries (session_Annotations
       (SetStatusHashAnnotation (HashStatus H status) session))) ''statusHash'') (HashStatus H status') \<longleftrightarrow>
     sha256_Sum H (json_Marshal H status) \<noteq> sha256_Sum H (json_Marshal H status')"
  by (simp add: StatusHasChanged_def SetStatusHashAnnotation_def HashStatus_def hex_encode_inj)

section \<open>The end of Reconcile\<close>

lemma spawn_loop_exact:
  assumes "sets_owner K" and "\<forall>pod \<in> set pods. kpod_Labels pod \<noteq> None"
    and "run_state (loop_io (\<lambda>pod s. do { r \<leftarrow> SpawnPod K session pod; ret (map_option (\<lambda>err. (err, s)) r) }) pods ()) h
      = (Some (None, u), h')"
  shows "\<exists>ps. h' = h @ map CreatePod ps \<and> list_all2 spawned pods ps"
  using assms(2,3)
proof (induction pods arbitrary: h)
  case Nil
  then show ?case by simp
next
  case (Cons pod pods)
  obtain r h1 where r: "run_state (SpawnPod K session pod) h = (r, h1)" by force
  from Cons.prems(2) r have none: "r = Some None"
    and rest: "run_state (loop_io (\<lambda>pod s. do { r \<leftarrow> SpawnPod K session pod;
        ret (map_option (\<lambda>err. (err, s)) r) }) pods ()) h1 = (Some (None, u), h')"
    by (auto split: option.splits)
  have "kpod_Labels pod \<noteq> None" using Cons.prems(1) by simp
  from SpawnPod_done [OF assms(1) this r [unfolded none]] obtain p where
    p: "h1 = h @ [CreatePod p]" "spawned pod p" by blast
  have "\<forall>pod \<in> set pods. kpod_Labels pod \<noteq> None" using Cons.prems(1) by simp
  from Cons.IH [OF this rest] obtain ps where "h' = h1 @ map CreatePod ps" "list_all2 spawned pods ps" by blast
  with p show ?case by (intro exI [of _ "p # ps"]) simp
qed

lemma spawnClientPods_exact:
  assumes "sets_owner K" and "\<forall>pod \<in> set pods. kpod_Labels pod \<noteq> None"
    and "run_state (spawnClientPods K session pods) h = (Some None, h')"
  shows "\<exists>ps. h' = h @ map CreatePod ps \<and> list_all2 spawned pods ps"
proof -
  let ?loop = "loop_io (\<lambda>pod s. do { r \<leftarrow> SpawnPod K session pod; ret (map_option (\<lambda>err. (err, s)) r) }) pods ()"
  obtain r h1 where r: "run_state ?loop h = (r, h1)" by force
  with assms(3) have "r = Some (None, ())" "h1 = h'"
    by (auto simp: spawnClientPods_def split: prod.splits)
  with r spawn_loop_exact [OF assms(1,2)] show ?thesis by blast
qed

lemma updateStatusAndSpawn_exact:
  assumes "sets_owner K" and "\<forall>pod \<in> set pods. kpod_Labels pod \<noteq> None"
    and "run_state (updateStatusAndSpawn K H session pods) h = (Some None, h')"
  shows "\<exists>updates ps. h' = h @ updates @ map CreatePod ps \<and> list_all2 spawned pods ps \<and>
    (if StatusHasChanged (map_get_zero [] (entries (session_Annotations session)) ''statusHash'')
         (HashStatus H (session_Status session))
     then \<exists>stored. api_UpdateSessionStatus K h session = Inr stored \<and>
       updates = [UpdateSessionStatus session,
         UpdateSession (SetStatusHashAnnotation (HashStatus H (session_Status session)) stored)]
     else updates = [])"
proof (cases "StatusHasChanged (map_get_zero [] (entries (session_Annotations session)) ''statusHash'')
    (HashStatus H (session_Status session))")
  case False
  with assms(3) have "run_state (spawnClientPods K session pods) h = (Some None, h')"
    by (simp add: updateStatusAndSpawn_def Let_def)
  from spawnClientPods_exact [OF assms(1,2) this] False show ?thesis by auto
next
  case True
  let ?hash = "HashStatus H (session_Status session)"
  from True assms(3) obtain stored where stored: "api_UpdateSessionStatus K h session = Inr stored"
    by (cases "api_UpdateSessionStatus K h session") (simp_all add: updateStatusAndSpawn_def Let_def)
  let ?h1 = "h @ [UpdateSessionStatus session]"
  let ?s = "SetStatusHashAnnotation ?hash stored"
  from True assms(3) stored obtain s2 where
    "run_state (spawnClientPods K s2 pods) (?h1 @ [UpdateSession ?s]) = (Some None, h')"
    by (cases "api_UpdateSession K ?h1 ?s") (simp_all add: updateStatusAndSpawn_def Let_def)
  from spawnClientPods_exact [OF assms(1,2) this] obtain ps where
    ps: "h' = (?h1 @ [UpdateSession ?s]) @ map CreatePod ps" "list_all2 spawned pods ps" by blast
  with True stored show ?thesis
    by (intro exI [of _ "[UpdateSessionStatus session, UpdateSession ?s]"] exI [of _ ps]) simp
qed

text \<open>
  The status is stored before its pods exist: when \<open>Reconcile\<close> ends its last part without an
  error, the requests are the update of the status and of the annotation, if and only if the hash
  changed, followed by the creation of exactly the pods asked for, in their order.
\<close>

theorem status_stored_before_pods:
  assumes "sets_owner K" and "\<forall>pod \<in> set pods. kpod_Labels pod \<noteq> None"
    and "run_state (updateStatusAndSpawn K H session pods) h = (Some None, h')"
  shows "\<exists>updates ps. h' = h @ updates @ map CreatePod ps \<and> list_all2 spawned pods ps \<and>
    (if StatusHasChanged (map_get_zero [] (entries (session_Annotations session)) ''statusHash'')
         (HashStatus H (session_Status session))
     then \<exists>stored. api_UpdateSessionStatus K h session = Inr stored \<and>
       updates = [UpdateSessionStatus session,
         UpdateSession (SetStatusHashAnnotation (HashStatus H (session_Status session)) stored)]
     else updates = [])"
  using assms by (rule updateStatusAndSpawn_exact)

lemma status_stored_before_pods_witness:
  "\<exists>h ps. run_state (updateStatusAndSpawn demo_kube \<lparr>json_Marshal = (\<lambda>_. []), sha256_Sum = (\<lambda>bs. [171])\<rparr>
       demo_session [clientPodObject ''demo-1-web-c000'' demo_spec]) [] = (Some None, h) \<and>
     h = [UpdateSessionStatus demo_session, UpdateSession (SetStatusHashAnnotation ''ab'' demo_session)] @
       map CreatePod ps \<and> list_all2 spawned [clientPodObject ''demo-1-web-c000'' demo_spec] ps"
proof -
  let ?H = "\<lparr>json_Marshal = (\<lambda>_. []), sha256_Sum = (\<lambda>bs. [171])\<rparr>"
  let ?pods = "[clientPodObject ''demo-1-web-c000'' demo_spec]"
  let ?run = "run_state (updateStatusAndSpawn demo_kube ?H demo_session ?pods) []"
  have "fst ?run = Some None" by code_simp
  then obtain h where run: "?run = (Some None, h)" by (metis prod.collapse)
  have labels: "\<forall>pod \<in> set ?pods. kpod_Labels pod \<noteq> None" by (simp add: clientPodObject_def)
  have hash: "HashStatus ?H (session_Status demo_session) = ''ab''" by code_simp
  have changed: "StatusHasChanged (map_get_zero [] (entries (session_Annotations demo_session)) ''statusHash'')
      (HashStatus ?H (session_Status demo_session))" unfolding hash by code_simp
  have stored: "api_UpdateSessionStatus demo_kube [] demo_session = Inr demo_session" by (simp add: demo_kube_def)
  from status_stored_before_pods [OF demo_sets_owner labels run] changed run show ?thesis
    unfolding hash stored by auto
qed

section \<open>Reconcile as a whole\<close>

text \<open>
  \<open>Reconcile\<close> writes nothing when it cannot read: if the session or the list of its GC
  registrations cannot be read, no request of the call is a write and the call ends without a panic;
  a session that no longer exists is not an error.
\<close>

theorem failed_reads_write_nothing:
  assumes "case api_GetSession K h ns n of Inl _ \<Rightarrow> True
    | Inr session \<Rightarrow> isl (api_ListGCRegistrations K (h @ [GetSession ns n]) gcNamespace
        [(''gcRegistrationSessionField'', session_Name session)])"
  shows "\<exists>t e. run_state (Reconcile K H ord u ns n) h = (Some e, h @ t) \<and> \<not> list_ex is_write t \<and>
    (api_GetSession K h ns n = Inl NotFound \<longrightarrow> e = None)"
proof (cases "api_GetSession K h ns n")
  case (Inl err)
  then show ?thesis by (simp add: Reconcile_def)
next
  case (Inr session)
  with assms obtain err where "api_ListGCRegistrations K (h @ [GetSession ns n]) gcNamespace
        [(''gcRegistrationSessionField'', session_Name session)] = Inl err" by (auto simp: isl_def)
  with Inr show ?thesis by (simp add: Reconcile_def Let_def)
qed

lemma failed_reads_write_nothing_witness:
  "\<exists>t. run_state (Reconcile demo_kube \<lparr>json_Marshal = (\<lambda>_. []), sha256_Sum = (\<lambda>bs. [171])\<rparr> visit demo_uuid
     ''default'' ''gone'') [] = (Some None, [] @ t) \<and> \<not> list_ex is_write t"
proof -
  have gone: "api_GetSession demo_kube [] ''default'' ''gone'' = Inl NotFound" by (simp add: demo_kube_def)
  then have "case api_GetSession demo_kube [] ''default'' ''gone'' of Inl _ \<Rightarrow> True
    | Inr session \<Rightarrow> isl (api_ListGCRegistrations demo_kube ([] @ [GetSession ''default'' ''gone'']) gcNamespace
        [(''gcRegistrationSessionField'', session_Name session)])" by simp
  from failed_reads_write_nothing [OF this] gone show ?thesis by metis
qed

lemma run_getIngress [simp, io_simps]:
  "run_state (getIngressServiceExternalIp K) h =
     ((case api_GetService K h ''ingress-nginx'' ''ingress-nginx-controller'' of Inl _ \<Rightarrow> None
       | Inr svc \<Rightarrow> (case svc_LoadBalancerIPs svc of [] \<Rightarrow> None | ip # _ \<Rightarrow> Some ip)),
      h @ [GetService ''ingress-nginx'' ''ingress-nginx-controller''])"
  by (simp add: getIngressServiceExternalIp_def)

lemma ReconcileSessionPods_nil_address:
  "api_ListPods K h ns [(''ownerField'', session_Name session), (''podTypeField'', ''session'')] = Inr items \<Longrightarrow>
     fst (run_state (ReconcileSessionPods K ord ns session gs None) h) = None"
  by (simp add: ReconcileSessionPods_def Let_def)

text \<open>The history when the address of the ingress is read, and when the session pods are listed.\<close>

abbreviation before_address :: "history \<Rightarrow> string \<Rightarrow> string \<Rightarrow> session \<Rightarrow> history" where
  "before_address h ns n session \<equiv> h @ [GetSession ns n,
     ListGCRegistrations gcNamespace [(''gcRegistrationSessionField'', session_Name session)]]"

text \<open>
  C36. \<open>Reconcile\<close> panics for every session with session pods as long as the ingress has no address:
  when the session, its registrations and its session pods can be read, session pod templates exist
  and \<open>getIngressServiceExternalIp\<close> finds no address, the call panics.
\<close>

theorem reconcile_needs_ingress_address:
  assumes "api_GetSession K h ns n = Inr session"
    and "api_ListGCRegistrations K (h @ [GetSession ns n]) gcNamespace
      [(''gcRegistrationSessionField'', session_Name session)] = Inr gs"
    and "run_state (getIngressServiceExternalIp K) (before_address h ns n session) = (None, h1)"
    and "spec_SessionPodTemplates (session_Spec session) \<noteq> []"
    and "api_ListPods K h1 ns [(''ownerField'', session_Name session), (''podTypeField'', ''session'')] = Inr items"
  shows "fst (run_state (Reconcile K H ord u ns n) h) = None"
proof -
  let ?pods = "run_state (ReconcileSessionPods K ord ns session gs None) h1"
  obtain h2 where pods: "?pods = (None, h2)"
    using ReconcileSessionPods_nil_address [OF assms(5), of ord gs] by (metis prod.collapse)
  show ?thesis
    using assms(1-4) pods by (simp add: Reconcile_def Let_def del: run_getIngress)
qed

lemma reconcile_needs_ingress_address_witness:
  "fst (run_state (Reconcile (demo_kube\<lparr>api_GetService := (\<lambda>_ _ _. Inl NotFound)\<rparr>)
     \<lparr>json_Marshal = (\<lambda>_. []), sha256_Sum = (\<lambda>bs. [171])\<rparr> visit demo_uuid ''default'' ''demo-1'') []) = None"
proof -
  let ?K = "demo_kube\<lparr>api_GetService := (\<lambda>_ _ _. Inl NotFound)\<rparr>"
  have reads: "api_GetSession ?K [] ''default'' ''demo-1'' = Inr demo_session"
    "api_ListGCRegistrations ?K ([] @ [GetSession ''default'' ''demo-1'']) gcNamespace
      [(''gcRegistrationSessionField'', session_Name demo_session)] = Inr []"
    "api_ListPods ?K h ''default'' sel = Inr demo_items" for h sel
    by (simp_all add: demo_kube_def)
  have address: "run_state (getIngressServiceExternalIp ?K) h = (None, h @ [GetService ''ingress-nginx'' ''ingress-nginx-controller''])" for h
    by simp
  have templates: "spec_SessionPodTemplates (session_Spec demo_session) \<noteq> []" by (simp add: demo_session_def)
  show ?thesis
    by (rule reconcile_needs_ingress_address [OF reads(1,2) address templates reads(3)])
qed

section \<open>From the status to the pods\<close>

lemma gc_trace_creates_no_pod: "CreatePod p \<notin> set (gc_trace session m n w)"
  by (auto simp: gc_trace_def split: option.splits)

lemma manage_trace_creates_no_pod:
  assumes "run_state (manageGCRegistrations K ord session am ru gs) h = (e, h')"
  shows "\<exists>t. h' = h @ t \<and> (\<forall>p. CreatePod p \<notin> set t)"
proof -
  obtain t where t: "h' = h @ t" "prefix t (manage_trace ord session am ru gs)"
    using manageGCRegistrations_run(2) [OF assms] by blast
  have "CreatePod p \<notin> set (manage_trace ord session am ru gs)" for p
    by (auto simp: manage_trace_def gc_trace_creates_no_pod)
  with t(1) set_mono_prefix [OF t(2)] show ?thesis by blast
qed

text \<open>The client part itself creates no pod and keeps the annotations.\<close>

lemma client_part_requests:
  assumes "run_state (ReconcileClientPods K ord u ns session gs ip) h = (Some (Inr pods, session'), h1)"
  obtains t where "h1 = h @ t" "\<forall>p. CreatePod p \<notin> set t" "session_Annotations session' = session_Annotations session"
  using assms
proof (rule ReconcileClientPods_run)
  fix items' st am ru tm st' e
  assume "run_state (manageGCRegistrations K ord session am ru gs) (h @ [ListPods ns (ownedClientPods session)]) = (e, h1)"
  from manage_trace_creates_no_pod [OF this] obtain t where
    "h1 = (h @ [ListPods ns (ownedClientPods session)]) @ t" "\<forall>p. CreatePod p \<notin> set t" by blast
  moreover have "session_Annotations session' = session_Annotations session"
    using assms by (rule ReconcileClientPods_run) (simp add: with_status_clients_def)
  ultimately show thesis by (intro that [of "ListPods ns (ownedClientPods session) # t"]) auto
qed

text \<open>
  The pods follow the status: when the part of \<open>Reconcile\<close> for clients ends without an error, the
  pods it created are, by name, exactly the pods that the new status names and the cluster did not
  have; so every pod in the status exists, and the new status was stored if its hash changed.
\<close>

theorem status_pods_exist:
  assumes "client_call K ord u ns session items h" and "sets_owner K"
    and "spec_ClientPodTemplates (session_Spec session) \<noteq> []"
    and "run_state (reconcileClients K H ord u ns session gs ip) h = (Some None, h')"
  shows "\<exists>session' t. h' = h @ t \<and>
    kpod_Name ` {p. CreatePod p \<in> set t} = status_pod_names session' - kpod_Name ` set items \<and>
    (StatusHasChanged (map_get_zero [] (entries (session_Annotations session)) ''statusHash'')
       (HashStatus H (session_Status session')) \<longrightarrow> UpdateSessionStatus session' \<in> set t)"
proof -
  obtain r h1 where r: "run_state (ReconcileClientPods K ord u ns session gs ip) h = (r, h1)" by force
  obtain pods session' where ok: "r = Some (Inr pods, session')"
    and rest: "run_state (updateStatusAndSpawn K H session' pods) h1 = (Some None, h')"
    using assms(3,4) r by (auto simp: reconcileClients_def split: option.splits sum.splits prod.splits)
  note run = r [unfolded ok]
  note spawn = spawned_pods_exact [OF assms(1) run]
  have labels: "\<forall>pod \<in> set pods. kpod_Labels pod \<noteq> None"
    using spawn by (metis clientPodObject_def kpod.select_convs(3) option.discI)
  from client_part_requests [OF run] obtain t1 where t1: "h1 = h @ t1" "\<forall>p. CreatePod p \<notin> set t1"
    and annotations: "session_Annotations session' = session_Annotations session" .
  from updateStatusAndSpawn_exact [OF assms(2) labels rest] obtain updates ps where
    up: "h' = h1 @ updates @ map CreatePod ps" "list_all2 spawned pods ps"
    "if StatusHasChanged (map_get_zero [] (entries (session_Annotations session)) ''statusHash'')
         (HashStatus H (session_Status session'))
     then \<exists>stored. api_UpdateSessionStatus K h1 session' = Inr stored \<and>
       updates = [UpdateSessionStatus session',
         UpdateSession (SetStatusHashAnnotation (HashStatus H (session_Status session')) stored)]
     else updates = []"
    unfolding annotations by blast
  have names: "map kpod_Name ps = map kpod_Name pods"
    using up(2) by (induction rule: list_all2_induct) (simp_all add: spawned_def)
  let ?changed = "StatusHasChanged (map_get_zero [] (entries (session_Annotations session)) ''statusHash'')
       (HashStatus H (session_Status session'))"
  have up3: "(\<forall>p. CreatePod p \<notin> set updates) \<and> (?changed \<longrightarrow> UpdateSessionStatus session' \<in> set updates)"
    using up(3) by (cases ?changed) auto
  let ?t = "t1 @ updates @ map CreatePod ps"
  have "CreatePod p \<in> set ?t \<longleftrightarrow> p \<in> set ps" for p
    using t1(2) up3 by auto
  then have "kpod_Name ` {p. CreatePod p \<in> set ?t} = kpod_Name ` set ps" by simp
  also have "\<dots> = kpod_Name ` set pods" using names by (metis set_map)
  also have "\<dots> = status_pod_names session' - kpod_Name ` set items" using spawn by blast
  finally have "kpod_Name ` {p. CreatePod p \<in> set ?t} = status_pod_names session' - kpod_Name ` set items" .
  moreover have "?changed \<longrightarrow> UpdateSessionStatus session' \<in> set ?t" using up3 by simp
  moreover have "h' = h @ ?t" unfolding up(1) t1(1) by simp
  ultimately show ?thesis by blast
qed

lemma status_pods_exist_witness:
  "\<exists>h session'. run_state (reconcileClients demo_kube \<lparr>json_Marshal = (\<lambda>_. []), sha256_Sum = (\<lambda>bs. [171])\<rparr>
       visit demo_uuid ''default'' demo_session [] (Some ''10.0.0.1'')) [] = (Some None, h) \<and>
     kpod_Name ` {p. CreatePod p \<in> set h} = status_pod_names session' - kpod_Name ` set demo_items"
proof -
  let ?run = "run_state (reconcileClients demo_kube \<lparr>json_Marshal = (\<lambda>_. []), sha256_Sum = (\<lambda>bs. [171])\<rparr>
       visit demo_uuid ''default'' demo_session [] (Some ''10.0.0.1'')) []"
  have "fst ?run = Some None" by code_simp
  then obtain h where run: "?run = (Some None, h)" by (metis prod.collapse)
  have "spec_ClientPodTemplates (session_Spec demo_session) \<noteq> []" by (simp add: demo_session_def)
  from status_pods_exist [OF demo_call demo_sets_owner this run] run show ?thesis
    by (metis append_Nil)
qed

end
