(* ===== verification/GC_Controller.thy ===== *)
theory GC_Controller
  imports Kube
begin

text \<open>
  The GC controller (\<open>controllers/gc/internal/controller/gc_controller.go\<close>): it visits all
  registrations, drops those whose session or pod is gone, and deletes the pods whose registration
  has expired, at once or after a second period in which the pod may be reused.
\<close>

section \<open>Expiry\<close>

text \<open>
  The deadline is \<open>CreationTimestamp.Add(d)\<close> for the sum \<open>d\<close> of the durations; both the products and
  the sum wrap around at 64 bits.
\<close>

definition registrationHasExpired :: "instant \<Rightarrow> gcRegistration \<Rightarrow> session \<Rightarrow> bool" where
  "registrationHasExpired now registration session =
     (let timeoutDuration = seconds (spec_TimeoutSeconds (session_Spec session)) in
      if gc_Type registration = Timeout
      then time_add (gc_CreationTimestamp registration) timeoutDuration < now
      else
        let reutilizeTimeoutDuration =
          seconds (spec_ReutilizeTimeoutSeconds (session_Spec session)) + timeoutDuration
        in time_add (gc_CreationTimestamp registration) reutilizeTimeoutDuration < now)"

section \<open>Operations\<close>

definition deleteRegistration :: "kube \<Rightarrow> gcRegistration \<Rightarrow> apiError option io" where
  "deleteRegistration K registration = do {
     err \<leftarrow> call (DeleteGCRegistration registration) (\<lambda>h. api_DeleteGCRegistration K h registration);
     (if err \<noteq> None \<and> err \<noteq> Some NotFound then ret err else ret None) }"

definition handleExpiredRegistration ::
    "kube \<Rightarrow> gcRegistration \<Rightarrow> kpod \<Rightarrow> session \<Rightarrow> apiError option io" where
  "handleExpiredRegistration K registration pod session =
     (if gc_Type registration = ReutilizeTimeout \<or>
         (gc_Type registration = Timeout \<and> spec_ReutilizeTimeoutSeconds (session_Spec session) = 0)
      then do {
        err \<leftarrow> call (DeletePod pod) (\<lambda>h. api_DeletePod K h pod);
        (if err \<noteq> None \<and> err \<noteq> Some NotFound then ret err else deleteRegistration K registration) }
      else do {
        let registration = registration\<lparr>gc_Type := ReutilizeTimeout\<rparr>;
        err \<leftarrow> call (UpdateGCRegistration registration) (\<lambda>h. api_UpdateGCRegistration K h registration);
        (if err \<noteq> None \<and> err \<noteq> Some NotFound then ret err else ret None) })"

text \<open>The body of the loop over the registrations.\<close>

definition reconcileRegistration :: "kube \<Rightarrow> gcRegistration \<Rightarrow> apiError option io" where
  "reconcileRegistration K registration = do {
     let namespace = ref_Namespace (gc_Session registration);
     let name = ref_Name (gc_Session registration);
     session \<leftarrow> call (GetSession namespace name) (\<lambda>h. api_GetSession K h namespace name);
     (case session of
        Inl err \<Rightarrow> if err \<noteq> NotFound then ret (Some err) else deleteRegistration K registration
      | Inr session \<Rightarrow> do {
          pod \<leftarrow> call (GetPod namespace (gc_Name registration))
            (\<lambda>h. api_GetPod K h namespace (gc_Name registration));
          (case pod of
             Inl err \<Rightarrow> if err \<noteq> NotFound then ret (Some err) else deleteRegistration K registration
           | Inr pod \<Rightarrow> do {
               now \<leftarrow> peek (api_Now K);
               (if registrationHasExpired now registration session
                then handleExpiredRegistration K registration pod session
                else ret None) }) }) }"

text \<open>
  The result is the error and the duration after which the call is to be repeated, which is ten
  seconds when there was no error.  The namespace of the registrations is a constant of the file.
\<close>

definition requeueAfterSec :: int64 where
  "requeueAfterSec = 10"

definition ReconcileGC :: "kube \<Rightarrow> (int64 \<times> apiError option) io" where
  "ReconcileGC K = do {
     gcRegistrations \<leftarrow> call (ListGCRegistrations ''mr-telepresence-gc'' [])
       (\<lambda>h. api_ListGCRegistrations K h ''mr-telepresence-gc'' []);
     (case gcRegistrations of
        Inl err \<Rightarrow> ret (0, Some err)
      | Inr registrations \<Rightarrow> do {
          err \<leftarrow> for_each (reconcileRegistration K) registrations;
          ret (case err of Some e \<Rightarrow> (0, Some e) | None \<Rightarrow> (seconds requeueAfterSec, None)) }) }"

end
