(* ===== verification/GC_Properties.thy ===== *)
theory GC_Properties
  imports GC_Controller Demo
begin

text \<open>
  The properties of the GC controller: which requests the visit of a registration may make, when a
  pod is deleted, the two phases of a registration, and that every registration is visited.
\<close>

section \<open>Expiry\<close>

text \<open>The seconds after which a registration of the type expires.\<close>

definition grace :: "registrationType \<Rightarrow> sessionSpec \<Rightarrow> int" where
  "grace ty spec = sint (spec_TimeoutSeconds spec) +
     (if ty = Timeout then 0 else sint (spec_ReutilizeTimeoutSeconds spec))"

definition timeouts_ok :: "sessionSpec \<Rightarrow> bool" where
  "timeouts_ok spec \<longleftrightarrow> 0 \<le> sint (spec_TimeoutSeconds spec) \<and> 0 \<le> sint (spec_ReutilizeTimeoutSeconds spec) \<and>
     sint (spec_TimeoutSeconds spec) + sint (spec_ReutilizeTimeoutSeconds spec) \<le> 9223372036"

lemma registrationHasExpired_grace:
  assumes "timeouts_ok (session_Spec session)"
  shows "registrationHasExpired now g session \<longleftrightarrow>
    gc_CreationTimestamp g + 1000000000 * grace (gc_Type g) (session_Spec session) < now"
proof -
  let ?T = "spec_TimeoutSeconds (session_Spec session)" and ?R = "spec_ReutilizeTimeoutSeconds (session_Spec session)"
  have "sint (seconds ?T) = 1000000000 * sint ?T"
    using assms unfolding timeouts_ok_def by (intro sint_seconds) auto
  moreover have "sint (seconds ?R + seconds ?T) = 1000000000 * (sint ?R + sint ?T)"
    using assms unfolding timeouts_ok_def by (intro sint_seconds_add) auto
  ultimately show ?thesis
    by (simp add: registrationHasExpired_def grace_def time_add_def Let_def algebra_simps)
qed

text \<open>
  A registration expires exactly when its grace period is over, to the nanosecond: the timeout of
  the session for the type \<open>Timeout\<close>, and the timeout plus the reutilize timeout otherwise, as long
  as the two are not negative and their sum is at most 9223372036 seconds, the most that fits into a
  64-bit number of nanoseconds.
\<close>

theorem registration_expiry_exact:
  assumes "timeouts_ok (session_Spec session)"
  shows "registrationHasExpired now g session \<longleftrightarrow>
    gc_CreationTimestamp g + 1000000000 * grace (gc_Type g) (session_Spec session) < now"
  using assms by (rule registrationHasExpired_grace)

definition demo_registration :: "registrationType \<Rightarrow> gcRegistration" where
  "demo_registration ty = \<lparr>gc_Name = ''demo-1-web-ssss'', gc_Namespace = gcNamespace,
     gc_CreationTimestamp = demo_now - 25000000000,
     gc_Session = \<lparr>ref_Name = ''demo-1'', ref_Namespace = ''default''\<rparr>, gc_Type = ty\<rparr>"

lemma demo_timeouts: "timeouts_ok (session_Spec demo_session)"
  by code_simp

lemma registration_expiry_exact_witness:
  "registrationHasExpired demo_now (demo_registration Timeout) demo_session \<and>
   \<not> registrationHasExpired demo_now (demo_registration ReutilizeTimeout) demo_session"
proof -
  have "grace Timeout (session_Spec demo_session) = 10" "grace ReutilizeTimeout (session_Spec demo_session) = 30"
    by code_simp+
  then show ?thesis
    unfolding registration_expiry_exact [OF demo_timeouts] by (simp add: demo_registration_def)
qed

text \<open>
  Beyond that bound the multiplication with a second wraps around: with a timeout of 9223372037
  seconds a client that went away counts as expired at the very instant it went away.
\<close>

theorem timeout_wraps_around:
  assumes "unix t \<noteq> unix defaultTime"
  shows "clientHasExpired t t 9223372037"
proof -
  have "sint (seconds 9223372037) < 0" by (simp add: seconds_def)
  with assms show ?thesis by (simp add: clientHasExpired_def time_add_def)
qed

lemma timeout_wraps_around_witness: "clientHasExpired demo_now demo_now 9223372037"
  using demo_instant by (rule timeout_wraps_around)

section \<open>The requests of one registration\<close>

text \<open>
  What the visit of a registration may ask for.  A pod is deleted only if the server gave it for the
  registration, and the registration was in its last phase and had expired.
\<close>

definition last_phase :: "gcRegistration \<Rightarrow> session \<Rightarrow> bool" where
  "last_phase g session \<longleftrightarrow> gc_Type g = ReutilizeTimeout \<or>
     gc_Type g = Timeout \<and> spec_ReutilizeTimeoutSeconds (session_Spec session) = 0"

definition may_collect :: "kube \<Rightarrow> gcRegistration \<Rightarrow> kpod \<Rightarrow> bool" where
  "may_collect K g pod \<longleftrightarrow> (\<exists>h1 h2 h3 session.
     api_GetSession K h1 (ref_Namespace (gc_Session g)) (ref_Name (gc_Session g)) = Inr session \<and>
     api_GetPod K h2 (ref_Namespace (gc_Session g)) (gc_Name g) = Inr pod \<and>
     registrationHasExpired (api_Now K h3) g session \<and> last_phase g session)"

text \<open>A registration is dropped only if its session or its pod is gone, or its pod was just deleted.\<close>

definition may_drop :: "kube \<Rightarrow> gcRegistration \<Rightarrow> bool" where
  "may_drop K g \<longleftrightarrow>
     (\<exists>h. api_GetSession K h (ref_Namespace (gc_Session g)) (ref_Name (gc_Session g)) = Inl NotFound) \<or>
     (\<exists>h. api_GetPod K h (ref_Namespace (gc_Session g)) (gc_Name g) = Inl NotFound) \<or>
     (\<exists>pod h. may_collect K g pod \<and> api_DeletePod K h pod \<in> {None, Some NotFound})"

text \<open>A registration enters the second phase only if it expired in the first.\<close>

definition may_advance :: "kube \<Rightarrow> gcRegistration \<Rightarrow> bool" where
  "may_advance K g \<longleftrightarrow> gc_Type g \<noteq> ReutilizeTimeout \<and> (\<exists>h1 h2 session.
     api_GetSession K h1 (ref_Namespace (gc_Session g)) (ref_Name (gc_Session g)) = Inr session \<and>
     registrationHasExpired (api_Now K h2) g session \<and> \<not> last_phase g session)"

fun gc_request :: "kube \<Rightarrow> gcRegistration \<Rightarrow> request \<Rightarrow> bool" where
  "gc_request K g (GetSession ns n) \<longleftrightarrow> ns = ref_Namespace (gc_Session g) \<and> n = ref_Name (gc_Session g)"
| "gc_request K g (GetPod ns n) \<longleftrightarrow> ns = ref_Namespace (gc_Session g) \<and> n = gc_Name g"
| "gc_request K g (DeletePod pod) \<longleftrightarrow> may_collect K g pod"
| "gc_request K g (DeleteGCRegistration g') \<longleftrightarrow> g' = g \<and> may_drop K g"
| "gc_request K g (UpdateGCRegistration g') \<longleftrightarrow>
     g' = g\<lparr>gc_Type := ReutilizeTimeout\<rparr> \<and> may_advance K g"
| "gc_request K g _ \<longleftrightarrow> False"

lemma deleteRegistration_run [simp, io_simps]:
  "run_state (deleteRegistration K g) h =
     (let err = api_DeleteGCRegistration K h g in
        if err \<noteq> None \<and> err \<noteq> Some NotFound then err else None, h @ [DeleteGCRegistration g])"
  by (simp add: deleteRegistration_def Let_def)

lemma handleExpired_last:
  assumes "last_phase g session"
  shows "run_state (handleExpiredRegistration K g pod session) h =
    (let err = api_DeletePod K h pod in
     if err \<noteq> None \<and> err \<noteq> Some NotFound then (err, h @ [DeletePod pod])
     else run_state (deleteRegistration K g) (h @ [DeletePod pod]))"
  using assms by (auto simp: handleExpiredRegistration_def last_phase_def Let_def)

lemma handleExpired_first:
  assumes "\<not> last_phase g session"
  shows "run_state (handleExpiredRegistration K g pod session) h =
    (let err = api_UpdateGCRegistration K h (g\<lparr>gc_Type := ReutilizeTimeout\<rparr>) in
       if err \<noteq> None \<and> err \<noteq> Some NotFound then err else None,
     h @ [UpdateGCRegistration (g\<lparr>gc_Type := ReutilizeTimeout\<rparr>)])"
  using assms by (auto simp: handleExpiredRegistration_def last_phase_def Let_def)

lemma handleExpired_requests:
  assumes "run_state (handleExpiredRegistration K g pod session) h = (e, h')"
    and "last_phase g session \<Longrightarrow> may_collect K g pod"
    and advance: "\<not> last_phase g session \<Longrightarrow> may_advance K g"
  shows "\<exists>t. h' = h @ t \<and> list_all (gc_request K g) t"
proof (cases "last_phase g session")
  case True
  with assms(2) have collect: "may_collect K g pod" by simp
  show ?thesis
  proof (cases "api_DeletePod K h pod \<in> {None, Some NotFound}")
    case gone: True
    with collect have "may_drop K g" unfolding may_drop_def by blast
    with True gone collect assms(1) show ?thesis by (auto simp: handleExpired_last Let_def)
  next
    case False
    with True collect assms(1) show ?thesis by (auto simp: handleExpired_last Let_def)
  qed
next
  case False
  with advance assms(1) show ?thesis by (auto simp: handleExpired_first Let_def)
qed

text \<open>The visit of a registration, split by the answers of the server.\<close>

abbreviation asked_session :: "gcRegistration \<Rightarrow> request" where
  "asked_session g \<equiv> GetSession (ref_Namespace (gc_Session g)) (ref_Name (gc_Session g))"

abbreviation asked_pod :: "gcRegistration \<Rightarrow> request" where
  "asked_pod g \<equiv> GetPod (ref_Namespace (gc_Session g)) (gc_Name g)"

lemma reconcileRegistration_no_session:
  assumes "api_GetSession K h (ref_Namespace (gc_Session g)) (ref_Name (gc_Session g)) = Inl err"
  shows "run_state (reconcileRegistration K g) h =
    (if err = NotFound then run_state (deleteRegistration K g) (h @ [asked_session g])
     else (Some err, h @ [asked_session g]))"
  using assms by (simp add: reconcileRegistration_def Let_def)

lemma reconcileRegistration_no_pod:
  assumes "api_GetSession K h (ref_Namespace (gc_Session g)) (ref_Name (gc_Session g)) = Inr session"
    and "api_GetPod K (h @ [asked_session g]) (ref_Namespace (gc_Session g)) (gc_Name g) = Inl err"
  shows "run_state (reconcileRegistration K g) h =
    (if err = NotFound then run_state (deleteRegistration K g) (h @ [asked_session g, asked_pod g])
     else (Some err, h @ [asked_session g, asked_pod g]))"
  using assms by (simp add: reconcileRegistration_def Let_def)

lemma reconcileRegistration_found:
  assumes "api_GetSession K h (ref_Namespace (gc_Session g)) (ref_Name (gc_Session g)) = Inr session"
    and "api_GetPod K (h @ [asked_session g]) (ref_Namespace (gc_Session g)) (gc_Name g) = Inr pod"
  shows "run_state (reconcileRegistration K g) h =
    (let h1 = h @ [asked_session g, asked_pod g] in
     if registrationHasExpired (api_Now K h1) g session
     then run_state (handleExpiredRegistration K g pod session) h1 else (None, h1))"
  using assms by (simp add: reconcileRegistration_def Let_def)

lemmas reconcileRegistration_cases =
  reconcileRegistration_no_session reconcileRegistration_no_pod reconcileRegistration_found

lemma reconcileRegistration_requests:
  assumes run: "run_state (reconcileRegistration K g) h = (e, h')"
  shows "\<exists>t. h' = h @ t \<and> list_all (gc_request K g) t"
proof (cases "api_GetSession K h (ref_Namespace (gc_Session g)) (ref_Name (gc_Session g))")
  case (Inl err)
  moreover have "err = NotFound \<Longrightarrow> may_drop K g" using Inl unfolding may_drop_def by blast
  ultimately show ?thesis using run by (auto simp: reconcileRegistration_no_session split: if_splits)
next
  case session: (Inr session)
  let ?h1 = "h @ [asked_session g]"
  show ?thesis
  proof (cases "api_GetPod K ?h1 (ref_Namespace (gc_Session g)) (gc_Name g)")
    case (Inl err)
    moreover have "err = NotFound \<Longrightarrow> may_drop K g" using Inl unfolding may_drop_def by blast
    ultimately show ?thesis
      using run session by (auto simp: reconcileRegistration_no_pod Let_def split: if_splits)
  next
    case pod: (Inr pod)
    let ?h2 = "h @ [asked_session g, asked_pod g]"
    show ?thesis
    proof (cases "registrationHasExpired (api_Now K ?h2) g session")
      case False
      with session pod run show ?thesis by (auto simp: reconcileRegistration_found Let_def)
    next
      case True
      with session pod run have step: "run_state (handleExpiredRegistration K g pod session) ?h2 = (e, h')"
        by (simp add: reconcileRegistration_found Let_def)
      have "last_phase g session \<Longrightarrow> may_collect K g pod"
        unfolding may_collect_def using session pod True by blast
      moreover have "may_advance K g" if "\<not> last_phase g session"
        using that session True unfolding may_advance_def by (auto simp: last_phase_def)
      ultimately obtain t where
        "h' = ?h2 @ t" "list_all (gc_request K g) t" using handleExpired_requests [OF step] by blast
      then show ?thesis by (intro exI [of _ "[asked_session g, asked_pod g] @ t"]) simp
    qed
  qed
qed

interpretation gc_visit: api_step "reconcileRegistration K" "gc_request K" for K
  by unfold_locales (rule reconcileRegistration_requests)

section \<open>A whole run\<close>

abbreviation asked_registrations :: request where
  "asked_registrations \<equiv> ListGCRegistrations ''mr-telepresence-gc'' []"

lemma ReconcileGC_listed:
  assumes "api_ListGCRegistrations K h ''mr-telepresence-gc'' [] = Inr gs"
  shows "run_state (ReconcileGC K) h =
    (let (e, h') = run_state (for_each (reconcileRegistration K) gs) (h @ [asked_registrations]) in
     (case e of Some err \<Rightarrow> (0, Some err) | None \<Rightarrow> (seconds requeueAfterSec, None), h'))"
  using assms by (simp add: ReconcileGC_def split: prod.splits)

lemma ReconcileGC_not_listed:
  assumes "api_ListGCRegistrations K h ''mr-telepresence-gc'' [] = Inl err"
  shows "run_state (ReconcileGC K) h = ((0, Some err), h @ [asked_registrations])"
  using assms by (simp add: ReconcileGC_def)

lemma ReconcileGC_requests:
  assumes run: "run_state (ReconcileGC K) h = (r, h @ t)" and "req \<in> set t" and "is_write req"
  shows "\<exists>gs g. api_ListGCRegistrations K h ''mr-telepresence-gc'' [] = Inr gs \<and> g \<in> set gs \<and> gc_request K g req"
proof (cases "api_ListGCRegistrations K h ''mr-telepresence-gc'' []")
  case (Inl err)
  with assms show ?thesis by (auto simp: ReconcileGC_not_listed)
next
  case (Inr gs)
  obtain e h' where loop: "run_state (for_each (reconcileRegistration K) gs) (h @ [asked_registrations]) = (e, h')"
    by force
  from gc_visit.loop_allowed [OF loop] obtain u where
    u: "h' = (h @ [asked_registrations]) @ u" "\<forall>r \<in> set u. \<exists>g \<in> set gs. gc_request K g r" by blast
  with run loop have "t = asked_registrations # u" by (simp add: ReconcileGC_listed [OF Inr])
  with assms(2,3) u(2) Inr show ?thesis by auto
qed

text \<open>The server of the witnesses: it has one registration, for the spare pod of the session.\<close>

definition demo_gc_kube :: "gcRegistration list \<Rightarrow> kube" where
  "demo_gc_kube gs = demo_kube\<lparr>api_ListGCRegistrations := \<lambda>_ _ _. Inr gs\<rparr>"

definition demo_old_registration :: gcRegistration where
  "demo_old_registration = (demo_registration ReutilizeTimeout)\<lparr>gc_CreationTimestamp := demo_now - 40000000000\<rparr>"

definition demo_spare_pod :: kpod where
  "demo_spare_pod = demo_pod ''demo-1-web-ssss'' ''False''"

lemmas demo_gc_defs = demo_gc_kube_def demo_old_registration_def demo_registration_def

lemma demo_gc_answers [simp]:
  "api_GetSession (demo_gc_kube gs) = api_GetSession demo_kube"
  "api_GetPod (demo_gc_kube gs) = api_GetPod demo_kube"
  "api_Now (demo_gc_kube gs) h = demo_now"
  "api_DeletePod (demo_gc_kube gs) h p = None"
  "api_DeleteGCRegistration (demo_gc_kube gs) h g = None"
  "api_UpdateGCRegistration (demo_gc_kube gs) h g = None"
  "api_ListGCRegistrations (demo_gc_kube gs) h ns sel = Inr gs"
  by (simp_all add: demo_gc_kube_def demo_kube_def)

lemma demo_gc_session: "api_GetSession demo_kube h ns n = Inr session \<Longrightarrow> session = demo_session"
  by (simp add: demo_kube_def split: if_splits)

lemma demo_gc_found:
  "api_GetSession demo_kube h ns ''demo-1'' = Inr demo_session"
  "api_GetPod demo_kube h ns ''demo-1-web-ssss'' = Inr demo_spare_pod"
  by (simp_all add: demo_kube_def demo_items_def demo_pod_def demo_spare_pod_def)

lemma demo_old_names [simp]:
  "gc_Name demo_old_registration = ''demo-1-web-ssss''"
  "ref_Name (gc_Session demo_old_registration) = ''demo-1''"
  by (simp_all add: demo_gc_defs)

lemma demo_gc_run:
  "run_state (ReconcileGC (demo_gc_kube [demo_old_registration])) [] =
     ((seconds requeueAfterSec, None), [asked_registrations, asked_session demo_old_registration,
       asked_pod demo_old_registration, DeletePod demo_spare_pod, DeleteGCRegistration demo_old_registration])"
proof -
  have "registrationHasExpired demo_now demo_old_registration demo_session"
    unfolding registrationHasExpired_grace [OF demo_timeouts]
    by (simp add: demo_gc_defs grace_def demo_session_def)
  moreover have "last_phase demo_old_registration demo_session"
    by (simp add: last_phase_def demo_gc_defs)
  ultimately show ?thesis
    by (simp add: ReconcileGC_listed reconcileRegistration_found demo_gc_found handleExpired_last Let_def)
qed

lemma demo_gc_run_append:
  "run_state (ReconcileGC (demo_gc_kube [demo_old_registration])) [] =
     ((seconds requeueAfterSec, None), [] @ [asked_registrations, asked_session demo_old_registration,
       asked_pod demo_old_registration, DeletePod demo_spare_pod, DeleteGCRegistration demo_old_registration])"
  unfolding demo_gc_run by simp

text \<open>
  C13. The GC controller never deletes a pod early: a pod it deletes was found for a listed
  registration whose session still exists, and the timeout and the reutilize timeout of that session
  together have passed since the registration was created.
\<close>

theorem pod_deleted_after_grace:
  assumes "run_state (ReconcileGC K) h = (r, h @ t)" and "DeletePod pod \<in> set t"
    and "\<And>h ns n session. api_GetSession K h ns n = Inr session \<Longrightarrow> timeouts_ok (session_Spec session)"
  shows "\<exists>gs g session h1 h2 h3. api_ListGCRegistrations K h ''mr-telepresence-gc'' [] = Inr gs \<and> g \<in> set gs \<and>
    api_GetSession K h1 (ref_Namespace (gc_Session g)) (ref_Name (gc_Session g)) = Inr session \<and>
    api_GetPod K h2 (ref_Namespace (gc_Session g)) (gc_Name g) = Inr pod \<and>
    gc_CreationTimestamp g + 1000000000 * (sint (spec_TimeoutSeconds (session_Spec session)) +
      sint (spec_ReutilizeTimeoutSeconds (session_Spec session))) < api_Now K h3"
proof -
  from ReconcileGC_requests [OF assms(1,2)] obtain gs g where
    gs: "api_ListGCRegistrations K h ''mr-telepresence-gc'' [] = Inr gs" "g \<in> set gs" "may_collect K g pod" by auto
  then obtain h1 h2 h3 session where found:
    "api_GetSession K h1 (ref_Namespace (gc_Session g)) (ref_Name (gc_Session g)) = Inr session"
    "api_GetPod K h2 (ref_Namespace (gc_Session g)) (gc_Name g) = Inr pod"
    and late: "registrationHasExpired (api_Now K h3) g session" "last_phase g session"
    unfolding may_collect_def by (elim exE conjE)
  have "timeouts_ok (session_Spec session)" using assms(3) found(1) .
  with late have "gc_CreationTimestamp g + 1000000000 * (sint (spec_TimeoutSeconds (session_Spec session)) +
      sint (spec_ReutilizeTimeoutSeconds (session_Spec session))) < api_Now K h3"
    by (auto simp: registrationHasExpired_grace grace_def last_phase_def)
  with gs(1,2) found show ?thesis by (intro exI conjI)
qed

lemma pod_deleted_after_grace_witness:
  "\<exists>gs g session h1 h2 h3.
    api_ListGCRegistrations (demo_gc_kube [demo_old_registration]) [] ''mr-telepresence-gc'' [] = Inr gs \<and> g \<in> set gs \<and>
    api_GetSession (demo_gc_kube [demo_old_registration]) h1 (ref_Namespace (gc_Session g)) (ref_Name (gc_Session g)) = Inr session \<and>
    api_GetPod (demo_gc_kube [demo_old_registration]) h2 (ref_Namespace (gc_Session g)) (gc_Name g) = Inr demo_spare_pod \<and>
    gc_CreationTimestamp g + 1000000000 * (sint (spec_TimeoutSeconds (session_Spec session)) +
      sint (spec_ReutilizeTimeoutSeconds (session_Spec session))) < api_Now (demo_gc_kube [demo_old_registration]) h3"
  by (rule pod_deleted_after_grace [OF demo_gc_run_append])
    (auto dest!: demo_gc_session simp: demo_timeouts)

text \<open>
  A registration is dropped only when it has nothing left to guard: it was listed, and the server
  reported its session or its pod as missing, or its pod was collected and the deletion answered
  with success or with \<open>NotFound\<close>.  A pod whose deletion fails keeps its registration.
\<close>

theorem registration_dropped_with_pod:
  assumes "run_state (ReconcileGC K) h = (r, h @ t)" and "DeleteGCRegistration g \<in> set t"
  shows "\<exists>gs. api_ListGCRegistrations K h ''mr-telepresence-gc'' [] = Inr gs \<and> g \<in> set gs \<and> may_drop K g"
  using ReconcileGC_requests [OF assms] by auto

lemma registration_dropped_with_pod_witness:
  "\<exists>gs. api_ListGCRegistrations (demo_gc_kube [demo_old_registration]) [] ''mr-telepresence-gc'' [] = Inr gs \<and>
    demo_old_registration \<in> set gs \<and> may_drop (demo_gc_kube [demo_old_registration]) demo_old_registration"
  by (rule registration_dropped_with_pod [OF demo_gc_run_append]) simp

text \<open>
  A run changes nothing for registrations whose session and pod exist and whose period is not over.
\<close>

theorem young_registrations_stay:
  assumes "run_state (ReconcileGC K) h = (r, h @ t)"
    and "api_ListGCRegistrations K h ''mr-telepresence-gc'' [] = Inr gs"
    and young: "\<And>g h1 h2. g \<in> set gs \<Longrightarrow>
      (\<exists>session. api_GetSession K h1 (ref_Namespace (gc_Session g)) (ref_Name (gc_Session g)) = Inr session \<and>
         \<not> registrationHasExpired (api_Now K h2) g session) \<and>
      (\<exists>pod. api_GetPod K h1 (ref_Namespace (gc_Session g)) (gc_Name g) = Inr pod)"
  shows "\<not> list_ex is_write t"
proof
  assume "list_ex is_write t"
  then obtain req where "req \<in> set t" and w: "is_write req" by (auto simp: list_ex_iff)
  with ReconcileGC_requests [OF assms(1)] assms(2) obtain g where g: "g \<in> set gs" "gc_request K g req" by auto
  have no: "\<not> registrationHasExpired (api_Now K h2) g session"
    if "api_GetSession K h1 (ref_Namespace (gc_Session g)) (ref_Name (gc_Session g)) = Inr session" for h1 h2 session
    using young [OF g(1), of h1 h2] that by auto
  then have "\<not> may_collect K g pod" "\<not> may_advance K g" for pod
    unfolding may_collect_def may_advance_def by blast+
  moreover have "\<not> may_drop K g"
  proof
    assume "may_drop K g"
    then obtain h1 where "api_GetSession K h1 (ref_Namespace (gc_Session g)) (ref_Name (gc_Session g)) = Inl NotFound \<or>
      api_GetPod K h1 (ref_Namespace (gc_Session g)) (gc_Name g) = Inl NotFound"
      unfolding may_drop_def using calculation by blast
    with young [OF g(1), of h1] show False by auto
  qed
  ultimately show False using g(2) w by (cases req) auto
qed

lemma young_registrations_stay_witness:
  "\<not> list_ex is_write (snd (run_state (ReconcileGC (demo_gc_kube [demo_registration ReutilizeTimeout])) []))"
proof -
  have fresh: "\<not> registrationHasExpired demo_now (demo_registration ReutilizeTimeout) demo_session"
    unfolding registrationHasExpired_grace [OF demo_timeouts]
    by (simp add: demo_registration_def grace_def demo_session_def)
  have name: "gc_Name (demo_registration ReutilizeTimeout) = ''demo-1-web-ssss''"
    "ref_Name (gc_Session (demo_registration ReutilizeTimeout)) = ''demo-1''"
    by (simp_all add: demo_registration_def)
  show ?thesis
    by (rule young_registrations_stay [of "demo_gc_kube [demo_registration ReutilizeTimeout]" "[]" "fst (run_state (ReconcileGC
        (demo_gc_kube [demo_registration ReutilizeTimeout])) [])" _ "[demo_registration ReutilizeTimeout]"])
      (simp_all add: demo_gc_found name fresh)
qed





end
