(* ===== verification/Network.thy ===== *)
theory Network
  imports Kube
begin

text \<open>
  The network controller (\<open>controllers/network/internal/controller/network_controller.go\<close> and
  \<open>ingress.go\<close>): it gives every telepresence pod a service and publishes the ports of the services
  as paths of one ingress.
\<close>

section \<open>Services\<close>

text \<open>
  The map from names to services holds pointers.  A pointer is nil after a service could not be
  created because it exists already.
\<close>

type_synonym servicesMap = "(string, service option) gomap"

definition telepresenceLabel :: selector where
  "telepresenceLabel = [(''telepresence'', ''true'')]"

definition serviceKey :: "string \<Rightarrow> string" where
  "serviceKey podName = podName @ ''-svc''"

definition servicePorts :: "kpod \<Rightarrow> servicePort list" where
  "servicePorts forPod =
     (let ports = concat (map (\<lambda>container. map (\<lambda>port.
            \<lparr>svcPort_Protocol = port_Protocol port, svcPort_Port = port_ContainerPort port,
             svcPort_Name = port_Name port\<rparr>) (container_Ports container))
            (podSpec_Containers (kpod_Spec forPod)))
      in if ports = []
         then [\<lparr>svcPort_Protocol = ''TCP'', svcPort_Port = 8080, svcPort_Name = ''default''\<rparr>]
         else ports)"

definition newService :: "string \<Rightarrow> kpod \<Rightarrow> service" where
  "newService namespace forPod =
     \<lparr>svc_Name = serviceKey (kpod_Name forPod), svc_Namespace = namespace,
      svc_Labels = Some [(''telepresence'', ''true'')], svc_Ports = servicePorts forPod,
      svc_Selector = [(''svc'', kpod_Name forPod)], svc_LoadBalancerIPs = []\<rparr>"

definition spawnService :: "kube \<Rightarrow> string \<Rightarrow> kpod \<Rightarrow> (apiError + service) io" where
  "spawnService K namespace forPod =
     (case api_SetServiceController K forPod (newService namespace forPod) of
        Inl err \<Rightarrow> ret (Inl err)
      | Inr service \<Rightarrow> call (CreateService service) (\<lambda>h. api_CreateService K h service))"

text \<open>The loop over the pods; it returns the error and the map as the loop leaves it.\<close>

fun spawnServices ::
    "kube \<Rightarrow> string \<Rightarrow> kpod list \<Rightarrow> servicesMap \<Rightarrow> (apiError option \<times> servicesMap) io" where
  "spawnServices K namespace [] services = ret (None, services)"
| "spawnServices K namespace (pod # pods) services =
     (let key = serviceKey (kpod_Name pod) in
      case map_of services key of
        Some _ \<Rightarrow> spawnServices K namespace pods services
      | None \<Rightarrow> do {
          r \<leftarrow> spawnService K namespace pod;
          (case r of
             Inl err \<Rightarrow>
               if err \<noteq> AlreadyExists then ret (Some err, services)
               else spawnServices K namespace pods (map_put key None services)
           | Inr service \<Rightarrow> spawnServices K namespace pods (map_put key (Some service) services)) })"

section \<open>The ingress\<close>

text \<open>
  \<open>ingress.Spec.Rules[0].HTTP.Paths\<close>, which panics without a rule and when the first rule has no
  paths, and its assignment.
\<close>

definition ingressPaths :: "ingress \<Rightarrow> httpIngressPath list option" where
  "ingressPaths ingress = (case ingress_Rules ingress of [] \<Rightarrow> None | rule # _ \<Rightarrow> rule_HTTP rule)"

definition setIngressPaths :: "httpIngressPath list \<Rightarrow> ingress \<Rightarrow> ingress" where
  "setIngressPaths paths ingress =
     ingress\<lparr>ingress_Rules := (ingress_Rules ingress)[0 := (ingress_Rules ingress ! 0)\<lparr>rule_HTTP := Some paths\<rparr>]\<rparr>"

definition sessionManagerPath :: string where
  "sessionManagerPath = ''/session-manager(/|$)(.*)''"

text \<open>
  The index loop of \<open>ingressGarbageCollection\<close>: after a deletion the index stays, since the loop
  decrements it before it increments it.  \<open>None\<close> is the panic of the index 1 of the split path.
\<close>

function ingressGCLoop ::
    "servicesMap \<Rightarrow> nat \<Rightarrow> httpIngressPath list \<Rightarrow> string set \<Rightarrow> bool
       \<Rightarrow> (httpIngressPath list \<times> string set \<times> bool) option" where
  "ingressGCLoop services i paths ingressPodsSet updated =
     (if i < length paths then
        (let pathStr = path_Path (paths ! i) in
         if pathStr = sessionManagerPath
         then ingressGCLoop services (Suc i) paths ingressPodsSet updated
         else (case go_index (split_on CHR ''/'' pathStr) 1 of
             None \<Rightarrow> None
           | Some podNameFromPath \<Rightarrow>
               if map_of services (serviceKey podNameFromPath) = None
               then ingressGCLoop services i (take i paths @ drop (Suc i) paths)
                 (insert podNameFromPath ingressPodsSet) True
               else ingressGCLoop services (Suc i) paths
                 (insert podNameFromPath ingressPodsSet) updated))
      else Some (paths, ingressPodsSet, updated))"
  by pat_completeness auto

termination
  by (relation "measure (\<lambda>(services, i, paths, pods, updated). length paths - i)") auto

declare ingressGCLoop.simps [simp del]

definition ingressGarbageCollection :: "ingress \<Rightarrow> servicesMap \<Rightarrow> (ingress \<times> string set \<times> bool) option" where
  "ingressGarbageCollection ingress services = do {
     paths \<leftarrow> ingressPaths ingress;
     (paths, ingressPodsSet, updated) \<leftarrow> ingressGCLoop services 0 paths {} False;
     Some (setIngressPaths paths ingress, ingressPodsSet, updated) }"

text \<open>\<open>serviceName[:len(serviceName)-4]\<close> panics on a shorter name.\<close>

definition podNameOfService :: "string \<Rightarrow> string option" where
  "podNameOfService serviceName =
     (if 4 \<le> length serviceName then Some (take (length serviceName - 4) serviceName) else None)"

definition routePath :: "string \<Rightarrow> string \<Rightarrow> string" where
  "routePath podName portName = ''/'' @ podName @ ''/'' @ portName @ ''(/|$)(.*)''"

definition route :: "string \<Rightarrow> service \<Rightarrow> servicePort \<Rightarrow> httpIngressPath" where
  "route podName service port =
     \<lparr>path_Path = routePath podName (svcPort_Name port), path_PathType = ''ImplementationSpecific'',
      path_ServiceName = svc_Name service, path_PortNumber = svcPort_Port port\<rparr>"

text \<open>
  The body of the loop over the services.  The name is cut before the set is asked, and a nil
  service panics when its ports are read.
\<close>

definition publishService ::
    "servicesMap \<Rightarrow> string set \<Rightarrow> string \<Rightarrow> httpIngressPath list \<times> bool
       \<Rightarrow> (httpIngressPath list \<times> bool) option" where
  "publishService services ingressPodsSet serviceName = (\<lambda>(paths, updated). do {
     podName \<leftarrow> podNameOfService serviceName;
     (if podName \<in> ingressPodsSet then Some (paths, updated)
      else do {
        service \<leftarrow> Option.bind (map_of services serviceName) id;
        let ports = svc_Ports service;
        Some (paths @ map (route podName service) ports, updated \<or> ports \<noteq> []) }) })"

datatype networkLoop = RangeServices

definition publishToIngress ::
    "(networkLoop \<Rightarrow> string list \<Rightarrow> string list) \<Rightarrow> ingress \<Rightarrow> servicesMap \<Rightarrow> string set
       \<Rightarrow> (ingress \<times> bool) option" where
  "publishToIngress ord ingress services ingressPodsSet = do {
     paths \<leftarrow> ingressPaths ingress;
     (paths, updated) \<leftarrow> fold_opt (publishService services ingressPodsSet)
       (ord RangeServices (map_keys services)) (paths, False);
     Some (setIngressPaths paths ingress, updated) }"

definition reconcileIngress ::
    "kube \<Rightarrow> (networkLoop \<Rightarrow> string list \<Rightarrow> string list) \<Rightarrow> servicesMap \<Rightarrow> apiError option option io" where
  "reconcileIngress K ord services = do {
     r \<leftarrow> call (GetIngress ''default'' ''ingress'') (\<lambda>h. api_GetIngress K h ''default'' ''ingress'');
     (case r of
        Inl err \<Rightarrow> ret (Some (Some err))
      | Inr ingress \<Rightarrow>
          (case ingressGarbageCollection ingress services of
             None \<Rightarrow> ret None
           | Some (ingress, ingressPodsSet, ingressUpdatedByGC) \<Rightarrow>
               (case publishToIngress ord ingress services ingressPodsSet of
                  None \<Rightarrow> ret None
                | Some (ingress, ingressUpdatedByPub) \<Rightarrow>
                    if ingressUpdatedByGC \<or> ingressUpdatedByPub then do {
                      err \<leftarrow> call (UpdateIngress ingress) (\<lambda>h. api_UpdateIngress K h ingress);
                      ret (Some err) }
                    else ret (Some None)))) }"

section \<open>Reconcile\<close>

definition servicesByName :: "service list \<Rightarrow> servicesMap" where
  "servicesByName services = fold (\<lambda>service m. map_put (svc_Name service) (Some service) m) services []"

definition ReconcileNetwork ::
    "kube \<Rightarrow> (networkLoop \<Rightarrow> string list \<Rightarrow> string list) \<Rightarrow> string \<Rightarrow> apiError option option io" where
  "ReconcileNetwork K ord namespace = do {
     pods \<leftarrow> call (ListPods namespace telepresenceLabel) (\<lambda>h. api_ListPods K h namespace telepresenceLabel);
     (case pods of
        Inl err \<Rightarrow> ret (Some (Some err))
      | Inr pods \<Rightarrow> do {
          services \<leftarrow> call (ListServices namespace telepresenceLabel)
            (\<lambda>h. api_ListServices K h namespace telepresenceLabel);
          (case services of
             Inl err \<Rightarrow> ret (Some (Some err))
           | Inr services \<Rightarrow> do {
               (err, services) \<leftarrow> spawnServices K namespace pods (servicesByName services);
               (case err of
                  Some err \<Rightarrow> ret (Some (Some err))
                | None \<Rightarrow> reconcileIngress K ord services) }) }) }"

section \<open>Events\<close>

text \<open>
  An event of a service or pod with the label becomes a request for its name and namespace.
\<close>

definition handleEvent :: "(string, string) nilmap \<Rightarrow> string \<Rightarrow> string \<Rightarrow> (string \<times> string) list" where
  "handleEvent labels name namespace =
     (case map_of (entries labels) ''telepresence'' of
        Some val \<Rightarrow> if val = ''true'' then [(name, namespace)] else []
      | None \<Rightarrow> [])"

fun networkServiceEvents :: "service watchEvent \<Rightarrow> bool" where
  "networkServiceEvents (CreateEvent _) = False"
| "networkServiceEvents (DeleteEvent _) = True"
| "networkServiceEvents (UpdateEvent _ _) = False"
| "networkServiceEvents (GenericEvent _) = False"

fun networkPodEvents :: "kpod watchEvent \<Rightarrow> bool" where
  "networkPodEvents (CreateEvent _) = True"
| "networkPodEvents (DeleteEvent _) = False"
| "networkPodEvents (UpdateEvent _ _) = False"
| "networkPodEvents (GenericEvent _) = False"

end
