(* ===== verification/Network_Spec.thy ===== *)
theory Network_Spec
  imports Network
begin

text \<open>
  What the network controller computes, without its loops: the garbage collection of the ingress is a
  filter, the publication appends the routes of the new services, and \<open>spawnServices\<close> creates the
  missing services.  The loop of \<open>spawnServices\<close> is described by a function on the pods alone.
\<close>

section \<open>Paths\<close>

text \<open>A path of the ingress belongs to the session manager or, by its first component, to a pod.\<close>

definition pod_of_path :: "httpIngressPath \<Rightarrow> string option" where
  "pod_of_path p = (if path_Path p = sessionManagerPath then None
     else go_index (split_on CHR ''/'' (path_Path p)) 1)"

definition readable :: "httpIngressPath \<Rightarrow> bool" where
  "readable p \<longleftrightarrow> path_Path p = sessionManagerPath \<or> pod_of_path p \<noteq> None"

definition live :: "servicesMap \<Rightarrow> httpIngressPath \<Rightarrow> bool" where
  "live services p \<longleftrightarrow> path_Path p = sessionManagerPath \<or>
     (\<exists>pod. pod_of_path p = Some pod \<and> map_of services (serviceKey pod) \<noteq> None)"

definition pods_in :: "httpIngressPath list \<Rightarrow> string set" where
  "pods_in ps = {pod. \<exists>p \<in> set ps. pod_of_path p = Some pod}"

lemma pods_in_simps [simp]:
  "pods_in [] = {}"
  "pods_in (p # ps) = (case pod_of_path p of None \<Rightarrow> {} | Some pod \<Rightarrow> {pod}) \<union> pods_in ps"
  "pods_in (ps @ qs) = pods_in ps \<union> pods_in qs"
  by (auto simp: pods_in_def split: option.splits)

lemma readable_unfold: "path_Path p \<noteq> sessionManagerPath \<Longrightarrow>
    readable p \<longleftrightarrow> go_index (split_on CHR ''/'' (path_Path p)) 1 \<noteq> None"
  by (simp add: readable_def pod_of_path_def)

lemma ingressGCLoop_spec:
  "ingressGCLoop services i ps pods updated =
     (if list_all readable (drop i ps)
      then Some (take i ps @ filter (live services) (drop i ps), pods \<union> pods_in (drop i ps),
        updated \<or> list_ex (\<lambda>p. \<not> live services p) (drop i ps))
      else None)"
proof (induction services i ps pods updated rule: ingressGCLoop.induct)
  case (1 services i ps pods updated)
  note unfold = ingressGCLoop.simps [of services i ps pods updated]
  show ?case
  proof (cases "i < length ps")
    case False
    then show ?thesis by (subst unfold) simp
  next
    case True
    then have rest: "drop i ps = ps ! i # drop (Suc i) ps" and front: "take (Suc i) ps = take i ps @ [ps ! i]"
      by (simp_all add: Cons_nth_drop_Suc take_Suc_conv_app_nth)
    show ?thesis
    proof (cases "path_Path (ps ! i) = sessionManagerPath")
      case sm: True
      then have "pod_of_path (ps ! i) = None" "readable (ps ! i)" "live services (ps ! i)"
        by (simp_all add: pod_of_path_def readable_def live_def)
      with True sm rest front "1.IH"(1) [OF True refl sm] show ?thesis
        by (subst unfold) (simp add: Let_def)
    next
      case other: False
      show ?thesis
      proof (cases "go_index (split_on CHR ''/'' (path_Path (ps ! i))) 1")
        case None
        with True other rest show ?thesis
          by (subst unfold) (simp add: Let_def readable_unfold)
      next
        case (Some pod)
        then have pod: "pod_of_path (ps ! i) = Some pod" "readable (ps ! i)"
          using other by (simp_all add: pod_of_path_def readable_def)
        show ?thesis
        proof (cases "map_of services (serviceKey pod) = None")
          case dead: True
          then have "\<not> live services (ps ! i)" using other pod by (simp add: live_def)
          moreover have "drop i (take i ps @ drop (Suc i) ps) = drop (Suc i) ps"
            "take i (take i ps @ drop (Suc i) ps) = take i ps" using True by simp_all
          ultimately show ?thesis
            using True other Some dead pod rest "1.IH"(2) [OF True refl other Some dead]
            by (subst unfold) (simp add: Let_def)
        next
          case alive: False
          then have "live services (ps ! i)" using pod by (auto simp: live_def)
          with True other Some alive pod rest front "1.IH"(3) [OF True refl other Some alive]
          show ?thesis by (subst unfold) (auto simp: Let_def)
        qed
      qed
    qed
  qed
qed

lemma ingressGarbageCollection_spec:
  "ingressGarbageCollection ingress services = do {
     ps \<leftarrow> ingressPaths ingress;
     if list_all readable ps
     then Some (setIngressPaths (filter (live services) ps) ingress, pods_in ps, list_ex (\<lambda>p. \<not> live services p) ps)
     else None }"
  by (cases "ingressPaths ingress") (simp_all add: ingressGarbageCollection_def ingressGCLoop_spec)

lemma ingressPaths_set [simp]: "ingressPaths ingress = Some ps \<Longrightarrow> ingressPaths (setIngressPaths qs ingress) = Some qs"
  by (simp add: ingressPaths_def setIngressPaths_def split: list.splits)

lemma setIngressPaths_twice [simp]: "setIngressPaths qs (setIngressPaths ps ingress) = setIngressPaths qs ingress"
  by (cases "ingress_Rules ingress") (simp_all add: setIngressPaths_def)

lemma setIngressPaths_same: "ingressPaths ingress = Some ps \<Longrightarrow> setIngressPaths ps ingress = ingress"
  by (cases "ingress_Rules ingress") (simp_all add: setIngressPaths_def ingressPaths_def)

section \<open>Publication\<close>

definition publishable :: "servicesMap \<Rightarrow> string set \<Rightarrow> string \<Rightarrow> bool" where
  "publishable services pods n \<longleftrightarrow> (\<exists>pod. podNameOfService n = Some pod \<and>
     (pod \<in> pods \<or> (\<exists>s. map_of services n = Some (Some s))))"

definition new_routes :: "servicesMap \<Rightarrow> string set \<Rightarrow> string \<Rightarrow> httpIngressPath list" where
  "new_routes services pods n =
     (case (podNameOfService n, map_of services n) of
        (Some pod, Some (Some s)) \<Rightarrow> if pod \<in> pods then [] else map (route pod s) (svc_Ports s)
      | _ \<Rightarrow> [])"

lemma publishService_spec:
  "publishService services pods n (ps, updated) =
     (if publishable services pods n
      then Some (ps @ new_routes services pods n, updated \<or> new_routes services pods n \<noteq> []) else None)"
  by (auto simp: publishService_def publishable_def new_routes_def Let_def split: option.splits Option.bind_splits)

lemma publish_loop:
  "fold_opt (publishService services pods) ns (ps, updated) =
     (if list_all (publishable services pods) ns
      then Some (ps @ concat (map (new_routes services pods) ns),
        updated \<or> concat (map (new_routes services pods) ns) \<noteq> []) else None)"
  by (induction ns arbitrary: ps updated) (auto simp: publishService_spec)

text \<open>The paths after a run, if it does not panic.\<close>

definition published ::
    "(networkLoop \<Rightarrow> string list \<Rightarrow> string list) \<Rightarrow> servicesMap \<Rightarrow> httpIngressPath list \<Rightarrow> httpIngressPath list" where
  "published ord services ps = concat (map (new_routes services (pods_in ps)) (ord RangeServices (map_keys services)))"

lemma publishToIngress_spec:
  assumes "ingressPaths ingress = Some ps" and "permutes_keys ord"
  shows "publishToIngress ord ingress services pods =
    (if \<forall>n \<in> dom (map_of services). publishable services pods n
     then let new = concat (map (new_routes services pods) (ord RangeServices (map_keys services)))
       in Some (setIngressPaths (ps @ new) ingress, new \<noteq> []) else None)"
proof -
  have "list_all (publishable services pods) (ord RangeServices (map_keys services)) \<longleftrightarrow>
      (\<forall>n \<in> dom (map_of services). publishable services pods n)"
    using assms(2) by (simp add: list_all_iff permutes_keys_set)
  then show ?thesis by (simp add: publishToIngress_def assms publish_loop Let_def)
qed

section \<open>The ingress as a whole\<close>

definition can_publish :: "servicesMap \<Rightarrow> ingress \<Rightarrow> bool" where
  "can_publish services ingress \<longleftrightarrow> (\<exists>ps. ingressPaths ingress = Some ps \<and> list_all readable ps \<and>
     (\<forall>n \<in> dom (map_of services). publishable services (pods_in ps) n))"

abbreviation asked_ingress :: request where
  "asked_ingress \<equiv> GetIngress ''default'' ''ingress''"

lemma reconcileIngress_run:
  assumes "permutes_keys ord" and "api_GetIngress K h ''default'' ''ingress'' = Inr ingress"
    and "ingressPaths ingress = Some ps"
  shows "run_state (reconcileIngress K ord services) h =
    (if can_publish services ingress
     then if list_all (live services) ps \<and> published ord services ps = [] then (Some None, h @ [asked_ingress])
       else let ingress' = setIngressPaths (filter (live services) ps @ published ord services ps) ingress in
         (Some (api_UpdateIngress K (h @ [asked_ingress]) ingress'), h @ [asked_ingress, UpdateIngress ingress'])
     else (None, h @ [asked_ingress]))"
proof -
  have ps': "ingressPaths (setIngressPaths (filter (live services) ps) ingress) = Some (filter (live services) ps)"
    using assms(3) by simp
  have "\<not> list_all (live services) ps \<longleftrightarrow> list_ex (\<lambda>p. \<not> live services p) ps"
    by (induction ps) auto
  then show ?thesis
    using assms publishToIngress_spec [OF ps' assms(1), of services "pods_in ps"]
    by (auto simp: reconcileIngress_def ingressGarbageCollection_spec can_publish_def published_def Let_def)
qed

lemma reconcileIngress_no_paths:
  assumes "api_GetIngress K h ''default'' ''ingress'' = Inr ingress" and "ingressPaths ingress = None"
  shows "run_state (reconcileIngress K ord services) h = (None, h @ [asked_ingress])"
  using assms by (simp add: reconcileIngress_def ingressGarbageCollection_spec)

lemma reconcileIngress_error:
  assumes "api_GetIngress K h ''default'' ''ingress'' = Inl err"
  shows "run_state (reconcileIngress K ord services) h = (Some (Some err), h @ [asked_ingress])"
  using assms by (simp add: reconcileIngress_def)

section \<open>Names\<close>

text \<open>Services of pods: every name is that of a pod with the suffix, and no pod name has a slash.\<close>

definition well_named :: "servicesMap \<Rightarrow> bool" where
  "well_named services \<longleftrightarrow>
     (\<forall>n \<in> dom (map_of services). \<exists>pod. n = serviceKey pod \<and> CHR ''/'' \<notin> set pod)"

lemma podNameOfService_key [simp]: "podNameOfService (serviceKey pod) = Some pod"
  by (simp add: podNameOfService_def serviceKey_def)

lemma serviceKey_inject [simp]: "serviceKey a = serviceKey b \<longleftrightarrow> a = b"
  by (simp add: serviceKey_def)

lemma routePath_not_session_manager: "routePath pod port \<noteq> sessionManagerPath"
proof
  assume "routePath pod port = sessionManagerPath"
  then have "count_list (routePath pod port) CHR ''/'' = count_list sessionManagerPath CHR ''/''" by simp
  then show False by (simp add: routePath_def sessionManagerPath_def)
qed

lemma pod_of_route [simp]:
  assumes "CHR ''/'' \<notin> set pod"
  shows "pod_of_path (route pod s port) = Some pod"
proof -
  have "split_on CHR ''/'' (routePath pod n) = [] # pod # split_on CHR ''/'' (n @ ''(/|$)(.*)'')" for n
    using assms by (simp add: routePath_def split_on_append)
  then show ?thesis
    using routePath_not_session_manager by (simp add: pod_of_path_def route_def go_index_def)
qed

lemma well_named_domE: "well_named services \<Longrightarrow> n \<in> dom (map_of services) \<Longrightarrow> \<exists>pod. n = serviceKey pod"
  unfolding well_named_def by blast

lemma well_named_key: "well_named services \<Longrightarrow> map_of services (serviceKey pod) = Some v \<Longrightarrow> CHR ''/'' \<notin> set pod"
  unfolding well_named_def by (metis domI serviceKey_inject)

definition routes :: "servicesMap \<Rightarrow> string set \<Rightarrow> httpIngressPath set" where
  "routes services pods = {route pod s port | pod s port.
     map_of services (serviceKey pod) = Some (Some s) \<and> pod \<notin> pods \<and> port \<in> set (svc_Ports s)}"

lemma routesI: "map_of services (serviceKey pod) = Some (Some s) \<Longrightarrow> pod \<notin> pods \<Longrightarrow> port \<in> set (svc_Ports s) \<Longrightarrow>
    route pod s port \<in> routes services pods"
  unfolding routes_def by blast

lemma new_routes_key:
  "new_routes services pods (serviceKey pod) =
     (case map_of services (serviceKey pod) of
        Some (Some s) \<Rightarrow> if pod \<in> pods then [] else map (route pod s) (svc_Ports s)
      | _ \<Rightarrow> [])"
  by (simp add: new_routes_def)

lemma set_new_routes: "p \<in> set (new_routes services pods (serviceKey pod)) \<longleftrightarrow>
    (\<exists>s port. map_of services (serviceKey pod) = Some (Some s) \<and> pod \<notin> pods \<and> port \<in> set (svc_Ports s) \<and>
       p = route pod s port)"
proof (cases "map_of services (serviceKey pod)")
  case (Some v)
  then show ?thesis by (cases v) (auto simp: new_routes_key)
qed (simp add: new_routes_key)

lemma set_published:
  assumes "permutes_keys ord" and "well_named services"
  shows "set (published ord services ps) = routes services (pods_in ps)"
proof -
  have "set (published ord services ps) = (\<Union>n \<in> dom (map_of services). set (new_routes services (pods_in ps) n))"
    using assms(1) by (simp add: published_def permutes_keys_set)
  also have "\<dots> = (\<Union>pod. set (new_routes services (pods_in ps) (serviceKey pod)))"
  proof (intro equalityI subsetI)
    fix p assume "p \<in> (\<Union>n \<in> dom (map_of services). set (new_routes services (pods_in ps) n))"
    then show "p \<in> (\<Union>pod. set (new_routes services (pods_in ps) (serviceKey pod)))"
      using well_named_domE [OF assms(2)] by (metis (no_types, lifting) UN_iff UNIV_I)
  next
    fix p assume "p \<in> (\<Union>pod. set (new_routes services (pods_in ps) (serviceKey pod)))"
    then obtain pod where p: "p \<in> set (new_routes services (pods_in ps) (serviceKey pod))" by blast
    then have "serviceKey pod \<in> dom (map_of services)"
      by (cases "map_of services (serviceKey pod)") (auto simp: new_routes_key)
    with p show "p \<in> (\<Union>n \<in> dom (map_of services). set (new_routes services (pods_in ps) n))" by blast
  qed
  also have "\<dots> = routes services (pods_in ps)"
    unfolding routes_def using set_new_routes by blast
  finally show ?thesis .
qed

lemma routes_live: "well_named services \<Longrightarrow> p \<in> routes services pods \<Longrightarrow> live services p"
  by (auto simp: routes_def live_def well_named_key)

lemma routes_readable: "well_named services \<Longrightarrow> p \<in> routes services pods \<Longrightarrow> readable p"
  by (auto simp: routes_def readable_def well_named_key)

text \<open>The controller leaves the ingress alone exactly when the new paths are the old ones.\<close>

lemma unchanged_iff:
  assumes "permutes_keys ord" and "well_named services"
  shows "list_all (live services) ps \<and> published ord services ps = [] \<longleftrightarrow>
    filter (live services) ps @ published ord services ps = ps"
proof
  assume "list_all (live services) ps \<and> published ord services ps = []"
  then show "filter (live services) ps @ published ord services ps = ps"
    by (simp add: list_all_iff)
next
  assume eq: "filter (live services) ps @ published ord services ps = ps"
  have "live services p" if "p \<in> set (filter (live services) ps @ published ord services ps)" for p
    using that routes_live [OF assms(2)] by (auto simp: set_published [OF assms])
  then have all: "\<forall>p \<in> set ps. live services p" unfolding eq by blast
  then have "filter (live services) ps = ps" by simp
  with eq all show "list_all (live services) ps \<and> published ord services ps = []"
    by (simp add: list_all_iff)
qed

text \<open>What a run without an error leaves in the ingress.\<close>

lemma reconcileIngress_routes:
  assumes "permutes_keys ord" and "well_named services"
    and "api_GetIngress K h ''default'' ''ingress'' = Inr ingress" and "ingressPaths ingress = Some ps"
    and run: "run_state (reconcileIngress K ord services) h = (Some None, h')"
  shows "\<exists>ps'. set ps' = {p \<in> set ps. live services p} \<union> routes services (pods_in ps) \<and>
    prefix (filter (live services) ps) ps' \<and>
    h' = h @ asked_ingress # (if ps' = ps then [] else [UpdateIngress (setIngressPaths ps' ingress)])"
proof -
  let ?ps = "filter (live services) ps @ published ord services ps"
  have "h' = h @ asked_ingress # (if ?ps = ps then [] else [UpdateIngress (setIngressPaths ?ps ingress)])"
    using run unfolding reconcileIngress_run [OF assms(1,3,4)] unchanged_iff [OF assms(1,2)]
    by (auto simp: Let_def split: if_splits)
  moreover have "set ?ps = {p \<in> set ps. live services p} \<union> routes services (pods_in ps)"
    by (simp add: set_published [OF assms(1,2)])
  ultimately show ?thesis by (intro exI [of _ ?ps]) simp
qed

text \<open>After a run every pod with a service that has a port is in the ingress, so nothing is left to publish.\<close>

definition served :: "servicesMap \<Rightarrow> bool" where
  "served services \<longleftrightarrow> (\<forall>v \<in> ran (map_of services). \<exists>s. v = Some s \<and> svc_Ports s \<noteq> [])"

lemma published_pods:
  assumes "permutes_keys ord" and named: "well_named services" and "served services"
    and key: "map_of services (serviceKey pod) = Some v"
  shows "pod \<in> pods_in (filter (live services) ps @ published ord services ps)"
proof (cases "pod \<in> pods_in ps")
  case True
  then obtain p where "p \<in> set ps" "pod_of_path p = Some pod" by (auto simp: pods_in_def)
  with key show ?thesis by (auto simp: pods_in_def live_def)
next
  case False
  from key have "v \<in> ran (map_of services)" by (auto simp: ran_def)
  with \<open>served services\<close> obtain s port where "v = Some s" "port \<in> set (svc_Ports s)"
    unfolding served_def by (metis last_in_set)
  with key False have "route pod s port \<in> set (published ord services ps)"
    unfolding set_published [OF assms(1) named] routes_def by blast
  moreover have "pod_of_path (route pod s port) = Some pod" using named key by (simp add: well_named_key)
  ultimately show ?thesis by (auto simp: pods_in_def)
qed

lemma published_settled:
  assumes "permutes_keys ord" and "permutes_keys ord'" and named: "well_named services" and "served services"
    and "list_all readable ps"
  defines "ps' \<equiv> filter (live services) ps @ published ord services ps"
  shows "list_all (live services) ps' \<and> published ord' services ps' = [] \<and> list_all readable ps' \<and>
    (\<forall>n \<in> dom (map_of services). publishable services (pods_in ps') n)"
proof -
  note pods = published_pods [OF assms(1) named assms(4), of _ _ ps, folded ps'_def]
  have new: "set (published ord services ps) = routes services (pods_in ps)" using assms(1) named by (rule set_published)
  have "list_all (live services) ps'" "list_all readable ps'"
    using assms(5) routes_live [OF named] routes_readable [OF named]
    by (auto simp: ps'_def list_all_iff new)
  moreover have "routes services (pods_in ps') = {}" using pods by (auto simp: routes_def)
  then have "published ord' services ps' = []" by (simp flip: set_empty add: set_published [OF assms(2) named])
  moreover have "publishable services (pods_in ps') n" if "n \<in> dom (map_of services)" for n
    using that well_named_domE [OF named that] pods by (auto simp: publishable_def)
  ultimately show ?thesis by blast
qed

section \<open>Creating the services\<close>

text \<open>
  \<open>SetControllerReference\<close> changes nothing of a service but its owner, which the model leaves out, and
  its errors are not those of an API call.
\<close>

definition owns_services :: "kube \<Rightarrow> bool" where
  "owns_services K \<longleftrightarrow> (\<forall>pod s s'. api_SetServiceController K pod s = Inr s' \<longrightarrow> s' = s) \<and>
     (\<forall>pod s. api_SetServiceController K pod s \<noteq> Inl AlreadyExists)"

text \<open>The pods without a service, each name once.\<close>

fun unserved :: "string set \<Rightarrow> kpod list \<Rightarrow> kpod list" where
  "unserved D [] = []"
| "unserved D (pod # pods) =
     (if serviceKey (kpod_Name pod) \<in> D then unserved D pods
      else pod # unserved (insert (serviceKey (kpod_Name pod)) D) pods)"

lemma unserved_filter:
  "distinct (map kpod_Name pods) \<Longrightarrow> unserved D pods = filter (\<lambda>pod. serviceKey (kpod_Name pod) \<notin> D) pods"
proof (induction pods arbitrary: D)
  case Nil
  then show ?case by simp
next
  case (Cons pod pods)
  moreover from Cons.prems have "filter (\<lambda>p. serviceKey (kpod_Name p) \<notin> insert (serviceKey (kpod_Name pod)) D) pods =
      filter (\<lambda>p. serviceKey (kpod_Name p) \<notin> D) pods"
    by (intro filter_cong) (auto dest: image_eqI)
  ultimately show ?case by simp
qed

lemma unserved_mem:
  assumes "pod \<in> set pods" and "serviceKey (kpod_Name pod) \<notin> D"
  shows "\<exists>p \<in> set (unserved D pods). kpod_Name p = kpod_Name pod"
  using assms
proof (induction pods arbitrary: D)
  case Nil
  then show ?case by simp
next
  case (Cons a pods)
  show ?case
  proof (cases "kpod_Name a = kpod_Name pod")
    case True
    with Cons.prems show ?thesis by simp
  next
    case False
    with Cons.prems Cons.IH [of D] Cons.IH [of "insert (serviceKey (kpod_Name a)) D"] show ?thesis by auto
  qed
qed

text \<open>What a run knows about the entry of a name: the stored service, or nil after \<open>AlreadyExists\<close>.\<close>

definition service_entry :: "kube \<Rightarrow> string \<Rightarrow> kpod \<Rightarrow> service option \<Rightarrow> bool" where
  "service_entry K namespace pod v \<longleftrightarrow> (\<exists>h. api_CreateService K h (newService namespace pod) =
     (case v of None \<Rightarrow> Inl AlreadyExists | Some s \<Rightarrow> Inr s))"

lemma spawnService_run:
  assumes "owns_services K" and "run_state (spawnService K ns pod) h = (r, h')"
  shows "(\<exists>err. r = Inl err \<and> h' = h \<and> api_SetServiceController K pod (newService ns pod) = Inl err) \<or>
    h' = h @ [CreateService (newService ns pod)] \<and> r = api_CreateService K h (newService ns pod)"
proof (cases "api_SetServiceController K pod (newService ns pod)")
  case (Inl err)
  with assms(2) have "r = Inl err \<and> h' = h" by (simp add: spawnService_def)
  with Inl show ?thesis by blast
next
  case (Inr s)
  with assms have "s = newService ns pod" unfolding owns_services_def by blast
  with Inr assms(2) show ?thesis by (simp add: spawnService_def)
qed

lemma spawnServices_done:
  assumes "owns_services K" and "run_state (spawnServices K ns pods services) h = ((None, services'), h')"
  shows "h' = h @ map (CreateService \<circ> newService ns) (unserved (dom (map_of services)) pods) \<and>
    (\<forall>n \<in> dom (map_of services). map_of services' n = map_of services n) \<and>
    dom (map_of services') = dom (map_of services) \<union> serviceKey ` kpod_Name ` set pods \<and>
    (\<forall>pod \<in> set (unserved (dom (map_of services)) pods).
       \<exists>v. map_of services' (serviceKey (kpod_Name pod)) = Some v \<and> service_entry K ns pod v)"
  using assms(2)
proof (induction pods arbitrary: services h)
  case Nil
  then show ?case by simp
next
  case (Cons pod pods)
  let ?key = "serviceKey (kpod_Name pod)"
  show ?case
  proof (cases "map_of services ?key")
    case (Some v)
    with Cons.prems have "run_state (spawnServices K ns pods services) h = ((None, services'), h')" by simp
    from Cons.IH [OF this] Some show ?thesis by (auto simp: domIff)
  next
    case None
    obtain r h1 where step: "run_state (spawnService K ns pod) h = (r, h1)" by force
    define v where "v = (case r of Inl _ \<Rightarrow> None | Inr s \<Rightarrow> Some s)"
    from Cons.prems None step have ok: "r = Inl AlreadyExists \<or> (\<exists>s. r = Inr s)"
      and rest: "run_state (spawnServices K ns pods (map_put ?key v services)) h1 = ((None, services'), h')"
      by (auto simp: v_def Let_def split: sum.splits if_splits)
    from spawnService_run [OF assms(1) step] assms(1) [unfolded owns_services_def] ok
    have h1: "h1 = h @ [CreateService (newService ns pod)]" and r: "r = api_CreateService K h (newService ns pod)"
      by auto
    from ok r have entry: "service_entry K ns pod v"
      unfolding service_entry_def v_def by (intro exI [of _ h]) auto
    have dom_put: "dom (map_of (map_put ?key v services)) = insert ?key (dom (map_of services))" by simp
    note IH = Cons.IH [OF rest, unfolded dom_put]
    have todo: "unserved (dom (map_of services)) (pod # pods) =
        pod # unserved (insert ?key (dom (map_of services))) pods" using None by (simp add: domIff)
    from IH have trace: "h' = h @ map (CreateService \<circ> newService ns) (unserved (dom (map_of services)) (pod # pods))"
      unfolding todo h1 by simp
    from IH have kept: "map_of services' n = map_of (map_put ?key v services) n"
      if "n \<in> insert ?key (dom (map_of services))" for n using that by blast
    then have new: "map_of services' ?key = Some v" by simp
    have old: "\<forall>n \<in> dom (map_of services). map_of services' n = map_of services n"
    proof
      fix n assume n: "n \<in> dom (map_of services)"
      with None have "n \<noteq> ?key" by auto
      with kept n show "map_of services' n = map_of services n" by simp
    qed
    have entries: "\<forall>p \<in> set (unserved (dom (map_of services)) (pod # pods)).
        \<exists>v. map_of services' (serviceKey (kpod_Name p)) = Some v \<and> service_entry K ns p v"
      unfolding todo using new entry IH by simp
    have "dom (map_of services') = dom (map_of services) \<union> serviceKey ` kpod_Name ` set (pod # pods)"
      using IH by simp
    with trace old entries show ?thesis by blast
  qed
qed

end
