(* ===== verification/Network_Properties.thy ===== *)
theory Network_Properties
  imports Network_Spec Demo
begin

text \<open>
  The properties of the network controller: the garbage collection and the publication of the
  ingress against their specifications, its panics, that the ingress reaches a fixed point, and the
  services of the pods.
\<close>

section \<open>A concrete network\<close>

text \<open>
  Two pods with a service each; the ingress has a path of the first, a path of a pod that is gone and
  the path of the session manager.
\<close>

definition demo_svc :: "string \<Rightarrow> service" where
  "demo_svc pod = newService ''default'' (demo_pod pod ''True'')"

definition demo_services :: servicesMap where
  "demo_services = servicesByName [demo_svc ''p1'', demo_svc ''p2'']"

definition demo_route :: "string \<Rightarrow> httpIngressPath" where
  "demo_route pod = route pod (demo_svc pod)
     \<lparr>svcPort_Protocol = ''TCP'', svcPort_Port = 80, svcPort_Name = ''http''\<rparr>"

definition demo_manager_path :: httpIngressPath where
  "demo_manager_path = \<lparr>path_Path = sessionManagerPath, path_PathType = ''ImplementationSpecific'',
     path_ServiceName = ''session-manager-svc'', path_PortNumber = 80\<rparr>"

definition demo_ingress :: "httpIngressPath list \<Rightarrow> ingress" where
  "demo_ingress ps = \<lparr>ingress_Rules = [\<lparr>rule_HTTP = Some ps\<rparr>]\<rparr>"

definition demo_network_kube :: "ingress \<Rightarrow> kube" where
  "demo_network_kube ingress = demo_kube\<lparr>api_GetIngress := \<lambda>_ _ _. Inr ingress\<rparr>"

abbreviation demo_old_paths :: "httpIngressPath list" where
  "demo_old_paths \<equiv> [demo_manager_path, demo_route ''p0'', demo_route ''p1'']"

abbreviation demo_new_paths :: "httpIngressPath list" where
  "demo_new_paths \<equiv> [demo_manager_path, demo_route ''p1'', demo_route ''p2'']"

lemma demo_network_answers [simp]:
  "api_GetIngress (demo_network_kube ingress) h ns n = Inr ingress"
  "api_UpdateIngress (demo_network_kube ingress) h ingress' = None"
  "ingressPaths (demo_ingress ps) = Some ps"
  by (simp_all add: demo_network_kube_def demo_kube_def ingressPaths_def demo_ingress_def)

lemma demo_services_entries: "demo_services =
    [(serviceKey ''p1'', Some (demo_svc ''p1'')), (serviceKey ''p2'', Some (demo_svc ''p2''))]"
  by code_simp

lemma demo_well_named: "well_named demo_services"
  by (auto simp: well_named_def demo_services_entries split: if_splits)

lemma demo_network_run:
  "run_state (reconcileIngress (demo_network_kube (demo_ingress demo_old_paths)) visit demo_services) [] =
     (Some None, [] @ [asked_ingress, UpdateIngress (demo_ingress demo_new_paths)])"
  by code_simp

section \<open>The ingress\<close>

text \<open>
  C25. The index loop of \<open>ingressGarbageCollection\<close>, which deletes while it iterates, is a filter: it
  keeps, in their order, the path of the session manager and the paths whose pod has a service,
  reports the pods of all paths and whether one was dropped; it panics exactly when there is no
  rule with paths or a path has no second component.
\<close>

theorem ingress_collection_is_filter:
  "ingressGarbageCollection ingress services =
     (case ingressPaths ingress of
        None \<Rightarrow> None
      | Some ps \<Rightarrow>
          if list_all readable ps
          then Some (setIngressPaths (filter (live services) ps) ingress, pods_in ps,
            list_ex (\<lambda>p. \<not> live services p) ps)
          else None)"
  by (simp add: ingressGarbageCollection_spec split: option.splits)

text \<open>
  C23. After \<open>reconcileIngress\<close> the ingress routes what it should: the paths are those of the session
  manager and of pods that have a service, and for every service of a pod that had no path there is
  one path per port; nothing else.  The ingress is written if and only if the list of its paths
  changes.
\<close>

theorem ingress_routes_services:
  assumes "permutes_keys ord" and "well_named services"
    and "api_GetIngress K h ''default'' ''ingress'' = Inr ingress" and "ingressPaths ingress = Some ps"
    and run: "run_state (reconcileIngress K ord services) h = (Some None, h')"
  shows "\<exists>ps'. set ps' = {p \<in> set ps. live services p} \<union> routes services (pods_in ps) \<and>
    prefix (filter (live services) ps) ps' \<and>
    h' = h @ asked_ingress # (if ps' = ps then [] else [UpdateIngress (setIngressPaths ps' ingress)])"
  using assms by (rule reconcileIngress_routes)

lemma ingress_routes_services_witness:
  "\<exists>ps'. set ps' = {p \<in> set demo_old_paths. live demo_services p} \<union> routes demo_services (pods_in demo_old_paths) \<and>
    prefix (filter (live demo_services) demo_old_paths) ps' \<and>
    [] @ [asked_ingress, UpdateIngress (demo_ingress demo_new_paths)] =
      [] @ asked_ingress # (if ps' = demo_old_paths then []
        else [UpdateIngress (setIngressPaths ps' (demo_ingress demo_old_paths))])"
  by (rule ingress_routes_services [OF _ demo_well_named _ _ demo_network_run]) simp_all

text \<open>
  C24. One run is enough: when every service exists and has a port, a second run on the ingress that
  the first one wrote, in any order of the visit, reads it and writes nothing.
\<close>

theorem ingress_reaches_fixed_point:
  assumes "permutes_keys ord" and "permutes_keys ord'" and named: "well_named services" and ports: "served services"
    and run: "run_state (reconcileIngress K ord services) h = (Some None, h @ t)" "UpdateIngress ingress' \<in> set t"
    and again: "api_GetIngress K' h2 ''default'' ''ingress'' = Inr ingress'"
  shows "run_state (reconcileIngress K' ord' services) h2 = (Some None, h2 @ [asked_ingress])"
proof -
  from run obtain ingress where ing: "api_GetIngress K h ''default'' ''ingress'' = Inr ingress"
    by (cases "api_GetIngress K h ''default'' ''ingress''") (auto simp: reconcileIngress_error)
  with run obtain ps where ps: "ingressPaths ingress = Some ps"
    by (cases "ingressPaths ingress") (auto simp: reconcileIngress_no_paths)
  note step = reconcileIngress_run [OF assms(1) ing ps]
  let ?ps = "filter (live services) ps @ published ord services ps"
  from run(1) have "can_publish services ingress" unfolding step by (simp split: if_splits)
  with ps have "list_all readable ps" by (simp add: can_publish_def)
  note settled = published_settled [OF assms(1,2) named ports this]
  from run have "ingress' = setIngressPaths ?ps ingress"
    unfolding step by (auto simp: Let_def split: if_splits)
  with ps have ps': "ingressPaths ingress' = Some ?ps" by simp
  with settled have "can_publish services ingress'" by (auto simp: can_publish_def)
  with settled show ?thesis unfolding reconcileIngress_run [OF assms(2) again ps'] by simp
qed

lemma ingress_reaches_fixed_point_witness:
  "run_state (reconcileIngress (demo_network_kube (demo_ingress demo_new_paths)) (\<lambda>_. rev) demo_services) [] =
     (Some None, [] @ [asked_ingress])"
proof -
  have served: "served demo_services"
    by (auto simp: served_def demo_services_entries demo_svc_def newService_def servicePorts_def Let_def split: if_splits)
  show ?thesis
    by (rule ingress_reaches_fixed_point [OF _ _ demo_well_named served demo_network_run]) simp_all
qed

text \<open>
  C27. \<open>reconcileIngress\<close> panics exactly when it reads an ingress that it cannot publish to: one without a
  rule that has paths, or with a path that has no second component, or when a service has a name of
  less than four characters, or is nil and its pod has no path yet.
\<close>

theorem ingress_panics_iff:
  assumes "permutes_keys ord"
  shows "fst (run_state (reconcileIngress K ord services) h) = None \<longleftrightarrow>
    (\<exists>ingress. api_GetIngress K h ''default'' ''ingress'' = Inr ingress \<and> \<not> can_publish services ingress)"
proof (cases "api_GetIngress K h ''default'' ''ingress''")
  case (Inl err)
  then show ?thesis by (simp add: reconcileIngress_error)
next
  case (Inr ingress)
  show ?thesis
  proof (cases "ingressPaths ingress")
    case None
    with Inr show ?thesis by (simp add: reconcileIngress_no_paths can_publish_def)
  next
    case (Some ps)
    with Inr show ?thesis by (simp add: reconcileIngress_run [OF assms Inr Some] Let_def)
  qed
qed

lemma ingress_panics_iff_witness:
  "fst (run_state (reconcileIngress (demo_network_kube \<lparr>ingress_Rules = []\<rparr>) visit demo_services) []) = None"
  by (subst ingress_panics_iff) (simp_all add: can_publish_def ingressPaths_def)

section \<open>The services\<close>

text \<open>
  \<open>spawnServices\<close> creates exactly the missing services: without an error its requests create, in the
  order of the pods, one service for every pod whose name has none, with the label that the lists
  select, the pod as its only selector and at least one port; the services that existed stay as they
  are, and afterwards every pod has an entry.
\<close>

theorem missing_services_created:
  assumes "owns_services K" and "distinct (map kpod_Name pods)"
    and "run_state (spawnServices K ns pods services) h = ((None, services'), h')"
  shows "\<exists>ss. h' = h @ map CreateService ss \<and>
    list_all2 (\<lambda>pod s. svc_Name s = kpod_Name pod @ ''-svc'' \<and> svc_Namespace s = ns \<and>
        svc_Labels s = Some telepresenceLabel \<and> svc_Selector s = [(''svc'', kpod_Name pod)] \<and> svc_Ports s \<noteq> [])
      (filter (\<lambda>pod. serviceKey (kpod_Name pod) \<notin> dom (map_of services)) pods) ss \<and>
    (\<forall>n \<in> dom (map_of services). map_of services' n = map_of services n) \<and>
    dom (map_of services') = dom (map_of services) \<union> serviceKey ` kpod_Name ` set pods"
proof -
  let ?missing = "filter (\<lambda>pod. serviceKey (kpod_Name pod) \<notin> dom (map_of services)) pods"
  note spawned = spawnServices_done [OF assms(1,3), unfolded unserved_filter [OF assms(2)]]
  then have "h' = h @ map CreateService (map (newService ns) ?missing)" by simp
  moreover have "servicePorts pod \<noteq> []" for pod by (simp add: servicePorts_def Let_def)
  then have "list_all2 (\<lambda>pod s. svc_Name s = kpod_Name pod @ ''-svc'' \<and> svc_Namespace s = ns \<and>
        svc_Labels s = Some telepresenceLabel \<and> svc_Selector s = [(''svc'', kpod_Name pod)] \<and> svc_Ports s \<noteq> [])
      ?missing (map (newService ns) ?missing)"
    by (simp add: list.rel_map list_all2_same newService_def serviceKey_def telepresenceLabel_def)
  ultimately show ?thesis using spawned by blast
qed

lemma demo_owns_services: "owns_services demo_kube"
  by (simp add: owns_services_def demo_kube_def)

lemma demo_spawn_run:
  "run_state (spawnServices demo_kube ''default'' demo_items []) [] =
     ((None, snd (fst (run_state (spawnServices demo_kube ''default'' demo_items []) []))),
      snd (run_state (spawnServices demo_kube ''default'' demo_items []) []))"
  by code_simp

lemma missing_services_created_witness:
  "\<exists>ss. snd (run_state (spawnServices demo_kube ''default'' demo_items []) []) = [] @ map CreateService ss \<and>
    list_all2 (\<lambda>pod s. svc_Name s = kpod_Name pod @ ''-svc'' \<and> svc_Namespace s = ''default'' \<and>
        svc_Labels s = Some telepresenceLabel \<and> svc_Selector s = [(''svc'', kpod_Name pod)] \<and> svc_Ports s \<noteq> [])
      (filter (\<lambda>pod. serviceKey (kpod_Name pod) \<notin> dom (map_of ([] :: servicesMap))) demo_items) ss \<and>
    (\<forall>n \<in> dom (map_of ([] :: servicesMap)).
       map_of (snd (fst (run_state (spawnServices demo_kube ''default'' demo_items []) []))) n = map_of [] n) \<and>
    dom (map_of (snd (fst (run_state (spawnServices demo_kube ''default'' demo_items []) [])))) =
      dom (map_of ([] :: servicesMap)) \<union> serviceKey ` kpod_Name ` set demo_items"
  by (rule missing_services_created [OF demo_owns_services demo_names(2) demo_spawn_run])

text \<open>
  C26. A service that exists without the label makes the controller panic: if the creation of a
  missing service answers \<open>AlreadyExists\<close> and the ingress has no path for its pod, the nil service
  is dereferenced.
\<close>

theorem existing_service_panics:
  assumes "permutes_keys ord" and "owns_services K"
    and "run_state (spawnServices K ns pods services) h = ((None, services'), h1)"
    and pod: "pod \<in> set pods" "serviceKey (kpod_Name pod) \<notin> dom (map_of services)"
    and exists: "\<And>h s. svc_Name s = serviceKey (kpod_Name pod) \<Longrightarrow> api_CreateService K h s = Inl AlreadyExists"
    and "api_GetIngress K h1 ''default'' ''ingress'' = Inr ingress" and "ingressPaths ingress = Some ps"
    and "kpod_Name pod \<notin> pods_in ps"
  shows "fst (run_state (reconcileIngress K ord services') h1) = None"
proof -
  from unserved_mem [OF pod] obtain p where
    p: "p \<in> set (unserved (dom (map_of services)) pods)" "kpod_Name p = kpod_Name pod" by blast
  with spawnServices_done [OF assms(2,3)] obtain v where
    v: "map_of services' (serviceKey (kpod_Name pod)) = Some v" "service_entry K ns p v" by metis
  moreover from v(2) exists have "v = None"
    by (auto simp: service_entry_def newService_def p split: option.splits)
  ultimately have "\<not> publishable services' (pods_in ps) (serviceKey (kpod_Name pod))"
    using assms(9) by (simp add: publishable_def)
  with v(1) have "\<not> can_publish services' ingress" using assms(8) by (auto simp: can_publish_def)
  then show ?thesis by (simp add: reconcileIngress_run [OF assms(1,7,8)])
qed

definition demo_taken_kube :: kube where
  "demo_taken_kube = (demo_network_kube (demo_ingress [demo_manager_path]))
     \<lparr>api_CreateService := \<lambda>_ _. Inl AlreadyExists\<rparr>"

lemma demo_taken_run: "run_state (spawnServices demo_taken_kube ''default'' [demo_pod ''p1'' ''True''] []) [] =
    ((None, [(serviceKey ''p1'', None)]), [CreateService (demo_svc ''p1'')])"
  by code_simp

lemma existing_service_panics_witness:
  "fst (run_state (reconcileIngress demo_taken_kube visit [(serviceKey ''p1'', None)])
     [CreateService (demo_svc ''p1'')]) = None"
proof -
  have owns: "owns_services demo_taken_kube"
    by (simp add: owns_services_def demo_taken_kube_def demo_network_kube_def demo_kube_def)
  show ?thesis
    by (rule existing_service_panics [OF _ owns demo_taken_run, of _ "demo_pod ''p1'' ''True''" "demo_ingress [demo_manager_path]"
        "[demo_manager_path]"])
      (simp_all add: demo_taken_kube_def demo_manager_path_def pod_of_path_def)
qed

end
