(* ===== verification/Session_Manager.thy ===== *)
theory Session_Manager
  imports Kube
begin

text \<open>
  The session manager (\<open>session-manager/\<close>): the client of the Session resource
  (\<open>k8s-client/methods.go\<close>) and the HTTP handlers (\<open>handlers/\<close>).  It keeps no state of its own
  but a configuration; its state are the Session resources of several clusters, which the API
  servers keep.
\<close>

section \<open>The client of the Session resource\<close>

text \<open>
  An error of the API as the handlers see it: the two kinds they tell apart and the text.  A patch
  of the clients is the marshalled map, nil or not, or the removal of one client, both JSON merge
  patches of \<open>spec.clients\<close>.
\<close>

record goError =
  err_IsNotFound :: bool
  err_IsAlreadyExists :: bool
  err_Error :: string

datatype clientsPatch = SetClients "(string, bool) nilmap" | RemoveClient string

text \<open>The REST requests: the cluster, the namespace, the name and the body.\<close>

datatype restRequest =
    RestList string string
  | RestGet string string string
  | RestPost string string session
  | RestPatch string string string clientsPatch
  | RestDelete string string string
  | RestGetService string string string

type_synonym restHistory = "restRequest list"
type_synonym 'a rest = "(restHistory, 'a) state"

text \<open>The API servers of the clusters: parameters that answer from the history.\<close>

record clusters =
  rest_List :: "restHistory \<Rightarrow> string \<Rightarrow> goError + session list"
  rest_Get :: "restHistory \<Rightarrow> string \<Rightarrow> string \<Rightarrow> goError + session"
  rest_Post :: "restHistory \<Rightarrow> string \<Rightarrow> session \<Rightarrow> goError option"
  rest_Patch :: "restHistory \<Rightarrow> string \<Rightarrow> string \<Rightarrow> clientsPatch \<Rightarrow> goError option"
  rest_Delete :: "restHistory \<Rightarrow> string \<Rightarrow> string \<Rightarrow> goError option"
  rest_GetService :: "restHistory \<Rightarrow> string \<Rightarrow> goError + service"

text \<open>\<open>Sessions(namespace)\<close> of a client: the cluster and the namespace.\<close>

record sessionClient =
  client_restClient :: string
  client_namespace :: string

definition Sessions :: "string \<Rightarrow> string \<Rightarrow> sessionClient" where
  "Sessions c namespace = \<lparr>client_restClient = c, client_namespace = namespace\<rparr>"

definition sessions_List :: "clusters \<Rightarrow> sessionClient \<Rightarrow> (goError + session list) rest" where
  "sessions_List C c = call (RestList (client_restClient c) (client_namespace c))
     (\<lambda>h. rest_List C h (client_restClient c))"

definition sessions_Get :: "clusters \<Rightarrow> sessionClient \<Rightarrow> string \<Rightarrow> (goError + session) rest" where
  "sessions_Get C c name = call (RestGet (client_restClient c) (client_namespace c) name)
     (\<lambda>h. rest_Get C h (client_restClient c) name)"

definition sessions_Create :: "clusters \<Rightarrow> sessionClient \<Rightarrow> session \<Rightarrow> goError option rest" where
  "sessions_Create C c session = call (RestPost (client_restClient c) (client_namespace c) session)
     (\<lambda>h. rest_Post C h (client_restClient c) session)"

text \<open>Without patch data the patch is the whole map of the clients.\<close>

definition sessions_PatchClients ::
    "clusters \<Rightarrow> sessionClient \<Rightarrow> string \<Rightarrow> session \<Rightarrow> clientsPatch option \<Rightarrow> goError option rest" where
  "sessions_PatchClients C c sessionName session patchData =
     (let patch = (case patchData of None \<Rightarrow> SetClients (spec_Clients (session_Spec session)) | Some p \<Rightarrow> p)
      in call (RestPatch (client_restClient c) (client_namespace c) sessionName patch)
        (\<lambda>h. rest_Patch C h (client_restClient c) sessionName patch))"

definition sessions_Delete :: "clusters \<Rightarrow> sessionClient \<Rightarrow> string \<Rightarrow> goError option rest" where
  "sessions_Delete C c name = call (RestDelete (client_restClient c) (client_namespace c) name)
     (\<lambda>h. rest_Delete C h (client_restClient c) name)"

section \<open>The handler\<close>

record sessionTemplate =
  tmpl_Name :: string
  tmpl_SessionPodTemplates :: "podTemplate list"
  tmpl_ClientPodTemplates :: "clientPodTemplate list"
  tmpl_TimeoutSeconds :: int64
  tmpl_ReutilizeTimeoutSeconds :: int64

text \<open>The maps from the names of the clusters to their clients and clientsets.\<close>

record handler =
  clusterClientsetMap :: "(string, string) gomap"
  clusterClientMap :: "(string, string) gomap"
  sessionTemplates :: "(string, sessionTemplate) gomap"

text \<open>The bodies of the requests; \<open>Connected\<close> is a pointer.\<close>

record registerSessionBody =
  body_TemplateName :: string
  body_SessionPodsCluster :: string

record createClientBody =
  body_ClientId :: string
  body_Cluster :: string

record updateClientBody =
  body_Connected :: "bool option"

text \<open>What a handler answers: the status, the \<open>Location\<close> header and the body.\<close>

datatype body =
    NoBody
  | ErrorBody string
  | SessionBody session
  | ClientBody bool clientStatus
  | LocationsBody "(string \<times> string) list"
  | PingBody "(string, string) gomap"

record response =
  resp_Status :: int
  resp_Location :: "string option"
  resp_Body :: body

definition respond :: "int \<Rightarrow> body \<Rightarrow> response" where
  "respond status b = \<lparr>resp_Status = status, resp_Location = None, resp_Body = b\<rparr>"

text \<open>The range statements over maps.\<close>

datatype managerLoop = RangeCreate | RangeFind | RangeFindClient | RangeList | RangeDelete | RangePing
  | RangeSumClients | RangeSumStatuses | RangeClientLocations | RangeContexts

type_synonym managerOrder = "managerLoop \<Rightarrow> string list \<Rightarrow> string list"

definition sessionNotFound :: goError where
  "sessionNotFound = \<lparr>err_IsNotFound = False, err_IsAlreadyExists = False, err_Error = ''session not found''\<rparr>"

definition errorIsSessionNotFound :: "goError \<Rightarrow> bool" where
  "errorIsSessionNotFound err \<longleftrightarrow> err_Error err = ''session not found''"

text \<open>The answer to an error of a search, which three handlers share.\<close>

definition searchFailed :: "goError \<Rightarrow> response" where
  "searchFailed err = respond (if errorIsSessionNotFound err then 404 else 502) (ErrorBody (err_Error err))"

end
