(* ===== verification/Session_Handlers.thy ===== *)
theory Session_Handlers
  imports Session_Manager
begin

text \<open>
  The handlers for sessions and for the ping servers (\<open>handlers/session.go\<close>, \<open>handlers/ping.go\<close>).  A
  handler gets the body as the JSON binding of the web framework gives it: the text of its error or
  the body.
\<close>

section \<open>Creating a session\<close>

definition newSession :: "string \<Rightarrow> sessionTemplate \<Rightarrow> session" where
  "newSession sessionName template = \<lparr>session_Name = sessionName, session_Namespace = [],
     session_Annotations = None,
     session_Spec = \<lparr>spec_SessionPodTemplates = tmpl_SessionPodTemplates template,
       spec_ClientPodTemplates = tmpl_ClientPodTemplates template,
       spec_TimeoutSeconds = tmpl_TimeoutSeconds template,
       spec_ReutilizeTimeoutSeconds = tmpl_ReutilizeTimeoutSeconds template,
       spec_Clients = Some []\<rparr>,
     session_Status = \<lparr>status_SessionPods = \<lparr>podsStatus_Conditions = [], podsStatus_PodsStatus = None\<rparr>,
       status_Clients = None\<rparr>\<rparr>"

definition withoutSessionPods :: "session \<Rightarrow> session" where
  "withoutSessionPods session =
     session\<lparr>session_Spec := (session_Spec session)\<lparr>spec_SessionPodTemplates := []\<rparr>\<rparr>"

text \<open>A creation fails unless the session exists already.\<close>

definition createIn :: "clusters \<Rightarrow> string \<Rightarrow> session \<Rightarrow> goError option rest" where
  "createIn C c session = do {
     err \<leftarrow> sessions_Create C (Sessions c ''default'') session;
     ret (case err of
        None \<Rightarrow> None
      | Some e \<Rightarrow> if \<not> err_IsAlreadyExists e then Some e else None) }"

text \<open>The clients of the clusters in the order of the visit.\<close>

definition rangeClients :: "managerOrder \<Rightarrow> managerLoop \<Rightarrow> (string, string) gomap \<Rightarrow> string list" where
  "rangeClients ord l m = map (map_get_zero [] m) (ord l (map_keys m))"

definition CreateSession ::
    "clusters \<Rightarrow> handler \<Rightarrow> managerOrder \<Rightarrow> string \<Rightarrow> string \<Rightarrow> string + registerSessionBody \<Rightarrow> response rest" where
  "CreateSession C H ord newUUID urlPath bound =
     (case bound of
        Inl e \<Rightarrow> ret (respond 400 (ErrorBody e))
      | Inr body \<Rightarrow>
          (case map_of (sessionTemplates H) (body_TemplateName body) of
             None \<Rightarrow> ret (respond 400 (ErrorBody ''template name not configured''))
           | Some template \<Rightarrow>
               (let sessionName = body_TemplateName body @ ''-'' @ take 4 newUUID;
                    session = newSession sessionName template;
                    createAll = do {
                      err \<leftarrow> for_each (\<lambda>c. createIn C c (withoutSessionPods session))
                        (rangeClients ord RangeCreate (clusterClientMap H));
                      ret (case err of
                         Some e \<Rightarrow> respond 502 (ErrorBody (err_Error e))
                       | None \<Rightarrow> (respond 201 NoBody)\<lparr>resp_Location := Some (urlPath @ ''/'' @ sessionName)\<rparr>) }
                in if spec_SessionPodTemplates (session_Spec session) \<noteq> [] then
                     (case map_of (clusterClientMap H) (body_SessionPodsCluster body) of
                        None \<Rightarrow> ret (respond 400 (ErrorBody ''cluster not configured''))
                      | Some c \<Rightarrow> do {
                          err \<leftarrow> createIn C c session;
                          (case err of
                             Some e \<Rightarrow> ret (respond 502 (ErrorBody (err_Error e)))
                           | None \<Rightarrow> createAll) })
                   else createAll)))"

section \<open>Finding a session\<close>

text \<open>
  The sum of the sessions of all clusters; a cluster without the session ends the search.
\<close>

definition emptySum :: "string \<Rightarrow> session" where
  "emptySum sessionId = \<lparr>session_Name = sessionId, session_Namespace = [], session_Annotations = None,
     session_Spec = \<lparr>spec_SessionPodTemplates = [], spec_ClientPodTemplates = [], spec_TimeoutSeconds = 0,
       spec_ReutilizeTimeoutSeconds = 0, spec_Clients = Some []\<rparr>,
     session_Status = \<lparr>status_SessionPods = \<lparr>podsStatus_Conditions = [], podsStatus_PodsStatus = Some []\<rparr>,
       status_Clients = Some []\<rparr>\<rparr>"

definition putAll :: "managerOrder \<Rightarrow> managerLoop \<Rightarrow> 'v \<Rightarrow> (string, 'v) nilmap \<Rightarrow> (string, 'v) nilmap \<Rightarrow> (string, 'v) nilmap" where
  "putAll ord l zero source target = map_option (\<lambda>m.
     fold (\<lambda>k m. map_put k (map_get_zero zero (entries source) k) m) (ord l (map_keys (entries source))) m) target"

definition addToSum :: "managerOrder \<Rightarrow> session \<Rightarrow> session \<Rightarrow> session" where
  "addToSum ord session sessionSum =
     (let spec = session_Spec session; sumSpec = session_Spec sessionSum;
          status = session_Status session; sumStatus = session_Status sessionSum
      in sessionSum\<lparr>session_Spec :=
            \<lparr>spec_SessionPodTemplates =
               (if spec_SessionPodTemplates spec \<noteq> [] then spec_SessionPodTemplates spec
                else spec_SessionPodTemplates sumSpec),
             spec_ClientPodTemplates =
               (if spec_ClientPodTemplates sumSpec = [] then spec_ClientPodTemplates spec
                else spec_ClientPodTemplates sumSpec),
             spec_TimeoutSeconds = spec_TimeoutSeconds spec,
             spec_ReutilizeTimeoutSeconds = spec_ReutilizeTimeoutSeconds spec,
             spec_Clients = putAll ord RangeSumClients False (spec_Clients spec) (spec_Clients sumSpec)\<rparr>,
           session_Status :=
            \<lparr>status_SessionPods =
               (if spec_SessionPodTemplates spec \<noteq> [] then status_SessionPods status
                else status_SessionPods sumStatus),
             status_Clients = putAll ord RangeSumStatuses zero_clientStatus (status_Clients status)
               (status_Clients sumStatus)\<rparr>\<rparr>)"

fun findSessionIn ::
    "clusters \<Rightarrow> managerOrder \<Rightarrow> string \<Rightarrow> string list \<Rightarrow> session \<Rightarrow> (goError + session) rest" where
  "findSessionIn C ord sessionId [] sessionSum = ret (Inr sessionSum)"
| "findSessionIn C ord sessionId (c # cs) sessionSum = do {
     r \<leftarrow> sessions_Get C (Sessions c ''default'') sessionId;
     (case r of
        Inl err \<Rightarrow> ret (Inl (if err_IsNotFound err then sessionNotFound else err))
      | Inr session \<Rightarrow> findSessionIn C ord sessionId cs (addToSum ord session sessionSum)) }"

definition findSession :: "clusters \<Rightarrow> managerOrder \<Rightarrow> string \<Rightarrow> (string, string) gomap \<Rightarrow> (goError + session) rest" where
  "findSession C ord sessionId clients =
     findSessionIn C ord sessionId (rangeClients ord RangeFind clients) (emptySum sessionId)"

definition GetSessionHandler :: "clusters \<Rightarrow> handler \<Rightarrow> managerOrder \<Rightarrow> string \<Rightarrow> response rest" where
  "GetSessionHandler C H ord sessionId = do {
     r \<leftarrow> findSession C ord sessionId (clusterClientMap H);
     ret (case r of Inl err \<Rightarrow> searchFailed err | Inr session \<Rightarrow> respond 200 (SessionBody session)) }"

section \<open>Listing and deleting\<close>

text \<open>The loop of \<open>GetSessions\<close> ends with a break: it lists the first cluster of the visit only.\<close>

definition GetSessions :: "clusters \<Rightarrow> handler \<Rightarrow> managerOrder \<Rightarrow> string \<Rightarrow> response rest" where
  "GetSessions C H ord urlPath =
     (case rangeClients ord RangeList (clusterClientMap H) of
        [] \<Rightarrow> ret (respond 200 (LocationsBody []))
      | c # _ \<Rightarrow> do {
          r \<leftarrow> sessions_List C (Sessions c ''default'');
          ret (case r of
             Inl err \<Rightarrow> respond 502 (ErrorBody (err_Error err))
           | Inr sessions \<Rightarrow> respond 200 (LocationsBody
               (map (\<lambda>session. (session_Name session, urlPath @ ''/'' @ session_Name session)) sessions))) })"

fun deleteFrom :: "clusters \<Rightarrow> string \<Rightarrow> string list \<Rightarrow> bool \<Rightarrow> (goError + bool) rest" where
  "deleteFrom C sessionId [] deleted = ret (Inr deleted)"
| "deleteFrom C sessionId (c # cs) deleted = do {
     r \<leftarrow> sessions_Delete C (Sessions c ''default'') sessionId;
     (case r of
        Some err \<Rightarrow> if \<not> err_IsNotFound err then ret (Inl err) else deleteFrom C sessionId cs deleted
      | None \<Rightarrow> deleteFrom C sessionId cs True) }"

definition DeleteSession :: "clusters \<Rightarrow> handler \<Rightarrow> managerOrder \<Rightarrow> string \<Rightarrow> response rest" where
  "DeleteSession C H ord sessionId = do {
     r \<leftarrow> deleteFrom C sessionId (rangeClients ord RangeDelete (clusterClientMap H)) False;
     ret (case r of
        Inl err \<Rightarrow> respond 502 (ErrorBody (err_Error err))
      | Inr deleted \<Rightarrow> if \<not> deleted then respond 404 NoBody else respond 200 NoBody) }"

section \<open>Ping servers\<close>

definition pingServer :: "goError + service \<Rightarrow> string" where
  "pingServer r =
     (case r of
        Inl _ \<Rightarrow> ''problem getting ip''
      | Inr svc \<Rightarrow> (case svc_LoadBalancerIPs svc of
          [] \<Rightarrow> ''problem getting ip''
        | ipAddress # _ \<Rightarrow> ''udp://'' @ ipAddress @ '':8080''))"

fun pingServers :: "clusters \<Rightarrow> (string, string) gomap \<Rightarrow> string list \<Rightarrow> (string, string) gomap \<Rightarrow> (string, string) gomap rest" where
  "pingServers C clientsets [] m = ret m"
| "pingServers C clientsets (cluster # cs) m = do {
     r \<leftarrow> call (RestGetService (map_get_zero [] clientsets cluster) ''default'' ''udp-ping'')
       (\<lambda>h. rest_GetService C h (map_get_zero [] clientsets cluster));
     pingServers C clientsets cs (map_put cluster (pingServer r) m) }"

definition GetPingServers :: "clusters \<Rightarrow> handler \<Rightarrow> managerOrder \<Rightarrow> response rest" where
  "GetPingServers C H ord = do {
     m \<leftarrow> pingServers C (clusterClientsetMap H) (ord RangePing (map_keys (clusterClientsetMap H))) [];
     ret (respond 200 (PingBody m)) }"

end
