(* ===== verification/Client_Handlers.thy ===== *)
theory Client_Handlers
  imports Session_Handlers
begin

text \<open>
  The handlers for the clients of a session (\<open>handlers/clients.go\<close>) and the routes of \<open>main.go\<close>.  A
  panic is \<open>None\<close>; the web framework turns it into a response of its own.
\<close>

section \<open>Searching\<close>

fun findClientIn ::
    "clusters \<Rightarrow> string \<Rightarrow> string \<Rightarrow> string list \<Rightarrow> (goError + string \<times> session) rest" where
  "findClientIn C sessionId clientId [] = ret (Inl sessionNotFound)"
| "findClientIn C sessionId clientId (c # cs) = do {
     r \<leftarrow> sessions_Get C (Sessions c ''default'') sessionId;
     (case r of
        Inl err \<Rightarrow> if \<not> err_IsNotFound err then ret (Inl err) else findClientIn C sessionId clientId cs
      | Inr session \<Rightarrow>
          if map_of (entries (spec_Clients (session_Spec session))) clientId \<noteq> None
          then ret (Inr (c, session))
          else findClientIn C sessionId clientId cs) }"

definition findSessionByClientId ::
    "clusters \<Rightarrow> managerOrder \<Rightarrow> (string, string) gomap \<Rightarrow> string \<Rightarrow> string
       \<Rightarrow> (goError + string \<times> session) rest" where
  "findSessionByClientId C ord clients sessionId clientId =
     findClientIn C sessionId clientId (rangeClients ord RangeFindClient clients)"

section \<open>Patching\<close>

definition patchSession :: "clusters \<Rightarrow> session \<Rightarrow> string \<Rightarrow> clientsPatch option \<Rightarrow> response rest" where
  "patchSession C session c patchData = do {
     err \<leftarrow> sessions_PatchClients C (Sessions c ''default'') (session_Name session) session patchData;
     ret (case err of
        Some e \<Rightarrow> respond (if err_IsNotFound e then 404 else 502) (ErrorBody (err_Error e))
      | None \<Rightarrow> respond 200 NoBody) }"

text \<open>The assignment to an entry of \<open>session.Spec.Clients\<close>, which panics on a nil map.\<close>

definition setClient :: "string \<Rightarrow> bool \<Rightarrow> session \<Rightarrow> session option" where
  "setClient clientId connected session = do {
     m \<leftarrow> nilmap_put clientId connected (spec_Clients (session_Spec session));
     Some (session\<lparr>session_Spec := (session_Spec session)\<lparr>spec_Clients := m\<rparr>\<rparr>) }"

section \<open>The handlers\<close>

definition CreateClient ::
    "clusters \<Rightarrow> handler \<Rightarrow> string \<Rightarrow> string + createClientBody \<Rightarrow> response option rest" where
  "CreateClient C H sessionId bound =
     (case bound of
        Inl e \<Rightarrow> ret (Some (respond 400 (ErrorBody e)))
      | Inr body \<Rightarrow>
          (case map_of (clusterClientMap H) (body_Cluster body) of
             None \<Rightarrow> ret (Some (respond 400 (ErrorBody ''cluster not configured'')))
           | Some c \<Rightarrow> do {
               r \<leftarrow> sessions_Get C (Sessions c ''default'') sessionId;
               (case r of
                  Inl err \<Rightarrow> ret (Some (respond (if err_IsNotFound err then 404 else 502) (ErrorBody (err_Error err))))
                | Inr session \<Rightarrow>
                    if map_of (entries (spec_Clients (session_Spec session))) (body_ClientId body) \<noteq> None
                    then ret (Some (respond 409 (ErrorBody ''client already exists'')))
                    else (case setClient (body_ClientId body) True session of
                        None \<Rightarrow> ret None
                      | Some session \<Rightarrow> do { resp \<leftarrow> patchSession C session c None; ret (Some resp) })) }))"

definition GetClient :: "clusters \<Rightarrow> handler \<Rightarrow> managerOrder \<Rightarrow> string \<Rightarrow> string \<Rightarrow> response rest" where
  "GetClient C H ord sessionId clientId = do {
     r \<leftarrow> findSessionByClientId C ord (clusterClientMap H) sessionId clientId;
     ret (case r of
        Inl err \<Rightarrow> searchFailed err
      | Inr (_, session) \<Rightarrow> respond 200 (ClientBody
          (map_get_zero False (entries (spec_Clients (session_Spec session))) clientId)
          (map_get_zero zero_clientStatus (entries (status_Clients (session_Status session))) clientId))) }"

definition GetClients :: "clusters \<Rightarrow> handler \<Rightarrow> managerOrder \<Rightarrow> string \<Rightarrow> string \<Rightarrow> response rest" where
  "GetClients C H ord urlPath sessionId = do {
     r \<leftarrow> findSession C ord sessionId (clusterClientMap H);
     ret (case r of
        Inl err \<Rightarrow> searchFailed err
      | Inr session \<Rightarrow> respond 200 (LocationsBody (map (\<lambda>client. (client, urlPath @ ''/'' @ client))
          (ord RangeClientLocations (map_keys (entries (spec_Clients (session_Spec session)))))))) }"

text \<open>The dereference of \<open>body.Connected\<close> panics when the pointer is nil.\<close>

definition UpdateClient ::
    "clusters \<Rightarrow> handler \<Rightarrow> managerOrder \<Rightarrow> string \<Rightarrow> string \<Rightarrow> string + updateClientBody \<Rightarrow> response option rest" where
  "UpdateClient C H ord sessionId clientId bound =
     (case bound of
        Inl e \<Rightarrow> ret (Some (respond 400 (ErrorBody e)))
      | Inr body \<Rightarrow> do {
          r \<leftarrow> findSessionByClientId C ord (clusterClientMap H) sessionId clientId;
          (case r of
             Inl err \<Rightarrow> ret (Some (searchFailed err))
           | Inr (c, session) \<Rightarrow>
               (case Option.bind (body_Connected body) (\<lambda>connected. setClient clientId connected session) of
                  None \<Rightarrow> ret None
                | Some session \<Rightarrow> do { resp \<leftarrow> patchSession C session c None; ret (Some resp) })) })"

definition DeleteClient :: "clusters \<Rightarrow> handler \<Rightarrow> managerOrder \<Rightarrow> string \<Rightarrow> string \<Rightarrow> response rest" where
  "DeleteClient C H ord sessionId clientId = do {
     r \<leftarrow> findSessionByClientId C ord (clusterClientMap H) sessionId clientId;
     (case r of
        Inl err \<Rightarrow> ret (searchFailed err)
      | Inr (c, session) \<Rightarrow> patchSession C session c (Some (RemoveClient clientId))) }"

section \<open>The routes\<close>

text \<open>A request that matches a route of \<open>main\<close>, with its parameters, its bound body and its path.\<close>

datatype httpCall =
    PostSession "string + registerSessionBody"
  | ListSessions
  | ReadSession string
  | RemoveSession string
  | PostClient string "string + createClientBody"
  | ListClients string
  | ReadClient string string
  | PatchClient string string "string + updateClientBody"
  | DropClient string string
  | Ping

definition serve ::
    "clusters \<Rightarrow> handler \<Rightarrow> managerOrder \<Rightarrow> string \<Rightarrow> string \<Rightarrow> httpCall \<Rightarrow> response option rest" where
  "serve C H ord newUUID urlPath req =
     (let always = (\<lambda>act. do { resp \<leftarrow> act; ret (Some resp) }) in
      case req of
        PostSession b \<Rightarrow> always (CreateSession C H ord newUUID urlPath b)
      | ListSessions \<Rightarrow> always (GetSessions C H ord urlPath)
      | ReadSession sid \<Rightarrow> always (GetSessionHandler C H ord sid)
      | RemoveSession sid \<Rightarrow> always (DeleteSession C H ord sid)
      | PostClient sid b \<Rightarrow> CreateClient C H sid b
      | ListClients sid \<Rightarrow> always (GetClients C H ord urlPath sid)
      | ReadClient sid cid \<Rightarrow> always (GetClient C H ord sid cid)
      | PatchClient sid cid b \<Rightarrow> UpdateClient C H ord sid cid b
      | DropClient sid cid \<Rightarrow> always (DeleteClient C H ord sid cid)
      | Ping \<Rightarrow> always (GetPingServers C H ord))"

end
