(* ===== verification/Manager_Spec.thy ===== *)
theory Manager_Spec
  imports Client_Handlers
begin

text \<open>
  What the handlers of the session manager do, without their loops: the requests of a search, the sum
  of the sessions, and the effect of a patch on the clients that a server stores.
\<close>

section \<open>Clusters\<close>

text \<open>The clients of all clusters, in the order of a visit and as a set.\<close>

definition cluster_clients :: "handler \<Rightarrow> string set" where
  "cluster_clients H = ran (map_of (clusterClientMap H))"

lemma set_rangeClients:
  assumes "permutes_keys ord"
  shows "set (rangeClients ord l (clusterClientMap H)) = cluster_clients H"
proof -
  have "map_get_zero [] m ` dom (map_of m) = ran (map_of m)" for m :: "(string, string) gomap"
  proof (intro equalityI subsetI)
    fix c assume "c \<in> map_get_zero [] m ` dom (map_of m)"
    then obtain k v where "map_of m k = Some v" "c = map_get_zero [] m k" by blast
    then show "c \<in> ran (map_of m)" by (auto simp: ran_def)
  next
    fix c assume "c \<in> ran (map_of m)"
    then obtain k where "map_of m k = Some c" by (auto simp: ran_def)
    then show "c \<in> map_get_zero [] m ` dom (map_of m)" by (intro image_eqI [of _ _ k]) auto
  qed
  then show ?thesis using assms by (simp add: rangeClients_def cluster_clients_def permutes_keys_set)
qed

section \<open>Requests\<close>

fun rest_is_write :: "restRequest \<Rightarrow> bool" where
  "rest_is_write (RestPost _ _ _) = True"
| "rest_is_write (RestPatch _ _ _ _) = True"
| "rest_is_write (RestDelete _ _ _) = True"
| "rest_is_write _ = False"

text \<open>A search only reads.\<close>

definition reads :: "restHistory \<Rightarrow> bool" where
  "reads t \<longleftrightarrow> list_all (\<lambda>r. \<not> rest_is_write r) t"

lemma reads_simps [simp]: "reads []" "reads (r # t) \<longleftrightarrow> \<not> rest_is_write r \<and> reads t" "reads (t @ u) \<longleftrightarrow> reads t \<and> reads u"
  by (auto simp: reads_def)

lemmas rest_defs = sessions_Get_def sessions_List_def sessions_Create_def sessions_Delete_def
  sessions_PatchClients_def Sessions_def

lemma findSessionIn_reads:
  "run_state (findSessionIn C ord sid cs s) h = (r, h') \<Longrightarrow> \<exists>t. h' = h @ t \<and> reads t"
proof (induction cs arbitrary: s h)
  case Nil
  then show ?case by simp
next
  case (Cons c cs)
  show ?case
  proof (cases "rest_Get C h c sid")
    case (Inl err)
    with Cons.prems show ?thesis by (auto simp: rest_defs)
  next
    case (Inr session)
    with Cons.prems have "run_state (findSessionIn C ord sid cs (addToSum ord session s))
        (h @ [RestGet c ''default'' sid]) = (r, h')" by (simp add: rest_defs)
    from Cons.IH [OF this] show ?thesis by auto
  qed
qed

text \<open>The session that a search finds is the answer to its last request.\<close>

definition read_last :: "clusters \<Rightarrow> string \<Rightarrow> restHistory \<Rightarrow> restHistory \<Rightarrow> string \<Rightarrow> session \<Rightarrow> bool" where
  "read_last C sid h t c session \<longleftrightarrow> (\<exists>v. reads v \<and> t = v @ [RestGet c ''default'' sid] \<and>
     rest_Get C (h @ v) c sid = Inr session)"

lemma read_last_Cons:
  assumes "read_last C sid (h @ [r]) t c session" and "\<not> rest_is_write r"
  shows "read_last C sid h (r # t) c session"
proof -
  from assms(1) obtain v where "reads v" "t = v @ [RestGet c ''default'' sid]" "rest_Get C ((h @ [r]) @ v) c sid = Inr session"
    unfolding read_last_def by blast
  with assms(2) show ?thesis unfolding read_last_def by (intro exI [of _ "r # v"]) simp
qed

lemma findClientIn_found:
  "run_state (findClientIn C sid cid cs) h = (r, h') \<Longrightarrow>
     \<exists>t. h' = h @ t \<and> reads t \<and>
       (\<forall>c session. r = Inr (c, session) \<longrightarrow> c \<in> set cs \<and> read_last C sid h t c session \<and>
          map_of (entries (spec_Clients (session_Spec session))) cid \<noteq> None)"
proof (induction cs arbitrary: h)
  case Nil
  then show ?case by auto
next
  case (Cons c cs)
  let ?h = "h @ [RestGet c ''default'' sid]"
  have more: ?case if "run_state (findClientIn C sid cid cs) ?h = (r, h')"
  proof -
    from Cons.IH [OF that] obtain t where t: "h' = ?h @ t" "reads t"
      "\<forall>c session. r = Inr (c, session) \<longrightarrow> c \<in> set cs \<and> read_last C sid ?h t c session \<and>
          map_of (entries (spec_Clients (session_Spec session))) cid \<noteq> None" by blast
    then show ?thesis by (intro exI [of _ "RestGet c ''default'' sid # t"]) (auto intro: read_last_Cons)
  qed
  show ?case
  proof (cases "rest_Get C h c sid")
    case (Inl err)
    with Cons.prems more show ?thesis
      by (cases "err_IsNotFound err") (auto simp: rest_defs)
  next
    case (Inr session)
    show ?thesis
    proof (cases "map_of (entries (spec_Clients (session_Spec session))) cid")
      case None
      with Inr Cons.prems more show ?thesis by (simp add: rest_defs)
    next
      case (Some b)
      with Inr Cons.prems have "h' = ?h" "r = Inr (c, session)" by (auto simp: rest_defs)
      with Inr Some show ?thesis
        by (intro exI [of _ "[RestGet c ''default'' sid]"]) (auto simp: read_last_def intro: exI [of _ "[]"])
    qed
  qed
qed

lemma findSessionByClientId_found:
  assumes "permutes_keys ord"
    and "run_state (findSessionByClientId C ord (clusterClientMap H) sid cid) h = (r, h')"
  shows "\<exists>t. h' = h @ t \<and> reads t \<and>
       (\<forall>c session. r = Inr (c, session) \<longrightarrow> c \<in> cluster_clients H \<and> read_last C sid h t c session \<and>
          map_of (entries (spec_Clients (session_Spec session))) cid \<noteq> None)"
  using findClientIn_found [OF assms(2) [unfolded findSessionByClientId_def]]
  unfolding set_rangeClients [OF assms(1)] .

section \<open>The effect of a patch\<close>

text \<open>
  A JSON merge patch, as RFC 7386 documents it: the members of an object are put into the target, a
  null member removes the member, and a null in place of the object removes all.
\<close>

fun merge_patch :: "clientsPatch \<Rightarrow> (string \<rightharpoonup> bool) \<Rightarrow> (string \<rightharpoonup> bool)" where
  "merge_patch (SetClients None) m = Map.empty"
| "merge_patch (SetClients (Some clients)) m = m ++ map_of clients"
| "merge_patch (RemoveClient clientId) m = m(clientId := None)"

definition stored_clients :: "session \<Rightarrow> string \<rightharpoonup> bool" where
  "stored_clients session = map_of (entries (spec_Clients (session_Spec session)))"

text \<open>What a patch asks for, by the handler that makes it.\<close>

lemma patchSession_run:
  "run_state (patchSession C session c p) h =
     (let patch = (case p of None \<Rightarrow> SetClients (spec_Clients (session_Spec session)) | Some p \<Rightarrow> p) in
      (case rest_Patch C h c (session_Name session) patch of
         Some e \<Rightarrow> respond (if err_IsNotFound e then 404 else 502) (ErrorBody (err_Error e))
       | None \<Rightarrow> respond 200 NoBody,
       h @ [RestPatch c ''default'' (session_Name session) patch]))"
  by (simp add: patchSession_def rest_defs Let_def)

lemma setClient_spec:
  assumes "setClient cid b session = Some session'"
  shows "\<exists>m. spec_Clients (session_Spec session') = Some m \<and> map_of m = (stored_clients session)(cid \<mapsto> b) \<and>
    session_Name session' = session_Name session"
  using assms by (auto simp: setClient_def nilmap_put_def stored_clients_def split: option.splits)

section \<open>The sum of the sessions\<close>

lemma putAll_lookup:
  assumes "permutes_keys ord" and "map_ok (entries source)"
  shows "map_of (entries (putAll ord l zero source (Some m))) = map_of m ++ map_of (entries source)"
proof -
  have "map_of (fold (\<lambda>k m. map_put k (map_get_zero zero (entries source) k) m) ks acc) k =
      (if k \<in> set ks then Some (map_get_zero zero (entries source) k) else map_of acc k)" for ks acc k
    by (induction ks arbitrary: acc) auto
  then show ?thesis
    using assms(1) by (auto simp: putAll_def fun_eq_iff map_add_def permutes_keys_set split: option.splits)
qed

text \<open>
  A search asks one cluster after the other, up to the first that does not answer with a session, and adds
  up the sessions it gets.
\<close>

definition asked :: "string \<Rightarrow> string list \<Rightarrow> restHistory" where
  "asked sid = map (\<lambda>c. RestGet c ''default'' sid)"

lemma findSessionIn_sum:
  assumes "run_state (findSessionIn C ord sid cs acc) h = (r, h @ t)"
  shows "\<exists>ss. length ss \<le> length cs \<and>
    (\<forall>i < length ss. rest_Get C (h @ asked sid (take i cs)) (cs ! i) sid = Inr (ss ! i)) \<and>
    (if length ss = length cs then r = Inr (fold (addToSum ord) ss acc) \<and> t = asked sid cs
     else \<exists>err. rest_Get C (h @ asked sid (take (length ss) cs)) (cs ! length ss) sid = Inl err \<and>
       r = Inl (if err_IsNotFound err then sessionNotFound else err) \<and> t = asked sid (take (Suc (length ss)) cs))"
  using assms
proof (induction cs arbitrary: acc h t)
  case Nil
  then show ?case by (simp add: asked_def)
next
  case (Cons c cs)
  let ?get = "RestGet c ''default'' sid"
  show ?case
  proof (cases "rest_Get C h c sid")
    case (Inl err)
    with Cons.prems show ?thesis by (intro exI [of _ "[]"]) (simp add: rest_defs asked_def)
  next
    case (Inr session)
    with Cons.prems have run: "run_state (findSessionIn C ord sid cs (addToSum ord session acc)) (h @ [?get]) = (r, h @ t)"
      by (simp add: rest_defs)
    from findSessionIn_reads [OF this] obtain u where "t = ?get # u" by auto
    with run Cons.IH [of "addToSum ord session acc" "h @ [?get]" u] obtain ss where
      ss: "length ss \<le> length cs"
        "\<forall>i < length ss. rest_Get C ((h @ [?get]) @ asked sid (take i cs)) (cs ! i) sid = Inr (ss ! i)"
        "if length ss = length cs then r = Inr (fold (addToSum ord) ss (addToSum ord session acc)) \<and> u = asked sid cs
         else \<exists>err. rest_Get C ((h @ [?get]) @ asked sid (take (length ss) cs)) (cs ! length ss) sid = Inl err \<and>
           r = Inl (if err_IsNotFound err then sessionNotFound else err) \<and> u = asked sid (take (Suc (length ss)) cs)"
      by auto
    have "rest_Get C (h @ asked sid (take i (c # cs))) ((c # cs) ! i) sid = Inr ((session # ss) ! i)"
      if "i < length (session # ss)" for i
      using that ss(2) Inr by (cases i) (simp_all add: asked_def)
    with ss(1,3) \<open>t = ?get # u\<close> show ?thesis
      by (intro exI [of _ "session # ss"], cases "length ss = length cs") (simp_all add: asked_def split del: if_split)
  qed
qed

definition stored_statuses :: "session \<Rightarrow> string \<rightharpoonup> clientStatus" where
  "stored_statuses session = map_of (entries (status_Clients (session_Status session)))"

definition session_pods_of :: "session \<Rightarrow> podTemplate list \<times> sessionPodsStatus" where
  "session_pods_of session = (spec_SessionPodTemplates (session_Spec session), status_SessionPods (session_Status session))"

definition sum_ok :: "session \<Rightarrow> bool" where
  "sum_ok s \<longleftrightarrow> spec_Clients (session_Spec s) \<noteq> None \<and> status_Clients (session_Status s) \<noteq> None"

definition clients_ok :: "session \<Rightarrow> bool" where
  "clients_ok s \<longleftrightarrow> map_ok (entries (spec_Clients (session_Spec s))) \<and> map_ok (entries (status_Clients (session_Status s)))"

text \<open>The timeouts and the client templates, as the sum takes them from its sessions.\<close>

definition timeouts_of :: "session \<Rightarrow> int64 \<times> int64" where
  "timeouts_of session = (spec_TimeoutSeconds (session_Spec session), spec_ReutilizeTimeoutSeconds (session_Spec session))"

definition has_session_pods :: "session \<Rightarrow> bool" where
  "has_session_pods session \<longleftrightarrow> spec_SessionPodTemplates (session_Spec session) \<noteq> []"

definition client_templates :: "session \<Rightarrow> clientPodTemplate list" where
  "client_templates session = spec_ClientPodTemplates (session_Spec session)"

lemma addToSum_effect:
  assumes ord: "permutes_keys ord" and "clients_ok s" and "sum_ok acc"
  shows "sum_ok (addToSum ord s acc)"
    and "stored_clients (addToSum ord s acc) = stored_clients acc ++ stored_clients s"
    and "stored_statuses (addToSum ord s acc) = stored_statuses acc ++ stored_statuses s"
    and "session_pods_of (addToSum ord s acc) = (if has_session_pods s then session_pods_of s else session_pods_of acc)"
    and "client_templates (addToSum ord s acc) =
      (if client_templates acc = [] then client_templates s else client_templates acc)"
    and "timeouts_of (addToSum ord s acc) = timeouts_of s"
    and "session_Name (addToSum ord s acc) = session_Name acc"
proof -
  obtain m where m: "spec_Clients (session_Spec acc) = Some m" using assms(3) by (auto simp: sum_ok_def)
  obtain n where n: "status_Clients (session_Status acc) = Some n" using assms(3) by (auto simp: sum_ok_def)
  have ok: "map_ok (entries (spec_Clients (session_Spec s)))" "map_ok (entries (status_Clients (session_Status s)))"
    using assms(2) by (simp_all add: clients_ok_def)
  note lookup = putAll_lookup [OF ord ok(1), of RangeSumClients False m]
    putAll_lookup [OF ord ok(2), of RangeSumStatuses zero_clientStatus n]
  show "sum_ok (addToSum ord s acc)"
    using m n by (simp add: sum_ok_def addToSum_def putAll_def Let_def)
  show "stored_clients (addToSum ord s acc) = stored_clients acc ++ stored_clients s"
    using lookup(1) m by (simp add: stored_clients_def addToSum_def Let_def)
  show "stored_statuses (addToSum ord s acc) = stored_statuses acc ++ stored_statuses s"
    using lookup(2) n by (simp add: stored_statuses_def addToSum_def Let_def)
qed (simp_all add: session_pods_of_def has_session_pods_def client_templates_def timeouts_of_def addToSum_def Let_def)

text \<open>
  The sum of a list of sessions: of two sessions with the same client the later one counts, the session
  pods are those of the last session that has some, the client templates those of the first that has some,
  and the timeouts those of the last session.
\<close>

lemma addToSum_loop:
  assumes ord: "permutes_keys ord" and "\<forall>s \<in> set ss. clients_ok s" and "sum_ok acc"
  shows "stored_clients (fold (addToSum ord) ss acc) = fold (\<lambda>s m. m ++ stored_clients s) ss (stored_clients acc) \<and>
    stored_statuses (fold (addToSum ord) ss acc) = fold (\<lambda>s m. m ++ stored_statuses s) ss (stored_statuses acc) \<and>
    session_pods_of (fold (addToSum ord) ss acc) =
      (case filter has_session_pods ss of [] \<Rightarrow> session_pods_of acc | _ \<Rightarrow> session_pods_of (last (filter has_session_pods ss))) \<and>
    client_templates (fold (addToSum ord) ss acc) =
      (if client_templates acc = [] then concat (take 1 (filter (\<lambda>ts. ts \<noteq> []) (map client_templates ss)))
       else client_templates acc) \<and>
    timeouts_of (fold (addToSum ord) ss acc) = (if ss = [] then timeouts_of acc else timeouts_of (last ss)) \<and>
    session_Name (fold (addToSum ord) ss acc) = session_Name acc"
  using assms(2,3)
proof (induction ss arbitrary: acc)
  case Nil
  then show ?case by simp
next
  case (Cons s ss)
  have "clients_ok s" using Cons.prems by simp
  note effect = addToSum_effect [OF ord this Cons.prems(2)]
  show ?case using Cons.IH [OF _ effect(1)] Cons.prems(1) unfolding effect
    by (cases "filter has_session_pods ss") (simp_all add: effect)
qed

lemma empty_sum:
  "sum_ok (emptySum sid)" "stored_clients (emptySum sid) = Map.empty" "stored_statuses (emptySum sid) = Map.empty"
  "client_templates (emptySum sid) = []" "timeouts_of (emptySum sid) = (0, 0)" "session_Name (emptySum sid) = sid"
  by (simp_all add: emptySum_def sum_ok_def stored_clients_def stored_statuses_def client_templates_def timeouts_of_def)

section \<open>Deletions\<close>

definition delete_failed :: "goError option \<Rightarrow> bool" where
  "delete_failed r \<longleftrightarrow> (case r of None \<Rightarrow> False | Some err \<Rightarrow> \<not> err_IsNotFound err)"

lemma deleteFrom_spec:
  assumes "\<And>c h. c \<in> set cs \<Longrightarrow> rest_Delete C h c sid = answer c"
  shows "if list_ex (delete_failed \<circ> answer) cs
    then \<exists>err t. run_state (deleteFrom C sid cs d) h = (Inl err, h @ t)
    else run_state (deleteFrom C sid cs d) h =
      (Inr (d \<or> None \<in> answer ` set cs), h @ map (\<lambda>c. RestDelete c ''default'' sid) cs)"
  using assms
proof (induction cs arbitrary: d h)
  case Nil
  then show ?case by simp
next
  case (Cons c cs)
  have answer: "rest_Delete C h c sid = answer c" for h using Cons.prems by simp
  note IH = Cons.IH [OF Cons.prems, of _ "h @ [RestDelete c ''default'' sid]"]
  show ?case
  proof (cases "answer c")
    case None
    with IH [of True] show ?thesis by (auto simp: rest_defs answer delete_failed_def)
  next
    case (Some err)
    with IH [of d] show ?thesis by (auto simp: rest_defs answer delete_failed_def)
  qed
qed

section \<open>Creations\<close>

text \<open>The session that a trace creates in a cluster first; the later ones exist already.\<close>

fun first_post :: "string \<Rightarrow> restHistory \<Rightarrow> session option" where
  "first_post c [] = None"
| "first_post c (RestPost c' _ s # t) = (if c' = c then Some s else first_post c t)"
| "first_post c (_ # t) = first_post c t"

interpretation create_step: exact_step "\<lambda>c. createIn C c session" "\<lambda>c. [RestPost c ''default'' session]" for C session
  by unfold_locales (auto simp: createIn_def rest_defs split: option.splits if_splits)

lemma first_post_all: "c \<in> set cs \<Longrightarrow> first_post c (map (\<lambda>c. RestPost c ''default'' s) cs) = Some s"
  by (induction cs) auto

lemma CreateSession_done:
  assumes "run_state (CreateSession C H ord u path bound) h = (resp, h')" and "resp_Status resp = 201"
  shows "\<exists>body template s. bound = Inr body \<and>
    map_of (sessionTemplates H) (body_TemplateName body) = Some template \<and>
    s = newSession (body_TemplateName body @ ''-'' @ take 4 u) template \<and>
    resp_Location resp = Some (path @ ''/'' @ session_Name s) \<and>
    h' = h @ (if spec_SessionPodTemplates (session_Spec s) \<noteq> []
        then [RestPost (the (map_of (clusterClientMap H) (body_SessionPodsCluster body))) ''default'' s] else []) @
      map (\<lambda>c. RestPost c ''default'' (withoutSessionPods s)) (rangeClients ord RangeCreate (clusterClientMap H)) \<and>
    (spec_SessionPodTemplates (session_Spec s) \<noteq> [] \<longrightarrow>
      map_of (clusterClientMap H) (body_SessionPodsCluster body) \<noteq> None)"
proof -
  from assms obtain body where body: "bound = Inr body" by (cases bound) (auto simp: CreateSession_def respond_def)
  from assms obtain template where template: "map_of (sessionTemplates H) (body_TemplateName body) = Some template"
    by (cases "map_of (sessionTemplates H) (body_TemplateName body)") (auto simp: CreateSession_def body respond_def)
  define n where "n = body_TemplateName body @ ''-'' @ take 4 u"
  define s where "s = newSession n template"
  have name: "session_Name s = n" by (simp add: s_def newSession_def)
  let ?cs = "rangeClients ord RangeCreate (clusterClientMap H)"
  define createAll where "createAll = do {
      err \<leftarrow> for_each (\<lambda>c. createIn C c (withoutSessionPods s)) ?cs;
      ret (case err of
         Some e \<Rightarrow> respond 502 (ErrorBody (err_Error e))
       | None \<Rightarrow> (respond 201 NoBody)\<lparr>resp_Location := Some (path @ ''/'' @ n)\<rparr>) }"
  have all: "h2 = h1 @ map (\<lambda>c. RestPost c ''default'' (withoutSessionPods s)) ?cs \<and>
      resp_Location resp = Some (path @ ''/'' @ n)"
    if "run_state createAll h1 = (resp, h2)" for h1 h2
  proof -
    obtain e h3 where loop: "run_state (for_each (\<lambda>c. createIn C c (withoutSessionPods s)) ?cs) h1 = (e, h3)" by force
    with that assms(2) have "e = None" "h3 = h2" "resp_Location resp = Some (path @ ''/'' @ n)"
      by (cases e; auto simp: createAll_def respond_def)+
    with create_step.loop_done [of C "withoutSessionPods s" ?cs h1 h3] loop show ?thesis by (simp add: concat_map_singleton)
  qed
  have run: "run_state (if spec_SessionPodTemplates (session_Spec s) \<noteq> [] then
      (case map_of (clusterClientMap H) (body_SessionPodsCluster body) of
         None \<Rightarrow> ret (respond 400 (ErrorBody ''cluster not configured''))
       | Some c \<Rightarrow> do { err \<leftarrow> createIn C c s;
           (case err of Some e \<Rightarrow> ret (respond 502 (ErrorBody (err_Error e))) | None \<Rightarrow> createAll) })
      else createAll) h = (resp, h')"
    using assms(1) unfolding CreateSession_def body template Let_def createAll_def s_def n_def sum.case option.case .
  show ?thesis
  proof (cases "spec_SessionPodTemplates (session_Spec s) = []")
    case True
    with run all [of h h'] body template show ?thesis
      by (intro exI [of _ body] exI [of _ template] exI [of _ s]) (simp add: name, simp add: s_def n_def)
  next
    case False
    with run assms(2) obtain c where c: "map_of (clusterClientMap H) (body_SessionPodsCluster body) = Some c"
      by (cases "map_of (clusterClientMap H) (body_SessionPodsCluster body)") (auto simp: respond_def)
    obtain e h1 where first: "run_state (createIn C c s) h = (e, h1)" by force
    with run False c assms(2) have "e = None" "run_state createAll h1 = (resp, h')"
      by (cases e; auto simp: respond_def)+
    with first create_step.step_done [of C c s h h1] all [of h1 h'] False c body template show ?thesis
      by (intro exI [of _ body] exI [of _ template] exI [of _ s]) (simp add: name, simp add: s_def n_def)
  qed
qed

end
