(* ===== verification/Manager_Config.thy ===== *)
theory Manager_Config
  imports Session_Manager Group_Versions
begin

text \<open>
  The configuration of the session manager (\<open>handlers/handler.go\<close>, \<open>k8s-client/client.go\<close>): the clients
  of the clusters and the session templates.  The libraries for the configuration files, the REST
  client and YAML are a parameter.
\<close>

record restConfig =
  cfg_Context :: string
  cfg_GroupVersion :: "groupVersion option"
  cfg_APIPath :: string
  cfg_NegotiatedSerializer :: string
  cfg_UserAgent :: string

text \<open>
  \<open>lib_Contexts\<close> are the contexts of the file with the configuration of the clusters, or nil; the
  text of an error stands for the error.
\<close>

record library =
  lib_Contexts :: "string list option"
  lib_InClusterConfig :: "string + restConfig"
  lib_ClientConfig :: "string \<Rightarrow> string + restConfig"
  lib_UnversionedRESTClientFor :: "restConfig \<Rightarrow> string + string"
  lib_NewClientset :: "restConfig \<Rightarrow> string + string"
  lib_CodecsWithoutConversion :: string
  lib_DefaultUserAgent :: string
  lib_ReadFile :: "string + string"
  lib_Unmarshal :: "string \<Rightarrow> string + sessionTemplate list"

text \<open>\<open>NewForConfig\<close> changes the configuration through its pointer.\<close>

definition NewForConfig :: "library \<Rightarrow> restConfig \<Rightarrow> (string + string) \<times> restConfig" where
  "NewForConfig L c =
     (let c = c\<lparr>cfg_GroupVersion := Some session_GroupVersion, cfg_APIPath := ''/apis'',
            cfg_NegotiatedSerializer := lib_CodecsWithoutConversion L, cfg_UserAgent := lib_DefaultUserAgent L\<rparr>
      in (lib_UnversionedRESTClientFor L c, c))"

text \<open>The client and the clientset of one cluster, put under its name into the two maps.\<close>

definition addCluster ::
    "library \<Rightarrow> string \<Rightarrow> restConfig \<Rightarrow> (string, string) gomap \<times> (string, string) gomap
       \<Rightarrow> string + (string, string) gomap \<times> (string, string) gomap" where
  "addCluster L name cfg = (\<lambda>(clients, clientsets).
     (let (client, cfg) = NewForConfig L cfg in
      case client of
        Inl err \<Rightarrow> Inl err
      | Inr client \<Rightarrow>
          (case lib_NewClientset L cfg of
             Inl err \<Rightarrow> Inl err
           | Inr clientset \<Rightarrow> Inr (map_put name client clients, map_put name clientset clientsets))))"

fun addContexts ::
    "library \<Rightarrow> string list \<Rightarrow> (string, string) gomap \<times> (string, string) gomap
       \<Rightarrow> string + (string, string) gomap \<times> (string, string) gomap" where
  "addContexts L [] maps = Inr maps"
| "addContexts L (contextName # contexts) maps =
     (case lib_ClientConfig L contextName of
        Inl err \<Rightarrow> Inl err
      | Inr cfg \<Rightarrow>
          (case addCluster L contextName cfg maps of
             Inl err \<Rightarrow> Inl err
           | Inr maps \<Rightarrow> addContexts L contexts maps))"

definition readTemplates :: "library \<Rightarrow> string + (string, sessionTemplate) gomap" where
  "readTemplates L =
     (case lib_ReadFile L of
        Inl err \<Rightarrow> Inl err
      | Inr f \<Rightarrow>
          (case lib_Unmarshal L f of
             Inl err \<Rightarrow> Inl err
           | Inr templates \<Rightarrow> Inr (fold (\<lambda>template m. map_put (tmpl_Name template) template m) templates [])))"

text \<open>A failed configuration inside the cluster is only logged.\<close>

definition mainCluster :: "library \<Rightarrow> string + (string, string) gomap \<times> (string, string) gomap" where
  "mainCluster L =
     (case lib_InClusterConfig L of
        Inl _ \<Rightarrow> Inr ([], [])
      | Inr cfg \<Rightarrow> addCluster L ''main'' cfg ([], []))"

text \<open>The calls to the scheme come before the first client; an error of \<open>AddToScheme\<close> is dropped.\<close>

definition ConfigHandler :: "library \<Rightarrow> managerOrder \<Rightarrow> (schemeCall list, string + handler) state" where
  "ConfigHandler L ord =
     (case lib_Contexts L of
        None \<Rightarrow> ret (Inl ''could not read config from file'')
      | Some contexts \<Rightarrow> do {
          _ \<leftarrow> addKnownTypes;
          ret (case mainCluster L of
             Inl err \<Rightarrow> Inl err
           | Inr maps \<Rightarrow>
               (let contexts = (if map_of (fst maps) ''main'' \<noteq> None
                    then filter (\<lambda>name. name \<noteq> ''main'') contexts else contexts)
                in case addContexts L (ord RangeContexts contexts) maps of
                     Inl err \<Rightarrow> Inl err
                   | Inr (clients, clientsets) \<Rightarrow>
                       (case readTemplates L of
                          Inl err \<Rightarrow> Inl err
                        | Inr templates \<Rightarrow> Inr \<lparr>clusterClientsetMap = clientsets, clusterClientMap = clients,
                            sessionTemplates = templates\<rparr>))) })"

section \<open>The clusters of a configuration\<close>

lemma addCluster_keys:
  assumes "addCluster L name cfg (clients, clientsets) = Inr (clients', clientsets')"
  shows "dom (map_of clients') = insert name (dom (map_of clients)) \<and>
    dom (map_of clientsets') = insert name (dom (map_of clientsets)) \<and>
    (\<forall>n. n \<noteq> name \<longrightarrow> map_of clients' n = map_of clients n)"
  using assms by (auto simp: addCluster_def Let_def split: prod.splits sum.splits)

lemma addContexts_keys:
  assumes "addContexts L contexts (clients, clientsets) = Inr (clients', clientsets')"
  shows "dom (map_of clients') = set contexts \<union> dom (map_of clients) \<and>
    dom (map_of clientsets') = set contexts \<union> dom (map_of clientsets) \<and>
    (\<forall>n. n \<notin> set contexts \<longrightarrow> map_of clients' n = map_of clients n)"
  using assms
proof (induction contexts arbitrary: clients clientsets)
  case Nil
  then show ?case by simp
next
  case (Cons name contexts)
  from Cons.prems obtain cfg maps where "addCluster L name cfg (clients, clientsets) = Inr maps"
    "addContexts L contexts maps = Inr (clients', clientsets')"
    by (auto split: sum.splits)
  moreover obtain a b where "maps = (a, b)" by force
  ultimately show ?case using addCluster_keys [of L name cfg clients clientsets a b] Cons.IH [of a b] by auto
qed

text \<open>Inside a cluster the name \<open>main\<close> is that cluster, whatever the file says.\<close>

lemma ConfigHandler_clusters:
  assumes "permutes_keys ord" and "run_state (ConfigHandler L ord) h = (Inr H, h')" and "lib_Contexts L = Some contexts"
  shows "h' = h @ [AddKnownTypes session_GroupVersion sessionGroupKinds, AddToGroupVersion session_GroupVersion] \<and>
    dom (map_of (clusterClientMap H)) = dom (map_of (clusterClientsetMap H)) \<and>
    dom (map_of (clusterClientMap H)) = set contexts \<union> (if isl (lib_InClusterConfig L) then {} else {''main''}) \<and>
    (\<forall>cfg. lib_InClusterConfig L = Inr cfg \<longrightarrow>
       (\<exists>client. fst (NewForConfig L cfg) = Inr client \<and> map_of (clusterClientMap H) ''main'' = Some client))"
proof -
  from assms(2,3) have calls: "h' = h @ [AddKnownTypes session_GroupVersion sessionGroupKinds, AddToGroupVersion session_GroupVersion]"
    by (simp add: ConfigHandler_def addKnownTypes_run)
  from assms(2,3) obtain clients clientsets where main: "mainCluster L = Inr (clients, clientsets)"
    and rest: "addContexts L (ord RangeContexts (if map_of clients ''main'' \<noteq> None
        then filter (\<lambda>name. name \<noteq> ''main'') contexts else contexts)) (clients, clientsets)
      = Inr (clusterClientMap H, clusterClientsetMap H)"
    by (auto simp: ConfigHandler_def addKnownTypes_run Let_def split: sum.splits)
  note keys = addContexts_keys [OF rest]
  show ?thesis
  proof (cases "lib_InClusterConfig L")
    case (Inl e)
    with main have "clients = []" "clientsets = []" by (simp_all add: mainCluster_def)
    with keys calls Inl show ?thesis by (simp add: permutes_keys_set [OF assms(1)])
  next
    case (Inr cfg)
    with main have add: "addCluster L ''main'' cfg ([], []) = Inr (clients, clientsets)"
      by (simp add: mainCluster_def)
    then obtain client where client: "fst (NewForConfig L cfg) = Inr client" "map_of clients ''main'' = Some client"
      by (auto simp: addCluster_def Let_def split: prod.splits sum.splits)
    with keys calls Inr addCluster_keys [OF add] show ?thesis
      by (auto simp: permutes_keys_set [OF assms(1)])
  qed
qed

text \<open>Of two templates with the same name the last one counts.\<close>

lemma readTemplates_last:
  assumes "readTemplates L = Inr m" and "lib_ReadFile L = Inr f" and "lib_Unmarshal L f = Inr templates"
  shows "map_of m = map_of (rev (map (\<lambda>template. (tmpl_Name template, template)) templates))"
proof -
  have "map_of (fold (\<lambda>template m. map_put (tmpl_Name template) template m) ts acc) =
      map_of acc ++ map_of (rev (map (\<lambda>template. (tmpl_Name template, template)) ts))" for ts acc
    by (induction ts arbitrary: acc) (auto simp: fun_eq_iff map_add_def split: option.splits)
  from this [of templates "[]"] assms show ?thesis by (auto simp: readTemplates_def)
qed

end
