(* ===== verification/Manager_Properties.thy ===== *)
theory Manager_Properties
  imports Manager_Spec Manager_Config Demo
begin

text \<open>
  The properties of the session manager: its handlers as operations on the clients of a session, what
  a stale patch does, the sum of the sessions of all clusters, the creation of a session everywhere,
  and that every request gets an answer.
\<close>

section \<open>Two clusters\<close>

definition demo_handler :: handler where
  "demo_handler = \<lparr>clusterClientsetMap = [(''main'', ''cm''), (''edge'', ''ce'')],
     clusterClientMap = [(''main'', ''cm''), (''edge'', ''ce'')],
     sessionTemplates = [(''demo'', \<lparr>tmpl_Name = ''demo'',
       tmpl_SessionPodTemplates = spec_SessionPodTemplates (session_Spec demo_session),
       tmpl_ClientPodTemplates = spec_ClientPodTemplates (session_Spec demo_session),
       tmpl_TimeoutSeconds = 10, tmpl_ReutilizeTimeoutSeconds = 20\<rparr>)]\<rparr>"

text \<open>The session of the cluster \<open>edge\<close> has one client of its own and no session pods.\<close>

definition edge_session :: session where
  "edge_session = demo_session\<lparr>
     session_Spec := (session_Spec demo_session)\<lparr>spec_SessionPodTemplates := [], spec_Clients := Some [(''z'', True)]\<rparr>,
     session_Status := (session_Status demo_session)\<lparr>status_Clients := Some []\<rparr>\<rparr>"

definition demo_sessions :: "string \<Rightarrow> session" where
  "demo_sessions c = (if c = ''cm'' then demo_session else edge_session)"

definition demo_clusters :: clusters where
  "demo_clusters = \<lparr>rest_List = (\<lambda>_ c. Inr [demo_sessions c]),
     rest_Get = (\<lambda>_ c _. Inr (demo_sessions c)), rest_Post = (\<lambda>_ _ _. None), rest_Patch = (\<lambda>_ _ _ _. None),
     rest_Delete = (\<lambda>_ _ _. None), rest_GetService = (\<lambda>_ _. Inr demo_service)\<rparr>"

lemma demo_cluster_clients: "cluster_clients demo_handler = {''cm'', ''ce''}"
proof -
  have "map_ok (clusterClientMap demo_handler)" by code_simp
  then have "ran (map_of (clusterClientMap demo_handler)) = snd ` set (clusterClientMap demo_handler)"
    by (simp add: map_ok_def map_keys_def ran_distinct)
  then show ?thesis by (simp add: cluster_clients_def demo_handler_def)
qed

section \<open>The clients of a session\<close>

text \<open>The requests that change a client, and what each asks of the map of the clients.\<close>

fun changes_client :: "httpCall \<Rightarrow> bool" where
  "changes_client (PostClient _ _) = True"
| "changes_client (PatchClient _ _ _) = True"
| "changes_client (DropClient _ _) = True"
| "changes_client _ = False"

fun client_op :: "httpCall \<Rightarrow> (string \<rightharpoonup> bool) \<Rightarrow> (string \<rightharpoonup> bool)" where
  "client_op (PostClient _ (Inr body)) m = m(body_ClientId body \<mapsto> True)"
| "client_op (PatchClient _ clientId (Inr body)) m = m(clientId \<mapsto> the (body_Connected body))"
| "client_op (DropClient _ clientId) m = m(clientId := None)"
| "client_op _ m = m"

text \<open>What a patch does to the map that is stored when it arrives, which may not be the map that was read.\<close>

fun patch_effect :: "httpCall \<Rightarrow> (string \<rightharpoonup> bool) \<Rightarrow> (string \<rightharpoonup> bool) \<Rightarrow> (string \<rightharpoonup> bool)" where
  "patch_effect (DropClient _ clientId) was now = now(clientId := None)"
| "patch_effect req was now = now ++ client_op req was"

text \<open>The session that a request is about.\<close>

fun call_session :: "httpCall \<Rightarrow> string" where
  "call_session (PostClient sid _) = sid"
| "call_session (PatchClient sid _ _) = sid"
| "call_session (DropClient sid _) = sid"
| "call_session _ = []"

text \<open>A call that read \<open>session\<close> in a cluster and then made one patch there.\<close>

definition patched :: "clusters \<Rightarrow> handler \<Rightarrow> httpCall \<Rightarrow> restHistory \<Rightarrow> restHistory \<Rightarrow> session \<Rightarrow> clientsPatch \<Rightarrow> bool" where
  "patched C H req h t session patch \<longleftrightarrow> (\<exists>c v. c \<in> cluster_clients H \<and> reads v \<and>
     rest_Get C (h @ v) c (call_session req) = Inr session \<and>
     t = v @ [RestGet c ''default'' (call_session req), RestPatch c ''default'' (session_Name session) patch] \<and>
     (\<forall>now. merge_patch patch now = patch_effect req (stored_clients session) now))"

lemma patchedI:
  assumes "read_last C (call_session req) h u c session" and "c \<in> cluster_clients H"
    and "t = u @ [RestPatch c ''default'' (session_Name session) patch]"
    and "\<And>now. merge_patch patch now = patch_effect req (stored_clients session) now"
  shows "patched C H req h t session patch"
  using assms unfolding patched_def read_last_def by fastforce

lemma CreateClient_patched:
  assumes run: "run_state (CreateClient C H sid bound) h = (Some resp, h @ t)" and ok: "resp_Status resp = 200"
  shows "\<exists>session patch. patched C H (PostClient sid bound) h t session patch"
proof -
  from run ok obtain body where body: "bound = Inr body"
    by (cases bound) (auto simp: CreateClient_def respond_def)
  from run ok obtain c where c: "map_of (clusterClientMap H) (body_Cluster body) = Some c"
    by (cases "map_of (clusterClientMap H) (body_Cluster body)") (auto simp: CreateClient_def body respond_def)
  from run ok obtain session where session: "rest_Get C h c sid = Inr session"
    by (cases "rest_Get C h c sid") (auto simp: CreateClient_def body c rest_defs respond_def split: if_splits)
  from run ok have absent: "map_of (entries (spec_Clients (session_Spec session))) (body_ClientId body) = None"
    by (cases "map_of (entries (spec_Clients (session_Spec session))) (body_ClientId body)")
      (auto simp: CreateClient_def body c session rest_defs respond_def)
  have "setClient (body_ClientId body) True session \<noteq> None"
  proof
    assume "setClient (body_ClientId body) True session = None"
    with run show False by (simp add: CreateClient_def body c session absent rest_defs)
  qed
  then obtain session' where set: "setClient (body_ClientId body) True session = Some session'" by blast
  from setClient_spec [OF set] obtain m where m: "spec_Clients (session_Spec session') = Some m"
    "map_of m = (stored_clients session)(body_ClientId body \<mapsto> True)" "session_Name session' = session_Name session" by blast
  have "t = [RestGet c ''default'' sid] @ [RestPatch c ''default'' (session_Name session) (SetClients (Some m))]"
    using run by (simp add: CreateClient_def body c session absent set patchSession_run rest_defs m Let_def)
  moreover have "c \<in> cluster_clients H" using c by (auto simp: cluster_clients_def ran_def)
  moreover have "read_last C sid h [RestGet c ''default'' sid] c session"
    using session by (simp add: read_last_def)
  ultimately have "patched C H (PostClient sid bound) h t session (SetClients (Some m))"
    using m(2) by (intro patchedI) (simp_all add: body)
  then show ?thesis by blast
qed

lemma found_client:
  assumes "permutes_keys ord"
    and "run_state (findSessionByClientId C ord (clusterClientMap H) sid cid) h = (Inr (c, session), h')"
  obtains u where "h' = h @ u" "c \<in> cluster_clients H" "read_last C sid h u c session"
    "cid \<in> dom (stored_clients session)"
  using findSessionByClientId_found [OF assms] by (auto simp: stored_clients_def)

lemma UpdateClient_patched:
  assumes ord: "permutes_keys ord"
    and run: "run_state (UpdateClient C H ord sid cid bound) h = (Some resp, h @ t)" and ok: "resp_Status resp = 200"
  shows "\<exists>session patch. patched C H (PatchClient sid cid bound) h t session patch \<and> cid \<in> dom (stored_clients session)"
proof -
  from run ok obtain body where body: "bound = Inr body"
    by (cases bound) (auto simp: UpdateClient_def respond_def)
  obtain r h1 where search: "run_state (findSessionByClientId C ord (clusterClientMap H) sid cid) h = (r, h1)" by force
  with run ok obtain c session where r: "r = Inr (c, session)"
    by (cases r) (auto simp: UpdateClient_def body searchFailed_def respond_def split: if_splits)
  from found_client [OF ord search [unfolded r]] obtain u where found: "h1 = h @ u"
    "c \<in> cluster_clients H" "read_last C sid h u c session" "cid \<in> dom (stored_clients session)" .
  from run obtain b session' where b: "body_Connected body = Some b" and set: "setClient cid b session = Some session'"
    by (auto simp: UpdateClient_def body search r split: option.splits Option.bind_splits)
  from setClient_spec [OF set] obtain m where m: "spec_Clients (session_Spec session') = Some m"
    "map_of m = (stored_clients session)(cid \<mapsto> b)" "session_Name session' = session_Name session" by blast
  have "t = u @ [RestPatch c ''default'' (session_Name session) (SetClients (Some m))]"
    using run by (simp add: UpdateClient_def body search r b set patchSession_run m found(1) Let_def)
  with found(2,3) m(2) b have "patched C H (PatchClient sid cid bound) h t session (SetClients (Some m))"
    by (intro patchedI) (simp_all add: body)
  with found(4) show ?thesis by blast
qed

lemma DeleteClient_patched:
  assumes ord: "permutes_keys ord"
    and run: "run_state (DeleteClient C H ord sid cid) h = (resp, h @ t)" and ok: "resp_Status resp = 200"
  shows "\<exists>session patch. patched C H (DropClient sid cid) h t session patch \<and> cid \<in> dom (stored_clients session)"
proof -
  obtain r h1 where search: "run_state (findSessionByClientId C ord (clusterClientMap H) sid cid) h = (r, h1)" by force
  with run ok obtain c session where r: "r = Inr (c, session)"
    by (cases r) (auto simp: DeleteClient_def searchFailed_def respond_def split: if_splits)
  from found_client [OF ord search [unfolded r]] obtain u where found: "h1 = h @ u"
    "c \<in> cluster_clients H" "read_last C sid h u c session" "cid \<in> dom (stored_clients session)" .
  have "t = u @ [RestPatch c ''default'' (session_Name session) (RemoveClient cid)]"
    using run by (simp add: DeleteClient_def search r patchSession_run found(1) Let_def)
  with found(2,3) have "patched C H (DropClient sid cid) h t session (RemoveClient cid)"
    by (intro patchedI) simp_all
  with found(4) show ?thesis by blast
qed

lemma serve_patched:
  assumes "permutes_keys ord" and "changes_client req"
    and "run_state (serve C H ord u path req) h = (Some resp, h @ t)" and "resp_Status resp = 200"
  shows "\<exists>session patch. patched C H req h t session patch"
proof (cases req)
  case (PostClient sid b)
  with assms CreateClient_patched [of C H sid b h resp t] show ?thesis by (simp add: serve_def)
next
  case (PatchClient sid cid b)
  with assms UpdateClient_patched [of ord C H sid cid b h resp t] show ?thesis by (auto simp: serve_def)
next
  case (DropClient sid cid)
  with assms have "run_state (DeleteClient C H ord sid cid) h = (resp, h @ t)"
    by (auto simp: serve_def split: prod.splits)
  with DropClient assms DeleteClient_patched [of ord C H sid cid h resp t] show ?thesis by auto
qed (use assms(2) in simp_all)


definition demo_update :: httpCall where
  "demo_update = PatchClient ''demo-1'' ''a'' (Inr \<lparr>body_Connected = Some False\<rparr>)"

lemma demo_update_run:
  "run_state (serve demo_clusters demo_handler visit ''0000'' ''/v1'' demo_update) [] =
     (Some (respond 200 NoBody), [] @ snd (run_state (serve demo_clusters demo_handler visit ''0000'' ''/v1'' demo_update) []))"
proof -
  have "fst (run_state (serve demo_clusters demo_handler visit ''0000'' ''/v1'' demo_update) []) =
      Some (respond 200 NoBody)" by code_simp
  then show ?thesis by (metis append_Nil prod.collapse)
qed


text \<open>
  C34. A lost deletion: a request for a client that is answered with 200 ends with the read of the session
  in one cluster and a patch there.  The patch of a creation or an update holds the whole map that was read,
  with the change, so whatever is stored by then gets every entry of it: a client that was in the map is in
  it again, whoever removed it after the read.  The patch of a deletion touches nothing but its client.
\<close>

theorem stale_patch_restores_clients:
  assumes "permutes_keys ord" and "changes_client req"
    and "run_state (serve C H ord u path req) h = (Some resp, h @ t)" and "resp_Status resp = 200"
  shows "\<exists>session patch c v. c \<in> cluster_clients H \<and> reads v \<and>
    rest_Get C (h @ v) c (call_session req) = Inr session \<and>
    t = v @ [RestGet c ''default'' (call_session req), RestPatch c ''default'' (session_Name session) patch] \<and>
    (\<forall>now. case req of
       DropClient _ cid \<Rightarrow> merge_patch patch now = now(cid := None)
     | _ \<Rightarrow> merge_patch patch now = now ++ client_op req (stored_clients session) \<and>
         dom (stored_clients session) \<subseteq> dom (merge_patch patch now))"
proof -
  from serve_patched [OF assms] obtain session patch where p: "patched C H req h t session patch" by blast
  then obtain c v where found: "c \<in> cluster_clients H" "reads v" "rest_Get C (h @ v) c (call_session req) = Inr session"
      "t = v @ [RestGet c ''default'' (call_session req), RestPatch c ''default'' (session_Name session) patch]"
    and effect: "merge_patch patch now = patch_effect req (stored_clients session) now" for now
    unfolding patched_def by blast
  have "case req of DropClient _ cid \<Rightarrow> merge_patch patch now = now(cid := None)
      | _ \<Rightarrow> merge_patch patch now = now ++ client_op req (stored_clients session) \<and>
         dom (stored_clients session) \<subseteq> dom (merge_patch patch now)" for now
    using assms(2) unfolding effect
    by (cases "(req, stored_clients session)" rule: client_op.cases) auto
  with found show ?thesis by blast
qed

lemma stale_patch_restores_clients_witness:
  "\<exists>session patch c v. c \<in> cluster_clients demo_handler \<and> reads v \<and>
    rest_Get demo_clusters ([] @ v) c (call_session demo_update) = Inr session \<and>
    snd (run_state (serve demo_clusters demo_handler visit ''0000'' ''/v1'' demo_update) []) =
      v @ [RestGet c ''default'' (call_session demo_update), RestPatch c ''default'' (session_Name session) patch] \<and>
    (\<forall>now. case demo_update of
       DropClient _ cid \<Rightarrow> merge_patch patch now = now(cid := None)
     | _ \<Rightarrow> merge_patch patch now = now ++ client_op demo_update (stored_clients session) \<and>
         dom (stored_clients session) \<subseteq> dom (merge_patch patch now))"
  by (rule stale_patch_restores_clients [OF _ _ demo_update_run]) (simp_all add: demo_update_def respond_def)

section \<open>Sessions\<close>

text \<open>
  C32. A session reads as one: \<open>GetSession\<close> asks the clusters one after the other, in the order of the
  visit.  If all of them have the session, the answer is 200 with the sum of the sessions that were read:
  the clients and the statuses of all of them, where of two clusters that have the same client the one
  visited later counts; the session pods of the last cluster that has some; the client templates of the
  first that has some; and the timeouts of the last.  Otherwise the first cluster that does not answer ends
  the search with its error, or with 404 if it does not have the session.
\<close>

theorem session_reads_as_one:
  assumes "permutes_keys ord" and "\<forall>h c session. rest_Get C h c sid = Inr session \<longrightarrow> clients_ok session"
    and "run_state (GetSessionHandler C H ord sid) h = (resp, h @ t)"
  defines "cs \<equiv> rangeClients ord RangeFind (clusterClientMap H)"
  shows "set cs = cluster_clients H \<and> (\<exists>ss. length ss \<le> length cs \<and>
    (\<forall>i < length ss. rest_Get C (h @ asked sid (take i cs)) (cs ! i) sid = Inr (ss ! i)) \<and>
    (if length ss = length cs
     then t = asked sid cs \<and> (\<exists>whole. resp = respond 200 (SessionBody whole) \<and> session_Name whole = sid \<and>
       stored_clients whole = fold (\<lambda>s m. m ++ stored_clients s) ss Map.empty \<and>
       stored_statuses whole = fold (\<lambda>s m. m ++ stored_statuses s) ss Map.empty \<and>
       session_pods_of whole = (case filter has_session_pods ss of [] \<Rightarrow> session_pods_of (emptySum sid)
         | _ \<Rightarrow> session_pods_of (last (filter has_session_pods ss))) \<and>
       client_templates whole = concat (take 1 (filter (\<lambda>ts. ts \<noteq> []) (map client_templates ss))) \<and>
       timeouts_of whole = (if ss = [] then (0, 0) else timeouts_of (last ss)))
     else t = asked sid (take (Suc (length ss)) cs) \<and>
       (\<exists>err. rest_Get C (h @ asked sid (take (length ss) cs)) (cs ! length ss) sid = Inl err \<and>
         resp = searchFailed (if err_IsNotFound err then sessionNotFound else err))))"
proof -
  obtain r where run: "run_state (findSessionIn C ord sid cs (emptySum sid)) h = (r, h @ t)"
    and resp: "resp = (case r of Inl err \<Rightarrow> searchFailed err | Inr session \<Rightarrow> respond 200 (SessionBody session))"
    using assms(3) by (auto simp: GetSessionHandler_def findSession_def cs_def split: prod.splits)
  from findSessionIn_sum [OF run] obtain ss where ss: "length ss \<le> length cs"
    "\<forall>i < length ss. rest_Get C (h @ asked sid (take i cs)) (cs ! i) sid = Inr (ss ! i)"
    and "if length ss = length cs then r = Inr (fold (addToSum ord) ss (emptySum sid)) \<and> t = asked sid cs
     else \<exists>err. rest_Get C (h @ asked sid (take (length ss) cs)) (cs ! length ss) sid = Inl err \<and>
       r = Inl (if err_IsNotFound err then sessionNotFound else err) \<and> t = asked sid (take (Suc (length ss)) cs)" by blast
  moreover have "\<forall>s \<in> set ss. clients_ok s" using ss(2) assms(2) by (metis in_set_conv_nth)
  note sum = addToSum_loop [OF assms(1) this empty_sum(1), of sid, unfolded empty_sum simp_thms if_True]
  moreover have "set cs = cluster_clients H" unfolding cs_def using assms(1) by (rule set_rangeClients)
  ultimately show ?thesis unfolding resp by (intro conjI exI [of _ ss]) (auto split: if_splits)
qed

lemma session_reads_as_one_witness:
  "\<exists>t whole. run_state (GetSessionHandler demo_clusters demo_handler (\<lambda>_. rev) ''demo-1'') [] =
      (respond 200 (SessionBody whole), [] @ t) \<and> t = asked ''demo-1'' [''ce'', ''cm''] \<and>
    stored_clients whole = Map.empty ++ stored_clients edge_session ++ stored_clients demo_session \<and>
    session_pods_of whole = session_pods_of demo_session \<and> timeouts_of whole = timeouts_of demo_session"
proof -
  obtain resp t where run: "run_state (GetSessionHandler demo_clusters demo_handler (\<lambda>_. rev) ''demo-1'') [] = (resp, [] @ t)"
    by force
  have get: "rest_Get demo_clusters h c sid = Inr (demo_sessions c)" for h c sid
    by (simp add: demo_clusters_def)
  have "clients_ok demo_session \<and> clients_ok edge_session" by code_simp
  then have ok: "\<forall>h c session. rest_Get demo_clusters h c sid = Inr session \<longrightarrow> clients_ok session" for sid
    by (auto simp: get demo_sessions_def)
  have cs: "rangeClients (\<lambda>_. rev) RangeFind (clusterClientMap demo_handler) = [''ce'', ''cm'']" by code_simp
  have answered: "(Inr a = Inl b) \<longleftrightarrow> False" "(if P then Q else False) \<longleftrightarrow> P \<and> Q" for a :: session and b :: goError and P Q
    by simp_all
  from session_reads_as_one [OF permutes_keys_rev ok run, unfolded cs get answered simp_thms,
      THEN conjunct2] obtain ss where
    ss: "\<forall>i < length ss. (Inr (demo_sessions ([''ce'', ''cm''] ! i)) :: goError + session) = Inr (ss ! i)"
    and len: "length ss = length [''ce'', ''cm'']" and t: "t = asked ''demo-1'' [''ce'', ''cm'']"
    and whole: "\<exists>whole. resp = respond 200 (SessionBody whole) \<and> session_Name whole = ''demo-1'' \<and>
       stored_clients whole = fold (\<lambda>s m. m ++ stored_clients s) ss Map.empty \<and>
       stored_statuses whole = fold (\<lambda>s m. m ++ stored_statuses s) ss Map.empty \<and>
       session_pods_of whole = (case filter has_session_pods ss of [] \<Rightarrow> session_pods_of (emptySum ''demo-1'')
         | _ \<Rightarrow> session_pods_of (last (filter has_session_pods ss))) \<and>
       client_templates whole = concat (take 1 (filter (\<lambda>ts. ts \<noteq> []) (map client_templates ss))) \<and>
       timeouts_of whole = (if ss = [] then (0, 0) else timeouts_of (last ss))"
    by (elim exE conjE) blast
  have "ss ! 0 = edge_session" "ss ! 1 = demo_session" using ss [rule_format, of 0] ss [rule_format, of 1] len
    by (simp_all add: get demo_sessions_def)
  with len have two: "ss = [edge_session, demo_session]" by (intro nth_equalityI) (auto simp: less_Suc_eq numeral_2_eq_2)
  have "has_session_pods demo_session" "\<not> has_session_pods edge_session" by code_simp+
  with whole run t show ?thesis unfolding two by auto
qed

text \<open>
  C18. A session is created everywhere, with its pods in one place: when \<open>CreateSession\<close> answers 201, the
  session that every cluster is asked to create first is the one of the template, with the session
  pods if it is the cluster of the request and without them otherwise; the name starts with the name
  of the template, and the \<open>Location\<close> leads to it.
\<close>

theorem session_created_everywhere:
  assumes "permutes_keys ord" and "run_state (CreateSession C H ord u path bound) h = (resp, h @ t)"
    and "resp_Status resp = 201"
  shows "\<exists>body template s. bound = Inr body \<and>
    map_of (sessionTemplates H) (body_TemplateName body) = Some template \<and>
    s = newSession (body_TemplateName body @ ''-'' @ take 4 u) template \<and>
    resp_Location resp = Some (path @ ''/'' @ session_Name s) \<and>
    (\<forall>c \<in> cluster_clients H. first_post c t = Some
       (if map_of (clusterClientMap H) (body_SessionPodsCluster body) = Some c then s else withoutSessionPods s))"
proof -
  from CreateSession_done [OF assms(2,3)] obtain body template s where body: "bound = Inr body"
    "map_of (sessionTemplates H) (body_TemplateName body) = Some template"
    "s = newSession (body_TemplateName body @ ''-'' @ take 4 u) template"
    "resp_Location resp = Some (path @ ''/'' @ session_Name s)"
    and t: "t = (if spec_SessionPodTemplates (session_Spec s) \<noteq> []
        then [RestPost (the (map_of (clusterClientMap H) (body_SessionPodsCluster body))) ''default'' s] else []) @
      map (\<lambda>c. RestPost c ''default'' (withoutSessionPods s)) (rangeClients ord RangeCreate (clusterClientMap H))"
    and place: "spec_SessionPodTemplates (session_Spec s) \<noteq> [] \<longrightarrow>
      map_of (clusterClientMap H) (body_SessionPodsCluster body) \<noteq> None" by auto
  have everywhere: "first_post c (map (\<lambda>c. RestPost c ''default'' (withoutSessionPods s))
      (rangeClients ord RangeCreate (clusterClientMap H))) = Some (withoutSessionPods s)" if "c \<in> cluster_clients H" for c
    using that by (intro first_post_all) (simp add: set_rangeClients [OF assms(1)])
  have same: "withoutSessionPods s = s" if "spec_SessionPodTemplates (session_Spec s) = []"
    using that by (simp add: withoutSessionPods_def)
  have "first_post c t = Some (if map_of (clusterClientMap H) (body_SessionPodsCluster body) = Some c
      then s else withoutSessionPods s)" if c: "c \<in> cluster_clients H" for c
  proof (cases "spec_SessionPodTemplates (session_Spec s) = []")
    case True
    with everywhere [OF c] t same show ?thesis by simp
  next
    case False
    with place obtain c1 where "map_of (clusterClientMap H) (body_SessionPodsCluster body) = Some c1" by auto
    with everywhere [OF c] t False show ?thesis by simp
  qed
  with body show ?thesis by blast
qed

definition demo_register :: registerSessionBody where
  "demo_register = \<lparr>body_TemplateName = ''demo'', body_SessionPodsCluster = ''main''\<rparr>"

lemma demo_create_run:
  "run_state (CreateSession demo_clusters demo_handler visit ''a1b2c3d4'' ''/v1/session'' (Inr demo_register)) [] =
     ((respond 201 NoBody)\<lparr>resp_Location := Some ''/v1/session/demo-a1b2''\<rparr>, [] @ snd (run_state
       (CreateSession demo_clusters demo_handler visit ''a1b2c3d4'' ''/v1/session'' (Inr demo_register)) []))"
proof -
  have "fst (run_state (CreateSession demo_clusters demo_handler visit ''a1b2c3d4'' ''/v1/session'' (Inr demo_register)) []) =
      (respond 201 NoBody)\<lparr>resp_Location := Some ''/v1/session/demo-a1b2''\<rparr>" by code_simp
  then show ?thesis by (metis append_Nil prod.collapse)
qed

lemma session_created_everywhere_witness:
  "\<exists>body template s. Inr demo_register = (Inr body :: string + registerSessionBody) \<and>
    map_of (sessionTemplates demo_handler) (body_TemplateName body) = Some template \<and>
    s = newSession (body_TemplateName body @ ''-'' @ take 4 ''a1b2c3d4'') template \<and>
    resp_Location ((respond 201 NoBody)\<lparr>resp_Location := Some ''/v1/session/demo-a1b2''\<rparr>) =
      Some (''/v1/session'' @ ''/'' @ session_Name s) \<and>
    (\<forall>c \<in> cluster_clients demo_handler. first_post c (snd (run_state
        (CreateSession demo_clusters demo_handler visit ''a1b2c3d4'' ''/v1/session'' (Inr demo_register)) [])) = Some
      (if map_of (clusterClientMap demo_handler) (body_SessionPodsCluster body) = Some c then s else withoutSessionPods s))"
  by (rule session_created_everywhere [OF _ demo_create_run]) (simp_all add: respond_def)

text \<open>
  \<open>DeleteSession\<close> removes the session from every cluster: unless a cluster fails with an error other than
  \<open>NotFound\<close>, which is answered with 502, each cluster is asked, and the answer is 200 if one of them
  had the session and 404 if none had it.
\<close>

theorem session_deleted_everywhere:
  assumes ord: "permutes_keys ord"
    and steady: "\<And>c h. c \<in> cluster_clients H \<Longrightarrow> rest_Delete C h c sid = answer c"
    and run: "run_state (DeleteSession C H ord sid) h = (resp, h @ t)"
  shows "if \<exists>c \<in> cluster_clients H. delete_failed (answer c) then resp_Status resp = 502
    else resp = respond (if None \<in> answer ` cluster_clients H then 200 else 404) NoBody \<and>
      set t = {RestDelete c ''default'' sid | c. c \<in> cluster_clients H}"
proof -
  let ?cs = "rangeClients ord RangeDelete (clusterClientMap H)"
  have cs: "set ?cs = cluster_clients H" using ord by (rule set_rangeClients)
  have any: "list_ex (delete_failed \<circ> answer) ?cs \<longleftrightarrow> (\<exists>c \<in> cluster_clients H. delete_failed (answer c))"
    by (simp add: list_ex_iff cs)
  note spec = deleteFrom_spec [of ?cs C sid answer False h, unfolded any cs, OF steady]
  show ?thesis
  proof (cases "\<exists>c \<in> cluster_clients H. delete_failed (answer c)")
    case True
    with spec obtain err u where "run_state (deleteFrom C sid ?cs False) h = (Inl err, h @ u)" by auto
    with True run show ?thesis by (auto simp: DeleteSession_def respond_def)
  next
    case False
    with spec have "run_state (deleteFrom C sid ?cs False) h =
        (Inr (None \<in> answer ` cluster_clients H), h @ map (\<lambda>c. RestDelete c ''default'' sid) ?cs)" by simp
    with run have "resp = respond (if None \<in> answer ` cluster_clients H then 200 else 404) NoBody"
      and t: "t = map (\<lambda>c. RestDelete c ''default'' sid) ?cs" by (auto simp: DeleteSession_def)
    moreover have "set t = {RestDelete c ''default'' sid | c. c \<in> cluster_clients H}"
      unfolding t set_map cs by blast
    ultimately show ?thesis using False by simp
  qed
qed

lemma session_deleted_everywhere_witness:
  "if \<exists>c \<in> cluster_clients demo_handler. delete_failed None then resp_Status (respond 200 NoBody) = 502
   else respond 200 NoBody = respond (if None \<in> (\<lambda>_. None :: goError option) ` cluster_clients demo_handler then 200 else 404) NoBody \<and>
     set [RestDelete ''cm'' ''default'' ''demo-1'', RestDelete ''ce'' ''default'' ''demo-1''] =
       {RestDelete c ''default'' ''demo-1'' | c. c \<in> cluster_clients demo_handler}"
proof -
  have run: "run_state (DeleteSession demo_clusters demo_handler visit ''demo-1'') [] = (respond 200 NoBody,
      [] @ [RestDelete ''cm'' ''default'' ''demo-1'', RestDelete ''ce'' ''default'' ''demo-1''])" by code_simp
  have steady: "rest_Delete demo_clusters h c ''demo-1'' = None" for h c by (simp add: demo_clusters_def)
  show ?thesis by (rule session_deleted_everywhere [where answer = "\<lambda>_. None", OF permutes_keys_id steady run])
qed

section \<open>Every request is answered\<close>

lemma status_searchFailed: "resp_Status (searchFailed err) \<in> {404, 502}"
  by (simp add: searchFailed_def respond_def)

lemma status_patchSession: "resp_Status (fst (run_state (patchSession C session c p) h)) \<in> {200, 404, 502}"
  by (auto simp: patchSession_run Let_def respond_def split: option.splits)

lemma status_CreateSession:
  "resp_Status (fst (run_state (CreateSession C H ord u path bound) h)) \<in> {201, 400, 502}"
  by (auto simp: CreateSession_def respond_def Let_def split: sum.splits option.splits prod.splits)

lemma status_DeleteClient: "resp_Status (fst (run_state (DeleteClient C H ord sid cid) h)) \<in> {200, 404, 502}"
  using status_searchFailed status_patchSession
  by (auto simp: DeleteClient_def split: sum.splits prod.splits)

text \<open>What the API validates: a stored session has a map of clients, and a body names the state of its client.\<close>

definition stored_maps :: "clusters \<Rightarrow> bool" where
  "stored_maps C \<longleftrightarrow> (\<forall>h c n session. rest_Get C h c n = Inr session \<longrightarrow> spec_Clients (session_Spec session) \<noteq> None)"

fun bound_ok :: "httpCall \<Rightarrow> bool" where
  "bound_ok (PatchClient _ _ (Inr body)) \<longleftrightarrow> body_Connected body \<noteq> None"
| "bound_ok _ \<longleftrightarrow> True"

lemma setClient_defined: "spec_Clients (session_Spec session) \<noteq> None \<Longrightarrow> \<exists>session'. setClient cid b session = Some session'"
  by (auto simp: setClient_def nilmap_put_def)

lemma patched_answer:
  "\<exists>resp. fst (run_state (do { resp \<leftarrow> patchSession C session c p; ret (Some resp) }) h) = Some resp \<and>
     resp_Status resp \<in> {200, 404, 502}"
  using status_patchSession [of C session c p h] by (auto split: prod.splits)

lemma CreateClient_answers:
  assumes "stored_maps C"
  shows "\<exists>resp. fst (run_state (CreateClient C H sid bound) h) = Some resp \<and> resp_Status resp \<in> {200, 400, 404, 409, 502}"
proof (cases bound)
  case (Inl e)
  then show ?thesis by (simp add: CreateClient_def respond_def)
next
  case (Inr body)
  show ?thesis
  proof (cases "map_of (clusterClientMap H) (body_Cluster body)")
    case None
    with Inr show ?thesis by (simp add: CreateClient_def respond_def)
  next
    case c: (Some c)
    show ?thesis
    proof (cases "rest_Get C h c sid")
      case (Inl err)
      with Inr c show ?thesis by (simp add: CreateClient_def rest_defs respond_def)
    next
      case session: (Inr session)
      with assms obtain session' where set: "setClient (body_ClientId body) True session = Some session'"
        using setClient_defined unfolding stored_maps_def by blast
      from patched_answer [of C session' c None "h @ [RestGet c ''default'' sid]"] Inr c session set show ?thesis
        by (cases "map_of (entries (spec_Clients (session_Spec session))) (body_ClientId body)")
          (auto simp: CreateClient_def rest_defs respond_def)
    qed
  qed
qed

lemma UpdateClient_answers:
  assumes "stored_maps C" and ord: "permutes_keys ord" and "bound_ok (PatchClient sid cid bound)"
  shows "\<exists>resp. fst (run_state (UpdateClient C H ord sid cid bound) h) = Some resp \<and> resp_Status resp \<in> {200, 400, 404, 502}"
proof (cases bound)
  case (Inl e)
  then show ?thesis by (simp add: UpdateClient_def respond_def)
next
  case (Inr body)
  with assms(3) obtain b where b: "body_Connected body = Some b" by auto
  obtain r h1 where search: "run_state (findSessionByClientId C ord (clusterClientMap H) sid cid) h = (r, h1)" by force
  show ?thesis
  proof (cases r)
    case (Inl err)
    with search Inr status_searchFailed [of err] show ?thesis by (auto simp: UpdateClient_def)
  next
    case found: (Inr cs)
    obtain c session where cs: "cs = (c, session)" by force
    from found_client [OF ord search [unfolded found cs]] obtain h2 where "rest_Get C h2 c sid = Inr session"
      unfolding read_last_def by blast
    with assms(1) obtain session' where set: "setClient cid b session = Some session'"
      using setClient_defined unfolding stored_maps_def by blast
    from patched_answer [of C session' c None h1] Inr found cs search b set show ?thesis
      by (auto simp: UpdateClient_def)
  qed
qed

lemma read_status:
  "resp_Status (fst (run_state (GetSessions C H ord path) h)) \<in> {200, 502}"
  "resp_Status (fst (run_state (GetSessionHandler C H ord sid) h)) \<in> {200, 404, 502}"
  "resp_Status (fst (run_state (DeleteSession C H ord sid) h)) \<in> {200, 404, 502}"
  "resp_Status (fst (run_state (GetClients C H ord path sid) h)) \<in> {200, 404, 502}"
  "resp_Status (fst (run_state (GetClient C H ord sid cid) h)) \<in> {200, 404, 502}"
  "resp_Status (fst (run_state (GetPingServers C H ord) h)) = 200"
  using status_searchFailed
  by (auto simp: GetSessions_def GetSessionHandler_def DeleteSession_def GetClients_def GetClient_def
      GetPingServers_def respond_def sessions_List_def split: list.splits sum.splits prod.splits)

text \<open>
  C33. Every request is answered: when the stored sessions have a map of clients and the body of an
  update names the state of its client, no handler panics, and the answer has one of the statuses
  200, 201, 400, 404, 409 and 502.
\<close>

theorem every_request_answered:
  assumes "permutes_keys ord" and "stored_maps C" and "bound_ok req"
  shows "\<exists>resp. fst (run_state (serve C H ord u path req) h) = Some resp \<and>
    resp_Status resp \<in> {200, 201, 400, 404, 409, 502}"
proof -
  have always: "fst (run_state (do { resp \<leftarrow> act; ret (Some resp) }) h) = Some (fst (run_state act h))"
    for act :: "response rest" by (simp split: prod.splits)
  show ?thesis
  proof (cases req)
    case (PostSession b)
    with always [of "CreateSession C H ord u path b"] status_CreateSession [of C H ord u path b h] show ?thesis by (auto simp: serve_def)
  next
    case ListSessions
    with always [of "GetSessions C H ord path"] read_status(1) [of C H ord path h] show ?thesis by (auto simp: serve_def)
  next
    case (ReadSession sid)
    with always [of "GetSessionHandler C H ord sid"] read_status(2) [of C H ord sid h] show ?thesis by (auto simp: serve_def)
  next
    case (RemoveSession sid)
    with always [of "DeleteSession C H ord sid"] read_status(3) [of C H ord sid h] show ?thesis by (auto simp: serve_def)
  next
    case (ListClients sid)
    with always [of "GetClients C H ord path sid"] read_status(4) [of C H ord path sid h] show ?thesis by (auto simp: serve_def)
  next
    case (ReadClient sid cid)
    with always [of "GetClient C H ord sid cid"] read_status(5) [of C H ord sid cid h] show ?thesis by (auto simp: serve_def)
  next
    case (DropClient sid cid)
    with always [of "DeleteClient C H ord sid cid"] status_DeleteClient [of C H ord sid cid h] show ?thesis by (auto simp: serve_def)
  next
    case Ping
    with always [of "GetPingServers C H ord"] read_status(6) [of C H ord h] show ?thesis by (auto simp: serve_def)
  next
    case (PostClient sid b)
    with CreateClient_answers [OF assms(2), of H sid b h] show ?thesis by (auto simp: serve_def)
  next
    case (PatchClient sid cid b)
    with UpdateClient_answers [OF assms(2,1), of sid cid b H h] assms(3) show ?thesis by (auto simp: serve_def)
  qed
qed

lemma every_request_answered_witness:
  "\<exists>resp. fst (run_state (serve demo_clusters demo_handler visit ''0000'' ''/v1'' demo_update) []) = Some resp \<and>
    resp_Status resp \<in> {200, 201, 400, 404, 409, 502}"
proof -
  have "stored_maps demo_clusters"
    by (auto simp: stored_maps_def demo_clusters_def demo_sessions_def edge_session_def demo_session_def)
  then show ?thesis
    by (intro every_request_answered) (simp_all add: demo_update_def)
qed

section \<open>Configuration\<close>

text \<open>
  A configured handler knows every cluster once: the two maps have the same names, namely the contexts
  of the file and \<open>main\<close> when the manager runs inside a cluster; and then \<open>main\<close> is the client of that
  cluster, even if the file has a context of the same name.  The kinds of the session API are registered.
\<close>

theorem configured_clusters:
  assumes "permutes_keys ord" and "run_state (ConfigHandler L ord) h = (Inr H, h')" and "lib_Contexts L = Some contexts"
  shows "h' = h @ [AddKnownTypes session_GroupVersion sessionGroupKinds, AddToGroupVersion session_GroupVersion] \<and>
    dom (map_of (clusterClientMap H)) = dom (map_of (clusterClientsetMap H)) \<and>
    dom (map_of (clusterClientMap H)) = set contexts \<union> (if isl (lib_InClusterConfig L) then {} else {''main''}) \<and>
    (\<forall>cfg. lib_InClusterConfig L = Inr cfg \<longrightarrow>
       (\<exists>client. fst (NewForConfig L cfg) = Inr client \<and> map_of (clusterClientMap H) ''main'' = Some client))"
  using assms by (rule ConfigHandler_clusters)

definition demo_cfg :: "string \<Rightarrow> restConfig" where
  "demo_cfg name = \<lparr>cfg_Context = name, cfg_GroupVersion = None, cfg_APIPath = [], cfg_NegotiatedSerializer = [], cfg_UserAgent = []\<rparr>"

definition demo_library :: library where
  "demo_library = \<lparr>lib_Contexts = Some [''main'', ''edge''], lib_InClusterConfig = Inr (demo_cfg ''in-cluster''),
     lib_ClientConfig = (\<lambda>name. Inr (demo_cfg name)), lib_UnversionedRESTClientFor = (\<lambda>c. Inr (cfg_Context c)),
     lib_NewClientset = (\<lambda>c. Inr (cfg_Context c)), lib_CodecsWithoutConversion = ''json'', lib_DefaultUserAgent = ''agent'',
     lib_ReadFile = Inr [], lib_Unmarshal = (\<lambda>_. Inr [])\<rparr>"

definition demo_configured :: handler where
  "demo_configured = \<lparr>clusterClientsetMap = [(''main'', ''in-cluster''), (''edge'', ''edge'')],
     clusterClientMap = [(''main'', ''in-cluster''), (''edge'', ''edge'')], sessionTemplates = []\<rparr>"

lemma configured_clusters_witness:
  "dom (map_of (clusterClientMap demo_configured)) = {''main'', ''edge''} \<and>
   (\<exists>client. fst (NewForConfig demo_library (demo_cfg ''in-cluster'')) = Inr client \<and>
      map_of (clusterClientMap demo_configured) ''main'' = Some client)"
proof -
  have "run_state (ConfigHandler demo_library visit) [] = (Inr demo_configured,
      [AddKnownTypes session_GroupVersion sessionGroupKinds, AddToGroupVersion session_GroupVersion])" by code_simp
  moreover have lib: "lib_Contexts demo_library = Some [''main'', ''edge'']"
    "lib_InClusterConfig demo_library = Inr (demo_cfg ''in-cluster'')" by (simp_all add: demo_library_def)
  ultimately have clusters: "dom (map_of (clusterClientMap demo_configured)) =
      set [''main'', ''edge''] \<union> (if isl (lib_InClusterConfig demo_library) then {} else {''main''})"
    "\<exists>client. fst (NewForConfig demo_library (demo_cfg ''in-cluster'')) = Inr client \<and>
      map_of (clusterClientMap demo_configured) ''main'' = Some client"
    using configured_clusters [OF permutes_keys_id] by blast+
  have "set [''main'', ''edge''] \<union> (if isl (lib_InClusterConfig demo_library) then {} else {''main''}) = {''main'', ''edge''}"
    by (simp add: lib)
  with clusters show ?thesis by (simp only:)
qed

end
