(* ===== verification/Go_Memory.thy ===== *)
theory Go_Memory
  imports Go_Base "HOL-Library.State_Monad"
begin

text \<open>
  The memory of a Go program, for the code whose meaning depends on what is shared: cells with
  addresses, allocated one after the other, that hold arrays, maps and variables.  The type of the
  contents is a parameter.  A slice is an array with an offset, a length and a capacity.  The
  contract of a function that copies a value is the locale \<open>copier\<close>: the copy has the same value,
  nothing that existed before is changed, and everything the copy reaches is new.
\<close>

section \<open>Cells\<close>

record 'c memory =
  cells :: "nat \<Rightarrow> 'c option"
  limit :: nat

text \<open>The allocated addresses are those below the limit.\<close>

definition mem_ok :: "'c memory \<Rightarrow> bool" where
  "mem_ok m \<longleftrightarrow> dom (cells m) = {..<limit m}"

definition alloc :: "'c \<Rightarrow> ('c memory, nat) state" where
  "alloc c = State (\<lambda>m. (limit m, m\<lparr>cells := (cells m)(limit m \<mapsto> c), limit := Suc (limit m)\<rparr>))"

definition store :: "nat \<Rightarrow> 'c \<Rightarrow> ('c memory, unit) state" where
  "store a c = State (\<lambda>m. ((), m\<lparr>cells := (cells m)(a \<mapsto> c)\<rparr>))"

definition observe :: "('c memory \<Rightarrow> 'a) \<Rightarrow> ('c memory, 'a) state" where
  "observe f = State (\<lambda>m. (f m, m))"

lemma run_alloc [simp]:
  "run_state (alloc c) m = (limit m, m\<lparr>cells := (cells m)(limit m \<mapsto> c), limit := Suc (limit m)\<rparr>)"
  by (simp add: alloc_def)

lemma run_store [simp]: "run_state (store a c) m = ((), m\<lparr>cells := (cells m)(a \<mapsto> c)\<rparr>)"
  by (simp add: store_def)

lemma run_observe [simp]: "run_state (observe f) m = (f m, m)"
  by (simp add: observe_def)

text \<open>The memory has grown: what was allocated is still there, unchanged.\<close>

definition grows :: "'c memory \<Rightarrow> 'c memory \<Rightarrow> bool" where
  "grows m m' \<longleftrightarrow> limit m \<le> limit m' \<and> (\<forall>a < limit m. cells m' a = cells m a)"

lemma grows_refl [simp]: "grows m m"
  by (simp add: grows_def)

lemma grows_trans [trans]: "grows m1 m2 \<Longrightarrow> grows m2 m3 \<Longrightarrow> grows m1 m3"
  by (auto simp: grows_def)

lemma mem_ok_alloc: "mem_ok m \<Longrightarrow> mem_ok (m\<lparr>cells := (cells m)(limit m \<mapsto> c), limit := Suc (limit m)\<rparr>)"
  by (auto simp: mem_ok_def)

lemma grows_alloc: "grows m (m\<lparr>cells := (cells m)(limit m \<mapsto> c), limit := Suc (limit m)\<rparr>)"
  by (simp add: grows_def)

lemma mem_ok_store: "mem_ok m \<Longrightarrow> a < limit m \<Longrightarrow> mem_ok (m\<lparr>cells := (cells m)(a \<mapsto> c)\<rparr>)"
  by (auto simp: mem_ok_def)

lemma grows_store: "grows m m' \<Longrightarrow> limit m \<le> a \<Longrightarrow> grows m (m'\<lparr>cells := (cells m')(a \<mapsto> c)\<rparr>)"
  by (auto simp: grows_def)

section \<open>Contracts\<close>

text \<open>
  A kind of cell contents: a constructor of the contents and its partial inverse.
\<close>

locale cell_kind =
  fixes mk :: "'e \<Rightarrow> 'c" and get :: "'c \<Rightarrow> 'e option"
  assumes get_mk: "get c = Some e \<longleftrightarrow> c = mk e"

text \<open>
  What a type says of its values: which are well typed in a memory, the addresses they reach, and
  the value they stand for.  All three depend on the reached cells only.
\<close>

locale shape =
  fixes valid :: "'c memory \<Rightarrow> 'a \<Rightarrow> bool" and reach :: "'c memory \<Rightarrow> 'a \<Rightarrow> nat set"
    and val :: "'c memory \<Rightarrow> 'a \<Rightarrow> 'v"
  assumes allocated: "valid m x \<Longrightarrow> mem_ok m \<Longrightarrow> reach m x \<subseteq> {..<limit m}"
    and frame: "valid m x \<Longrightarrow> \<forall>a \<in> reach m x. cells m' a = cells m a \<Longrightarrow>
      valid m' x \<and> reach m' x = reach m x \<and> val m' x = val m x"
begin

lemma frame_grows:
  assumes "valid m x" and "mem_ok m" and "grows m m'"
  shows "valid m' x" "reach m' x = reach m x" "val m' x = val m x"
  using frame [of m x m'] allocated [OF assms(1,2)] assms unfolding grows_def by auto

end

definition copied_to :: "('c memory \<Rightarrow> 'a \<Rightarrow> bool) \<Rightarrow> ('c memory \<Rightarrow> 'a \<Rightarrow> nat set) \<Rightarrow> ('c memory \<Rightarrow> 'a \<Rightarrow> 'v)
    \<Rightarrow> 'c memory \<Rightarrow> 'a \<Rightarrow> 'a \<Rightarrow> 'c memory \<Rightarrow> bool" where
  "copied_to valid reach val m x y m' \<longleftrightarrow> mem_ok m' \<and> grows m m' \<and> valid m' y \<and> val m' y = val m x \<and>
     reach m' y \<subseteq> {limit m..<limit m'}"

locale copier = shape +
  fixes copy :: "'b \<Rightarrow> ('a memory, 'b) state"
  assumes copied: "mem_ok m \<Longrightarrow> valid m x \<Longrightarrow> run_state (copy x) m = (y, m') \<Longrightarrow>
    copied_to valid reach val m x y m'"
begin

lemma copy_ok:
  assumes "mem_ok m" and "valid m x" and "run_state (copy x) m = (y, m')"
  shows "mem_ok m'" "grows m m'" "valid m' y" "val m' y = val m x" "reach m' y \<subseteq> {limit m..<limit m'}"
  using copied [OF assms] by (simp_all add: copied_to_def)

text \<open>A write behind the copy leaves the original, a write behind the original leaves the copy.\<close>

lemma independent:
  assumes "mem_ok m" and "valid m x" and "run_state (copy x) m = (y, m')"
  shows "\<forall>a. a \<notin> reach m' y \<longrightarrow> cells m'' a = cells m' a \<Longrightarrow> valid m'' x \<and> val m'' x = val m x"
    and "\<forall>a. a \<notin> reach m' x \<longrightarrow> cells m'' a = cells m' a \<Longrightarrow> valid m'' y \<and> val m'' y = val m x"
proof -
  note c = copy_ok [OF assms]
  note x = frame_grows [OF assms(2,1) c(2)]
  have "reach m x \<subseteq> {..<limit m}" using allocated assms(1,2) by blast
  with x(2) c(5) have apart: "a \<notin> reach m' y" if "a \<in> reach m' x" for a using that by fastforce
  show "valid m'' x \<and> val m'' x = val m x" if "\<forall>a. a \<notin> reach m' y \<longrightarrow> cells m'' a = cells m' a"
    using frame [OF x(1), of m''] apart that x(3) by simp
  show "valid m'' y \<and> val m'' y = val m x" if "\<forall>a. a \<notin> reach m' x \<longrightarrow> cells m'' a = cells m' a"
    using frame [OF c(3), of m''] apart that c(4) by auto
qed

end

section \<open>Loops that fill a container\<close>

fun each :: "('k \<Rightarrow> ('s, unit) state) \<Rightarrow> 'k list \<Rightarrow> ('s, unit) state" where
  "each f [] = State_Monad.return ()"
| "each f (k # ks) = do { f k; each f ks }"

text \<open>The contents of the container at an address; the address of a well-typed reference has them.\<close>

definition contents :: "('c \<Rightarrow> 'e option) \<Rightarrow> 'e \<Rightarrow> 'c memory \<Rightarrow> nat \<Rightarrow> 'e" where
  "contents get none m a = (case Option.bind (cells m a) get of None \<Rightarrow> none | Some e \<Rightarrow> e)"

text \<open>What arrays and maps share: slots that a loop may fill.\<close>

locale slots =
  fixes lookup :: "'e \<Rightarrow> 'k \<Rightarrow> 'b option" and put :: "'k \<Rightarrow> 'b \<Rightarrow> 'e \<Rightarrow> 'e" and admits :: "'e \<Rightarrow> 'k \<Rightarrow> bool"
    and ok :: "'e \<Rightarrow> bool"
  assumes lookup_put: "admits e k \<Longrightarrow> lookup (put k v e) = (lookup e)(k \<mapsto> v)"
    and admits_put: "admits (put k v e) = admits e"
    and ok_put: "ok e \<Longrightarrow> ok (put k v e)"

interpretation arr: slots "\<lambda>xs i. if i < length xs then Some (xs ! i) else None" "\<lambda>i x xs. xs[i := x]"
    "\<lambda>xs i. i < length xs" "\<lambda>_. True"
  by unfold_locales (auto simp: fun_eq_iff nth_list_update)

interpretation gomap: slots map_of map_put "\<lambda>_ _. True" map_ok
  by unfold_locales auto

text \<open>The body: read the element, copy it, write the copy into the container at \<open>out\<close>.\<close>

definition copy_element :: "('e \<Rightarrow> 'c) \<Rightarrow> ('c \<Rightarrow> 'e option) \<Rightarrow> 'e \<Rightarrow> ('k \<Rightarrow> 'b \<Rightarrow> 'e \<Rightarrow> 'e) \<Rightarrow> ('b \<Rightarrow> ('c memory, 'b) state)
    \<Rightarrow> ('c memory \<Rightarrow> 'k \<Rightarrow> 'b) \<Rightarrow> nat \<Rightarrow> 'k \<Rightarrow> ('c memory, unit) state" where
  "copy_element mk get none put copy source out k = do {
     x \<leftarrow> observe (\<lambda>m. source m k);
     y \<leftarrow> copy x;
     e \<leftarrow> observe (\<lambda>m. contents get none m out);
     store out (mk (put k y e)) }"

locale copy_loop = copier valid reach val copy + cell_kind mk get + slots lookup put admits ok
  for valid :: "'c memory \<Rightarrow> 'b \<Rightarrow> bool" and reach :: "'c memory \<Rightarrow> 'b \<Rightarrow> nat set" and val :: "'c memory \<Rightarrow> 'b \<Rightarrow> 'v"
    and copy :: "'b \<Rightarrow> ('c memory, 'b) state" and mk :: "'e \<Rightarrow> 'c" and get :: "'c \<Rightarrow> 'e option"
    and lookup :: "'e \<Rightarrow> 'k \<Rightarrow> 'b option" and put :: "'k \<Rightarrow> 'b \<Rightarrow> 'e \<Rightarrow> 'e" and admits :: "'e \<Rightarrow> 'k \<Rightarrow> bool"
    and ok :: "'e \<Rightarrow> bool"
begin

text \<open>
  The state of the loop: \<open>out\<close> is new, the memory \<open>m0\<close> before it is unchanged, and every filled slot
  holds a copy, made behind \<open>out\<close>, of the element of the source.
\<close>

definition filled :: "'c memory \<Rightarrow> ('k \<Rightarrow> 'b) \<Rightarrow> nat \<Rightarrow> 'e \<Rightarrow> 'k set \<Rightarrow> 'e \<Rightarrow> 'c memory \<Rightarrow> bool" where
  "filled m0 src out e0 K e m \<longleftrightarrow> mem_ok m \<and> grows m0 m \<and> limit m0 \<le> out \<and> out < limit m \<and>
     cells m out = Some (mk e) \<and> admits e = admits e0 \<and> ok e \<and>
     (\<forall>k. k \<notin> K \<longrightarrow> lookup e k = lookup e0 k) \<and>
     (\<forall>k \<in> K. \<exists>y. lookup e k = Some y \<and> valid m y \<and> val m y = val m0 (src k) \<and>
        reach m y \<subseteq> {Suc out..<limit m})"

lemma contents_mk: "cells m a = Some (mk e) \<Longrightarrow> contents get none m a = e"
  using get_mk [of "mk e" e] by (simp add: contents_def)

lemma filled_step:
  assumes f: "filled m0 src out e0 K e m" and k: "admits e0 k" and src: "valid m0 (src k)" "mem_ok m0"
    and source: "\<And>m. grows m0 m \<Longrightarrow> source m k = src k"
  shows "\<exists>e'. filled m0 src out e0 (insert k K) e' (snd (run_state (copy_element mk get none put copy source out k) m))"
proof -
  obtain y m1 where y: "run_state (copy (src k)) m = (y, m1)" by force
  have m: "mem_ok m" "grows m0 m" "limit m0 \<le> out" "out < limit m" "cells m out = Some (mk e)" "admits e = admits e0" "ok e"
    using f unfolding filled_def by blast+
  note x = frame_grows [OF src m(2)]
  note c = copy_ok [OF m(1) x(1) y]
  have out: "cells m1 out = Some (mk e)" using c(2) m(4,5) by (simp add: grows_def)
  let ?m2 = "m1\<lparr>cells := (cells m1)(out \<mapsto> mk (put k y e))\<rparr>"
  have run: "snd (run_state (copy_element mk get none put copy source out k) m) = ?m2"
    by (simp add: copy_element_def source [OF m(2)] y contents_mk [OF out])
  have same: "valid ?m2 z \<and> reach ?m2 z = reach m1 z \<and> val ?m2 z = val m1 z"
    if "valid m1 z" "reach m1 z \<subseteq> {Suc out..<limit m1}" for z
    by (rule frame [OF that(1)]) (use that(2) in auto)
  have lim: "out < limit m1" "limit m \<le> limit m1" using c(2) m(4) by (auto simp: grows_def)
  have "\<exists>z. lookup (put k y e) j = Some z \<and> valid ?m2 z \<and> val ?m2 z = val m0 (src j) \<and>
      reach ?m2 z \<subseteq> {Suc out..<limit ?m2}" if j: "j \<in> insert k K" for j
  proof (cases "j = k")
    case True
    have "reach m1 y \<subseteq> {Suc out..<limit m1}" using c(5) m(4) by auto
    with same [OF c(3) this] c(4) x(3) True k m(6) show ?thesis by (simp add: lookup_put)
  next
    case False
    with j f obtain z where z: "lookup e j = Some z" "valid m z" "val m z = val m0 (src j)"
      "reach m z \<subseteq> {Suc out..<limit m}" unfolding filled_def by blast
    note z1 = frame_grows [OF z(2) m(1) c(2)]
    have "reach m1 z \<subseteq> {Suc out..<limit m1}" using z(4) z1(2) lim(2) by fastforce
    with same [OF z1(1) this] z z1 False k m(6) show ?thesis by (simp add: lookup_put)
  qed
  moreover have "\<forall>j. j \<notin> insert k K \<longrightarrow> lookup (put k y e) j = lookup e0 j"
    using f k m(6) by (simp add: filled_def lookup_put)
  moreover have "mem_ok ?m2" "grows m0 ?m2"
    using mem_ok_store [OF c(1) lim(1)] grows_store [OF grows_trans [OF m(2) c(2)] m(3)] by simp_all
  ultimately show ?thesis unfolding run filled_def
    by (intro exI [of _ "put k y e"]) (use m lim in \<open>simp add: admits_put ok_put\<close>)
qed

lemma filled_loop:
  assumes "filled m0 src out e0 K e m" and "\<forall>k \<in> set ks. admits e0 k \<and> valid m0 (src k)" and "mem_ok m0"
    and "\<And>m k. grows m0 m \<Longrightarrow> k \<in> set ks \<Longrightarrow> source m k = src k"
  shows "\<exists>e'. filled m0 src out e0 (K \<union> set ks) e' (snd (run_state (each (copy_element mk get none put copy source out) ks) m))"
  using assms
proof (induction ks arbitrary: K e m)
  case Nil
  then show ?case by auto
next
  case (Cons k ks)
  let ?m = "snd (run_state (copy_element mk get none put copy source out k) m)"
  from filled_step [OF Cons.prems(1), where k = k and source = source and none = none] Cons.prems(2-4) obtain e' where
    e': "filled m0 src out e0 (insert k K) e' ?m" by auto
  from Cons.IH [OF this] Cons.prems(2-4) show ?case by (simp add: split_def)
qed

text \<open>The whole loop, from a new container.\<close>

lemma copy_loop:
  assumes "mem_ok m0" and "\<forall>k \<in> set ks. admits e0 k \<and> valid m0 (src k)" and "ok e0"
    and "\<And>m k. grows m0 m \<Longrightarrow> k \<in> set ks \<Longrightarrow> source m k = src k"
  shows "\<exists>e'. filled m0 src (limit m0) e0 (set ks) e'
    (snd (run_state (do { out \<leftarrow> alloc (mk e0); each (copy_element mk get none put copy source out) ks }) m0))"
proof -
  let ?m = "m0\<lparr>cells := (cells m0)(limit m0 \<mapsto> mk e0), limit := Suc (limit m0)\<rparr>"
  have "filled m0 src (limit m0) e0 {} e0 ?m"
    using mem_ok_alloc [OF assms(1)] assms(3) by (simp add: filled_def grows_alloc)
  from filled_loop [OF this assms(2,1,4)] show ?thesis by simp
qed

end

end
