(* ===== verification/Go_Copy.thy ===== *)
theory Go_Copy
  imports Go_Memory
begin

text \<open>
  The statements from which a deep copy is made, each with its contract: the copy of a plain value, of
  the elements of a slice and of a map, the copy of a struct field by field, and \<open>new\<close> with a copy
  behind a pointer.
\<close>

section \<open>Slices\<close>

record slice =
  slice_Array :: nat
  slice_Off :: nat
  slice_Len :: nat
  slice_Cap :: nat

definition slice_items :: "('c \<Rightarrow> 'b list option) \<Rightarrow> 'c memory \<Rightarrow> slice \<Rightarrow> 'b list" where
  "slice_items get m s = take (slice_Len s) (drop (slice_Off s) (contents get [] m (slice_Array s)))"

text \<open>A slice is typed when its array is an array of the kind and long enough.\<close>

definition slice_typed :: "('c \<Rightarrow> 'b list option) \<Rightarrow> 'c memory \<Rightarrow> slice \<Rightarrow> bool" where
  "slice_typed get m s \<longleftrightarrow> Option.bind (cells m (slice_Array s)) get \<noteq> None \<and> slice_Len s \<le> slice_Cap s \<and>
     slice_Off s + slice_Cap s \<le> length (contents get [] m (slice_Array s))"

definition slice_valid :: "('c \<Rightarrow> 'b list option) \<Rightarrow> ('c memory \<Rightarrow> 'b \<Rightarrow> bool) \<Rightarrow> 'c memory \<Rightarrow> slice option \<Rightarrow> bool" where
  "slice_valid get valid m r \<longleftrightarrow> (case r of None \<Rightarrow> True
     | Some s \<Rightarrow> slice_typed get m s \<and> list_all (valid m) (slice_items get m s))"

definition slice_reach :: "('c \<Rightarrow> 'b list option) \<Rightarrow> ('c memory \<Rightarrow> 'b \<Rightarrow> nat set) \<Rightarrow> 'c memory \<Rightarrow> slice option \<Rightarrow> nat set" where
  "slice_reach get reach m r = (case r of None \<Rightarrow> {}
     | Some s \<Rightarrow> insert (slice_Array s) (\<Union>x \<in> set (slice_items get m s). reach m x))"

definition slice_val :: "('c \<Rightarrow> 'b list option) \<Rightarrow> ('c memory \<Rightarrow> 'b \<Rightarrow> 'v) \<Rightarrow> 'c memory \<Rightarrow> slice option \<Rightarrow> 'v list option" where
  "slice_val get val m r = map_option (\<lambda>s. map (val m) (slice_items get m s)) r"

text \<open>\<open>make\<close> and a loop over the indices.\<close>

definition copy_slice :: "('b list \<Rightarrow> 'c) \<Rightarrow> ('c \<Rightarrow> 'b list option) \<Rightarrow> 'b \<Rightarrow> ('b \<Rightarrow> ('c memory, 'b) state)
    \<Rightarrow> slice option \<Rightarrow> ('c memory, slice option) state" where
  "copy_slice mk get zero copy r = (case r of
     None \<Rightarrow> State_Monad.return None
   | Some s \<Rightarrow> do {
       out \<leftarrow> alloc (mk (replicate (slice_Len s) zero));
       each (copy_element mk get [] (\<lambda>i x xs. xs[i := x]) copy (\<lambda>m i. slice_items get m s ! i) out)
         [0..<slice_Len s];
       State_Monad.return (Some \<lparr>slice_Array = out, slice_Off = 0, slice_Len = slice_Len s, slice_Cap = slice_Len s\<rparr>) })"

text \<open>\<open>make\<close> and the built-in function \<open>copy\<close>, for elements without references.\<close>

definition builtin_copy :: "('b list \<Rightarrow> 'c) \<Rightarrow> ('c \<Rightarrow> 'b list option) \<Rightarrow> slice \<Rightarrow> slice \<Rightarrow> ('c memory, unit) state" where
  "builtin_copy mk get dst src = do {
     xs \<leftarrow> observe (\<lambda>m. take (slice_Len dst) (slice_items get m src));
     ys \<leftarrow> observe (\<lambda>m. contents get [] m (slice_Array dst));
     store (slice_Array dst) (mk (take (slice_Off dst) ys @ xs @ drop (slice_Off dst + length xs) ys)) }"

definition copy_plain_slice :: "('b list \<Rightarrow> 'c) \<Rightarrow> ('c \<Rightarrow> 'b list option) \<Rightarrow> 'b
    \<Rightarrow> slice option \<Rightarrow> ('c memory, slice option) state" where
  "copy_plain_slice mk get zero r = (case r of
     None \<Rightarrow> State_Monad.return None
   | Some s \<Rightarrow> do {
       out \<leftarrow> alloc (mk (replicate (slice_Len s) zero));
       let dst = \<lparr>slice_Array = out, slice_Off = 0, slice_Len = slice_Len s, slice_Cap = slice_Len s\<rparr>;
       builtin_copy mk get dst s;
       State_Monad.return (Some dst) })"

lemma bind_contents: "Option.bind (cells m a) get = Some e \<Longrightarrow> contents get none m a = e"
  by (simp add: contents_def)

lemma bind_allocated: "Option.bind (cells m a) get \<noteq> None \<Longrightarrow> mem_ok m \<Longrightarrow> a < limit m"
  by (cases "cells m a") (auto simp: mem_ok_def)

lemma typed_allocated: "slice_typed get m s \<Longrightarrow> mem_ok m \<Longrightarrow> slice_Array s < limit m"
  using bind_allocated [of m "slice_Array s" get] by (simp add: slice_typed_def)

lemma slice_shape:
  fixes valid :: "'c memory \<Rightarrow> 'b \<Rightarrow> bool"
  assumes "shape valid reach val"
  shows "shape (slice_valid get valid) (slice_reach get reach) (slice_val get val)"
proof
  fix m r
  assume v: "slice_valid get valid m r" and ok: "mem_ok m"
  show "slice_reach get reach m r \<subseteq> {..<limit m}"
  proof (cases r)
    case (Some s)
    with v ok have "slice_Array s < limit m"
      using typed_allocated by (auto simp: slice_valid_def)
    moreover have "reach m x \<subseteq> {..<limit m}" if "x \<in> set (slice_items get m s)" for x
      using shape.allocated [OF assms _ ok] v that Some by (simp add: slice_valid_def list_all_iff)
    ultimately show ?thesis using Some by (auto simp: slice_reach_def)
  qed (simp add: slice_reach_def)
next
  fix m r and m' :: "'c memory"
  assume v: "slice_valid get valid m r" and same: "\<forall>a \<in> slice_reach get reach m r. cells m' a = cells m a"
  show "slice_valid get valid m' r \<and> slice_reach get reach m' r = slice_reach get reach m r \<and>
      slice_val get val m' r = slice_val get val m r"
  proof (cases r)
    case (Some s)
    with same have "cells m' (slice_Array s) = cells m (slice_Array s)" by (simp add: slice_reach_def)
    then have items: "contents get [] m' (slice_Array s) = contents get [] m (slice_Array s)"
        "slice_items get m' s = slice_items get m s" "slice_typed get m' s = slice_typed get m s"
      by (simp_all add: contents_def slice_items_def slice_typed_def)
    have "valid m' x \<and> reach m' x = reach m x \<and> val m' x = val m x" if "x \<in> set (slice_items get m s)" for x
      using shape.frame [OF assms, of m x m'] v same that Some
      by (simp add: slice_valid_def slice_reach_def list_all_iff)
    then show ?thesis using v Some items
      by (simp add: slice_valid_def slice_reach_def slice_val_def list_all_iff)
  qed (simp_all add: slice_valid_def slice_reach_def slice_val_def)
qed

text \<open>A slice over the whole of a new array.\<close>

lemma whole_slice_items:
  "cells m a = Some (mk xs) \<Longrightarrow> cell_kind mk get \<Longrightarrow>
    slice_items get m \<lparr>slice_Array = a, slice_Off = 0, slice_Len = length xs, slice_Cap = length xs\<rparr> = xs"
  "cells m a = Some (mk xs) \<Longrightarrow> cell_kind mk get \<Longrightarrow>
    slice_typed get m \<lparr>slice_Array = a, slice_Off = 0, slice_Len = length xs, slice_Cap = length xs\<rparr>"
  using cell_kind.get_mk [of mk get "mk xs" xs]
  by (simp_all add: slice_items_def slice_typed_def contents_def)

lemma filled_slice_copied:
  assumes loop: "copy_loop valid reach val copy mk get (\<lambda>xs i. if i < length xs then Some (xs ! i) else None)
      (\<lambda>i x xs. xs[i := x]) (\<lambda>xs i. i < length xs) (\<lambda>_. True)" and kind: "cell_kind mk get"
    and f: "copy_loop.filled valid reach val mk (\<lambda>xs i. if i < length xs then Some (xs ! i) else None)
      (\<lambda>xs i. i < length xs) (\<lambda>_. True) m ((!) (slice_items get m s)) (limit m) (replicate (slice_Len s) zero)
      (set [0..<slice_Len s]) ys m'"
    and len: "length (slice_items get m s) = slice_Len s"
  shows "copied_to (slice_valid get valid) (slice_reach get reach) (slice_val get val) m (Some s)
    (Some \<lparr>slice_Array = limit m, slice_Off = 0, slice_Len = slice_Len s, slice_Cap = slice_Len s\<rparr>) m'"
proof -
  note f' = f [unfolded copy_loop.filled_def [OF loop]]
  have ys: "length ys = slice_Len s" using f' by (metis length_replicate linorder_neqE_nat order_less_irrefl)
  have elems: "valid m' (ys ! i) \<and> val m' (ys ! i) = val m (slice_items get m s ! i) \<and> reach m' (ys ! i) \<subseteq> {Suc (limit m)..<limit m'}"
    if "i < slice_Len s" for i
    using f' that ys by fastforce
  have cell: "cells m' (limit m) = Some (mk ys)" using f' by blast
  have it: "slice_items get m' \<lparr>slice_Array = limit m, slice_Off = 0, slice_Len = slice_Len s, slice_Cap = slice_Len s\<rparr> = ys"
      "slice_typed get m' \<lparr>slice_Array = limit m, slice_Off = 0, slice_Len = slice_Len s, slice_Cap = slice_Len s\<rparr>"
    using whole_slice_items [OF cell kind] ys by simp_all
  have "list_all (valid m') ys" using elems ys by (simp add: list_all_length)
  moreover have "map (val m') ys = map (val m) (slice_items get m s)" using elems ys len by (simp add: list_eq_iff_nth_eq)
  moreover have "(\<Union>y \<in> set ys. reach m' y) \<subseteq> {Suc (limit m)..<limit m'}"
    using elems ys by (fastforce simp: in_set_conv_nth)
  moreover have "limit m < limit m'" using f' by blast
  ultimately show ?thesis using f' it
    by (fastforce simp: copied_to_def slice_valid_def slice_reach_def slice_val_def)
qed

lemma copy_slice_copier:
  assumes elem: "copier valid reach val copy" and kind: "cell_kind mk get"
  shows "copier (slice_valid get valid) (slice_reach get reach) (slice_val get val) (copy_slice mk get zero copy)"
proof -
  have shape: "shape valid reach val" using elem by (simp add: copier_def)
  have loop: "copy_loop valid reach val copy mk get (\<lambda>xs i. if i < length xs then Some (xs ! i) else None)
      (\<lambda>i x xs. xs[i := x]) (\<lambda>xs i. i < length xs) (\<lambda>_. True)"
    using elem kind arr.slots_axioms by (simp add: copy_loop_def)
  have "copied_to (slice_valid get valid) (slice_reach get reach) (slice_val get val) m r q m'"
    if m: "mem_ok m" and v: "slice_valid get valid m r" and run: "run_state (copy_slice mk get zero copy r) m = (q, m')"
    for m r q m'
  proof (cases r)
    case None
    with m run show ?thesis by (simp add: copy_slice_def copied_to_def slice_valid_def slice_reach_def slice_val_def)
  next
    case (Some s)
    let ?n = "slice_Len s" and ?xs = "slice_items get m s"
    have typed: "slice_typed get m s" and items: "\<forall>x \<in> set ?xs. valid m x"
      using v Some by (simp_all add: slice_valid_def list_all_iff)
    have len: "length ?xs = ?n" using typed by (auto simp: slice_items_def slice_typed_def)
    have a: "slice_Array s < limit m" using typed_allocated [OF typed m] by simp
    have source: "slice_items get m1 s = ?xs" if "grows m m1" for m1
      using that a by (simp add: slice_items_def contents_def grows_def)
    have "\<forall>i \<in> set [0..<?n]. i < length (replicate ?n zero) \<and> valid m (?xs ! i)" using items len by simp
    note copied = copy_loop.copy_loop [OF loop m this, where source = "\<lambda>m i. slice_items get m s ! i" and none = "[]"]
    have "\<exists>ys. copy_loop.filled valid reach val mk (\<lambda>xs i. if i < length xs then Some (xs ! i) else None)
        (\<lambda>xs i. i < length xs) (\<lambda>_. True) m ((!) ?xs) (limit m) (replicate ?n zero) (set [0..<?n]) ys
        (snd (run_state (do { out \<leftarrow> alloc (mk (replicate ?n zero));
           each (copy_element mk get [] (\<lambda>i x xs. xs[i := x]) copy (\<lambda>m i. slice_items get m s ! i) out) [0..<?n] }) m))"
      by (rule copied) (simp, drule source, simp)
    then obtain ys where f: "copy_loop.filled valid reach val mk (\<lambda>xs i. if i < length xs then Some (xs ! i) else None)
        (\<lambda>xs i. i < length xs) (\<lambda>_. True) m ((!) ?xs) (limit m) (replicate ?n zero) (set [0..<?n]) ys
        (snd (run_state (do { out \<leftarrow> alloc (mk (replicate ?n zero));
           each (copy_element mk get [] (\<lambda>i x xs. xs[i := x]) copy (\<lambda>m i. slice_items get m s ! i) out) [0..<?n] }) m))" ..
    have q: "q = Some \<lparr>slice_Array = limit m, slice_Off = 0, slice_Len = ?n, slice_Cap = ?n\<rparr>"
      and m': "m' = snd (run_state (do { out \<leftarrow> alloc (mk (replicate ?n zero));
           each (copy_element mk get [] (\<lambda>i x xs. xs[i := x]) copy (\<lambda>m i. slice_items get m s ! i) out) [0..<?n] }) m)"
      using run Some by (auto simp: copy_slice_def split: prod.splits)
    from filled_slice_copied [OF loop kind f [folded m'] len] show ?thesis by (simp add: q Some)
  qed
  then show ?thesis using slice_shape [OF shape] by (simp add: copier_def copier_axioms_def)
qed

text \<open>The elements of a plain slice have no references.\<close>

definition plain_valid :: "'c memory \<Rightarrow> 'a \<Rightarrow> bool" where "plain_valid m x = True"

definition plain_reach :: "'c memory \<Rightarrow> 'a \<Rightarrow> nat set" where "plain_reach m x = {}"

definition plain_val :: "'c memory \<Rightarrow> 'a \<Rightarrow> 'a" where "plain_val m x = x"

lemmas plain_defs = plain_valid_def plain_reach_def plain_val_def

interpretation plain: copier plain_valid plain_reach plain_val State_Monad.return
  by unfold_locales (auto simp: plain_defs copied_to_def)

lemma copy_plain_slice_copier:
  assumes kind: "cell_kind mk get"
  shows "copier (slice_valid get plain_valid) (slice_reach get plain_reach) (slice_val get plain_val)
    (copy_plain_slice mk get zero)"
proof -
  have "copied_to (slice_valid get plain_valid) (slice_reach get plain_reach) (slice_val get plain_val) m r q m'"
    if m: "mem_ok m" and v: "slice_valid get plain_valid m r" and run: "run_state (copy_plain_slice mk get zero r) m = (q, m')"
    for m r q m'
  proof (cases r)
    case None
    with m run show ?thesis
      by (simp add: copy_plain_slice_def copied_to_def slice_valid_def slice_reach_def slice_val_def)
  next
    case (Some s)
    let ?n = "slice_Len s" and ?xs = "slice_items get m s"
    have typed: "slice_typed get m s" using v Some by (simp add: slice_valid_def)
    have len: "length ?xs = ?n" using typed by (auto simp: slice_items_def slice_typed_def)
    have a: "slice_Array s \<noteq> limit m" using typed_allocated [OF typed m] by simp
    let ?m = "m\<lparr>cells := (cells m)(limit m \<mapsto> mk ?xs), limit := Suc (limit m)\<rparr>"
    have m': "m' = ?m" and q: "q = Some \<lparr>slice_Array = limit m, slice_Off = 0, slice_Len = ?n, slice_Cap = ?n\<rparr>"
      using run Some a len cell_kind.get_mk [OF kind, of "mk (replicate ?n zero)" "replicate ?n zero"]
      by (auto simp: copy_plain_slice_def builtin_copy_def Let_def slice_items_def contents_def)
    have cell: "cells ?m (limit m) = Some (mk ?xs)" by simp
    note it = whole_slice_items [OF cell kind, unfolded len]
    have "mem_ok m'" "grows m m'" unfolding m' by (rule mem_ok_alloc [OF m], rule grows_alloc)
    with it show ?thesis
      by (simp add: Some q m' copied_to_def slice_valid_def slice_reach_def slice_val_def plain_defs list_all_iff)
  qed
  moreover have "shape plain_valid plain_reach plain_val" by unfold_locales
  ultimately show ?thesis using slice_shape by (simp add: copier_def copier_axioms_def)
qed

section \<open>Maps\<close>

definition map_valid :: "('c \<Rightarrow> ('k, 'b) gomap option) \<Rightarrow> ('c memory \<Rightarrow> 'b \<Rightarrow> bool) \<Rightarrow> 'c memory \<Rightarrow> nat option \<Rightarrow> bool" where
  "map_valid get valid m r \<longleftrightarrow> (case r of None \<Rightarrow> True
     | Some a \<Rightarrow> Option.bind (cells m a) get \<noteq> None \<and> map_ok (contents get [] m a) \<and>
         list_all (valid m) (map snd (contents get [] m a)))"

definition map_reach :: "('c \<Rightarrow> ('k, 'b) gomap option) \<Rightarrow> ('c memory \<Rightarrow> 'b \<Rightarrow> nat set) \<Rightarrow> 'c memory \<Rightarrow> nat option \<Rightarrow> nat set" where
  "map_reach get reach m r = (case r of None \<Rightarrow> {}
     | Some a \<Rightarrow> insert a (\<Union>x \<in> snd ` set (contents get [] m a). reach m x))"

definition map_val :: "('c \<Rightarrow> ('k, 'b) gomap option) \<Rightarrow> ('c memory \<Rightarrow> 'b \<Rightarrow> 'v) \<Rightarrow> 'c memory \<Rightarrow> nat option
    \<Rightarrow> ('k \<Rightarrow> 'v option) option" where
  "map_val get val m r = map_option (\<lambda>a k. map_option (val m) (map_of (contents get [] m a) k)) r"

text \<open>
  \<open>make\<close> and a loop over the keys.  The order of the visit may be another one at every run of the loop:
  it depends on the number of cells, which grows.
\<close>

definition copy_map :: "(('k, 'b) gomap \<Rightarrow> 'c) \<Rightarrow> ('c \<Rightarrow> ('k, 'b) gomap option) \<Rightarrow> 'b
    \<Rightarrow> ('b \<Rightarrow> ('c memory, 'b) state) \<Rightarrow> (nat \<Rightarrow> 'k list \<Rightarrow> 'k list) \<Rightarrow> nat option \<Rightarrow> ('c memory, nat option) state" where
  "copy_map mk get zero copy visit r = (case r of
     None \<Rightarrow> State_Monad.return None
   | Some a \<Rightarrow> do {
       out \<leftarrow> alloc (mk []);
       keys \<leftarrow> observe (\<lambda>m. visit (limit m) (map_keys (contents get [] m a)));
       each (copy_element mk get [] map_put copy (\<lambda>m. map_get_zero zero (contents get [] m a)) out) keys;
       State_Monad.return (Some out) })"

lemma map_shape:
  fixes valid :: "'c memory \<Rightarrow> 'b \<Rightarrow> bool"
  assumes "shape valid reach val"
  shows "shape (map_valid get valid) (map_reach get reach) (map_val get val)"
proof
  fix m r
  assume v: "map_valid get valid m r" and ok: "mem_ok m"
  show "map_reach get reach m r \<subseteq> {..<limit m}"
  proof (cases r)
    case (Some a)
    have "a < limit m" using v Some ok bind_allocated [of m a get] by (simp add: map_valid_def)
    moreover have "reach m x \<subseteq> {..<limit m}" if "x \<in> snd ` set (contents get [] m a)" for x
      using shape.allocated [OF assms _ ok, of x] v that Some by (auto simp: map_valid_def list_all_iff)
    ultimately show ?thesis using Some by (auto simp: map_reach_def)
  qed (simp add: map_reach_def)
next
  fix m r and m' :: "'c memory"
  assume v: "map_valid get valid m r" and same: "\<forall>a \<in> map_reach get reach m r. cells m' a = cells m a"
  show "map_valid get valid m' r \<and> map_reach get reach m' r = map_reach get reach m r \<and>
      map_val get val m' r = map_val get val m r"
  proof (cases r)
    case (Some a)
    with same have cell: "cells m' a = cells m a" by (simp add: map_reach_def)
    then have items: "contents get [] m' a = contents get [] m a" by (simp add: contents_def)
    have elem: "valid m' x \<and> reach m' x = reach m x \<and> val m' x = val m x"
      if "x \<in> snd ` set (contents get [] m a)" for x
    proof (rule shape.frame [OF assms])
      show "valid m x" using v that Some by (auto simp: map_valid_def list_all_iff)
      show "\<forall>a \<in> reach m x. cells m' a = cells m a" using same that Some by (auto simp: map_reach_def)
    qed
    have "map_option (val m') (map_of (contents get [] m a) k) = map_option (val m) (map_of (contents get [] m a) k)" for k
      using elem by (cases "map_of (contents get [] m a) k") (force dest: map_of_SomeD)+
    then show ?thesis using v Some items cell elem
      by (simp add: map_valid_def map_reach_def map_val_def list_all_iff)
  qed (simp_all add: map_valid_def map_reach_def map_val_def)
qed

lemma filled_map_copied:
  fixes valid :: "'c memory \<Rightarrow> 'b \<Rightarrow> bool"
  assumes loop: "copy_loop valid reach val copy mk get map_of map_put (\<lambda>_ _. True) map_ok" and kind: "cell_kind mk get"
    and f: "copy_loop.filled valid reach val mk map_of (\<lambda>_ _. True) map_ok m (map_get_zero zero g)
      (limit m) [] (dom (map_of g)) e m'"
    and r: "contents get [] m a = g"
  shows "copied_to (map_valid get valid) (map_reach get reach) (map_val get val) m (Some a) (Some (limit m)) m'"
proof -
  have src: "map_get_zero zero g k = x" if "map_of g k = Some x" for k x using that by simp
  note f' = f [unfolded copy_loop.filled_def [OF loop]]
  have e: "contents get [] m' (limit m) = e" "Option.bind (cells m' (limit m)) get = Some e"
    using f' cell_kind.get_mk [OF kind, of "mk e" e] by (simp_all add: contents_def)
  have entry: "(\<exists>y. map_of e k = Some y \<and> valid m' y \<and> val m' y = val m x \<and> reach m' y \<subseteq> {Suc (limit m)..<limit m'})"
    if "map_of g k = Some x" for k x
    using f' that src by (metis domI)
  have absent: "map_of e k = None" if "map_of g k = None" for k using f' that by auto
  have copied: "valid m' y \<and> reach m' y \<subseteq> {Suc (limit m)..<limit m'}" if "y \<in> snd ` set e" for y
  proof -
    from that f' obtain k where k: "map_of e k = Some y" using map_of_Some_in_set by fastforce
    then obtain x where "map_of g k = Some x" using absent by (cases "map_of g k") auto
    with entry k show ?thesis by force
  qed
  have vals: "map_option (val m') (map_of e k) = map_option (val m) (map_of g k)" for k
    using entry absent by (cases "map_of g k") force+
  have lim: "limit m < limit m'" "mem_ok m'" "grows m m'" "map_ok e" using f' by blast+
  have "list_all (valid m') (map snd e)" using copied by (auto simp: list_all_iff)
  then have "map_valid get valid m' (Some (limit m))" using e lim(4) by (simp add: map_valid_def)
  moreover have "map_reach get reach m' (Some (limit m)) \<subseteq> {limit m..<limit m'}"
    using copied lim(1) by (fastforce simp: map_reach_def e(1))
  moreover have "map_val get val m' (Some (limit m)) = map_val get val m (Some a)" by (simp add: map_val_def r e(1) vals)
  ultimately show ?thesis using lim by (simp add: copied_to_def)
qed

lemma copy_map_copier:
  fixes valid :: "'c memory \<Rightarrow> 'b \<Rightarrow> bool"
  assumes elem: "copier valid reach val copy" and kind: "cell_kind mk get"
    and visit: "\<And>n ks. mset (visit n ks) = mset ks"
  shows "copier (map_valid get valid) (map_reach get reach) (map_val get val) (copy_map mk get zero copy visit)"
proof -
  have shape: "shape valid reach val" using elem by (simp add: copier_def)
  have loop: "copy_loop valid reach val copy mk get map_of map_put (\<lambda>_ _. True) map_ok"
    using elem kind gomap.slots_axioms by (simp add: copy_loop_def)
  have "copied_to (map_valid get valid) (map_reach get reach) (map_val get val) m r q m'"
    if m: "mem_ok m" and v: "map_valid get valid m r" and run: "run_state (copy_map mk get zero copy visit r) m = (q, m')"
    for m r q m'
  proof (cases r)
    case None
    with m run show ?thesis by (simp add: copy_map_def copied_to_def map_valid_def map_reach_def map_val_def)
  next
    case (Some a)
    let ?g = "contents get [] m a"
    let ?ks = "visit (Suc (limit m)) (map_keys ?g)"
    let ?fill = "do { out \<leftarrow> alloc (mk []);
      each (copy_element mk get [] map_put copy (\<lambda>m. map_get_zero zero (contents get [] m a)) out) ?ks }"
    have g: "map_ok ?g" "Option.bind (cells m a) get \<noteq> None" and items: "\<forall>(k, x) \<in> set ?g. valid m x"
      using v Some by (auto simp: map_valid_def list_all_iff)
    have a: "a < limit m" using bind_allocated [OF g(2) m] .
    have ks: "set ?ks = dom (map_of ?g)" using visit mset_eq_setD set_map_keys by metis
    have source: "contents get [] m1 a = ?g" if "grows m m1" for m1
      using that a by (simp add: contents_def grows_def)
    have src: "map_get_zero zero ?g k = x" if "map_of ?g k = Some x" for k x using that by simp
    have "\<forall>k \<in> set ?ks. True \<and> valid m (map_get_zero zero ?g k)"
      using ks items src by (fastforce dest: map_of_SomeD)
    note copied = copy_loop.copy_loop [OF loop m this, where none = "[]"]
    have "\<exists>e. copy_loop.filled valid reach val mk map_of (\<lambda>_ _. True) map_ok m (map_get_zero zero ?g)
        (limit m) [] (set ?ks) e (snd (run_state ?fill m))"
      by (rule copied) (simp, drule source, simp)
    then obtain e where f: "copy_loop.filled valid reach val mk map_of (\<lambda>_ _. True) map_ok m (map_get_zero zero ?g)
        (limit m) [] (set ?ks) e (snd (run_state ?fill m))" ..
    have "contents get [] (m\<lparr>cells := (cells m)(limit m \<mapsto> mk []), limit := Suc (limit m)\<rparr>) a = ?g"
      using source [OF grows_alloc] .
    then have m': "m' = snd (run_state ?fill m)" and q: "q = Some (limit m)"
      using run Some by (auto simp: copy_map_def split: prod.splits)
    from filled_map_copied [OF loop kind f [folded m', unfolded ks] refl] show ?thesis by (simp add: q Some)
  qed
  then show ?thesis using map_shape [OF shape] by (simp add: copier_def copier_axioms_def)
qed

section \<open>Structs\<close>

text \<open>The fields of a struct are copied one after the other.\<close>

definition copy_pair :: "('a \<Rightarrow> ('s, 'a) state) \<Rightarrow> ('b \<Rightarrow> ('s, 'b) state) \<Rightarrow> 'a \<times> 'b \<Rightarrow> ('s, 'a \<times> 'b) state" where
  "copy_pair f g = (\<lambda>(x, y). do { x' \<leftarrow> f x; y' \<leftarrow> g y; State_Monad.return (x', y') })"

definition pair_valid where "pair_valid v w m = (\<lambda>(x, y). v m x \<and> w m y)"
definition pair_reach where "pair_reach r s m = (\<lambda>(x, y). r m x \<union> s m y)"
definition pair_val where "pair_val f g m = (\<lambda>(x, y). (f m x, g m y))"

lemma copier_pair:
  fixes valid1 :: "'c memory \<Rightarrow> 'a \<Rightarrow> bool" and valid2 :: "'c memory \<Rightarrow> 'b \<Rightarrow> bool"
  assumes c1: "copier valid1 reach1 val1 copy1" and c2: "copier valid2 reach2 val2 copy2"
  shows "copier (pair_valid valid1 valid2) (pair_reach reach1 reach2) (pair_val val1 val2) (copy_pair copy1 copy2)"
proof -
  have s1: "shape valid1 reach1 val1" and s2: "shape valid2 reach2 val2" using assms by (simp_all add: copier_def)
  have "shape (pair_valid valid1 valid2) (pair_reach reach1 reach2) (pair_val val1 val2)"
  proof
    fix m x and m' :: "'c memory"
    assume v: "pair_valid valid1 valid2 m x"
    { assume "mem_ok m"
      then show "pair_reach reach1 reach2 m x \<subseteq> {..<limit m}"
        using v shape.allocated [OF s1] shape.allocated [OF s2]
        by (fastforce simp: pair_valid_def pair_reach_def split: prod.splits) }
    { assume "\<forall>a \<in> pair_reach reach1 reach2 m x. cells m' a = cells m a"
      then show "pair_valid valid1 valid2 m' x \<and> pair_reach reach1 reach2 m' x = pair_reach reach1 reach2 m x \<and>
          pair_val val1 val2 m' x = pair_val val1 val2 m x"
        using v shape.frame [OF s1, of m "fst x" m'] shape.frame [OF s2, of m "snd x" m']
        by (simp add: pair_valid_def pair_reach_def pair_val_def ball_Un split: prod.splits) }
  qed
  moreover have "copied_to (pair_valid valid1 valid2) (pair_reach reach1 reach2) (pair_val val1 val2) m x y m'"
    if m: "mem_ok m" and v: "pair_valid valid1 valid2 m x" and run: "run_state (copy_pair copy1 copy2 x) m = (y, m')"
    for m x y m'
  proof -
    obtain x1 x2 where x: "x = (x1, x2)" by force
    obtain y1 m1 where r1: "run_state (copy1 x1) m = (y1, m1)" by force
    obtain y2 m2 where r2: "run_state (copy2 x2) m1 = (y2, m2)" by force
    have y: "y = (y1, y2)" "m' = m2" using run r1 r2 by (simp_all add: copy_pair_def x)
    have v12: "valid1 m x1" "valid2 m x2" using v by (simp_all add: pair_valid_def x)
    note k1 = copier.copy_ok [OF c1 m v12(1) r1]
    note x2 = shape.frame_grows [OF s2 v12(2) m k1(2)]
    note k2 = copier.copy_ok [OF c2 k1(1) x2(1) r2]
    note y1 = shape.frame_grows [OF s1 k1(3,1) k2(2)]
    have "limit m \<le> limit m1" "limit m1 \<le> limit m2" using k1(2) k2(2) by (simp_all add: grows_def)
    then have "reach1 m2 y1 \<union> reach2 m2 y2 \<subseteq> {limit m..<limit m2}" using k1(5) k2(5) y1(2) by fastforce
    then show ?thesis using k1 k2 y1 x2 grows_trans [OF k1(2) k2(2)]
      by (simp add: copied_to_def pair_valid_def pair_reach_def pair_val_def x y)
  qed
  ultimately show ?thesis by (simp add: copier_def copier_axioms_def)
qed

lemma copier_struct:
  fixes valid :: "'c memory \<Rightarrow> 'a \<Rightarrow> bool"
  assumes c: "copier valid reach val copy"
    and into: "\<And>x. into x = do { y \<leftarrow> copy (parts x); State_Monad.return (struct x y) }"
    and parts: "\<And>x y. parts (struct x y) = y"
  shows "copier (\<lambda>m x. valid m (parts x)) (\<lambda>m x. reach m (parts x)) (\<lambda>m x. val m (parts x)) into"
proof -
  have s: "shape valid reach val" using c by (simp add: copier_def)
  have "shape (\<lambda>m x. valid m (parts x)) (\<lambda>m x. reach m (parts x)) (\<lambda>m x. val m (parts x))"
    by (rule shape.intro) (rule shape.allocated [OF s], assumption+, rule shape.frame [OF s], assumption+)
  moreover have "copied_to (\<lambda>m x. valid m (parts x)) (\<lambda>m x. reach m (parts x)) (\<lambda>m x. val m (parts x)) m x y m'"
    if "mem_ok m" "valid m (parts x)" "run_state (into x) m = (y, m')" for m x y m'
  proof -
    obtain z m1 where z: "run_state (copy (parts x)) m = (z, m1)" by force
    with that(3) have "y = struct x z" "m' = m1" by (simp_all add: into)
    with copier.copied [OF c that(1,2) z] show ?thesis by (simp add: copied_to_def parts)
  qed
  ultimately show ?thesis by (simp add: copier_def copier_axioms_def)
qed

section \<open>Pointers\<close>

definition pointer_valid :: "('c \<Rightarrow> 'b option) \<Rightarrow> ('c memory \<Rightarrow> 'b \<Rightarrow> bool) \<Rightarrow> 'c memory \<Rightarrow> nat option \<Rightarrow> bool" where
  "pointer_valid get valid m p \<longleftrightarrow> (case p of None \<Rightarrow> True
     | Some a \<Rightarrow> (case Option.bind (cells m a) get of None \<Rightarrow> False | Some x \<Rightarrow> valid m x))"

definition pointer_reach :: "('c \<Rightarrow> 'b option) \<Rightarrow> ('c memory \<Rightarrow> 'b \<Rightarrow> nat set) \<Rightarrow> 'c memory \<Rightarrow> nat option \<Rightarrow> nat set" where
  "pointer_reach get reach m p = (case p of None \<Rightarrow> {}
     | Some a \<Rightarrow> insert a (case Option.bind (cells m a) get of None \<Rightarrow> {} | Some x \<Rightarrow> reach m x))"

definition pointer_val :: "('c \<Rightarrow> 'b option) \<Rightarrow> ('c memory \<Rightarrow> 'b \<Rightarrow> 'v) \<Rightarrow> 'c memory \<Rightarrow> nat option \<Rightarrow> 'v option" where
  "pointer_val get val m p = Option.bind p (\<lambda>a. map_option (val m) (Option.bind (cells m a) get))"

text \<open>The method \<open>DeepCopy\<close> of a type: \<open>new\<close> and \<open>DeepCopyInto\<close>, unless the pointer is nil.\<close>

definition deep_copy :: "('b \<Rightarrow> 'c) \<Rightarrow> ('c \<Rightarrow> 'b option) \<Rightarrow> 'b \<Rightarrow> ('b \<Rightarrow> ('c memory, 'b) state)
    \<Rightarrow> nat option \<Rightarrow> ('c memory, nat option) state" where
  "deep_copy mk get zero into p = (case p of
     None \<Rightarrow> State_Monad.return None
   | Some a \<Rightarrow> do {
       out \<leftarrow> alloc (mk zero);
       x \<leftarrow> observe (\<lambda>m. contents get zero m a);
       y \<leftarrow> into x;
       store out (mk y);
       State_Monad.return (Some out) })"

lemma pointer_shape:
  fixes valid :: "'c memory \<Rightarrow> 'b \<Rightarrow> bool"
  assumes s: "shape valid reach val"
  shows "shape (pointer_valid get valid) (pointer_reach get reach) (pointer_val get val)"
proof
  fix m p and m' :: "'c memory"
  assume v: "pointer_valid get valid m p"
  { assume "mem_ok m"
    then show "pointer_reach get reach m p \<subseteq> {..<limit m}"
      using v shape.allocated [OF s] bind_allocated [of m "the p" get]
      by (fastforce simp: pointer_valid_def pointer_reach_def split: option.splits) }
  { assume same: "\<forall>a \<in> pointer_reach get reach m p. cells m' a = cells m a"
    show "pointer_valid get valid m' p \<and> pointer_reach get reach m' p = pointer_reach get reach m p \<and>
        pointer_val get val m' p = pointer_val get val m p"
    proof (cases p)
      case (Some a)
      with v obtain x where x: "Option.bind (cells m a) get = Some x" "valid m x"
        by (auto simp: pointer_valid_def split: option.splits)
      with same Some have "cells m' a = cells m a" "\<forall>a \<in> reach m x. cells m' a = cells m a"
        by (simp_all add: pointer_reach_def)
      with shape.frame [OF s x(2), of m'] x Some show ?thesis
        by (simp add: pointer_valid_def pointer_reach_def pointer_val_def)
    qed (simp_all add: pointer_valid_def pointer_reach_def pointer_val_def) }
qed

lemma copier_pointer:
  fixes valid :: "'c memory \<Rightarrow> 'b \<Rightarrow> bool"
  assumes c: "copier valid reach val into" and kind: "cell_kind mk get"
  shows "copier (pointer_valid get valid) (pointer_reach get reach) (pointer_val get val) (deep_copy mk get zero into)"
proof -
  have s: "shape valid reach val" using c by (simp add: copier_def)
  note pointer_shape [OF s, of get]
  moreover have "copied_to (pointer_valid get valid) (pointer_reach get reach) (pointer_val get val) m p q m'"
    if m: "mem_ok m" and v: "pointer_valid get valid m p" and run: "run_state (deep_copy mk get zero into p) m = (q, m')"
    for m p q m'
  proof (cases p)
    case None
    with m run show ?thesis
      by (simp add: deep_copy_def copied_to_def pointer_valid_def pointer_reach_def pointer_val_def)
  next
    case (Some a)
    with v obtain x where x: "Option.bind (cells m a) get = Some x" "valid m x"
      by (auto simp: pointer_valid_def split: option.splits)
    let ?m1 = "m\<lparr>cells := (cells m)(limit m \<mapsto> mk zero), limit := Suc (limit m)\<rparr>"
    have a: "a < limit m" using bind_allocated [of m a get] x(1) m by simp
    then have read: "contents get zero ?m1 a = x" using x(1) by (simp add: contents_def)
    obtain y m2 where y: "run_state (into x) ?m1 = (y, m2)" by force
    let ?m3 = "m2\<lparr>cells := (cells m2)(limit m \<mapsto> mk y)\<rparr>"
    have q: "q = Some (limit m)" "m' = ?m3" using run y read by (simp_all add: deep_copy_def Some)
    note x1 = shape.frame_grows [OF s x(2) m grows_alloc, of "mk zero"]
    note k = copier.copy_ok [OF c mem_ok_alloc [OF m] x1(1) y]
    have lim: "limit m < limit m2" using k(2) by (simp add: grows_def)
    have same: "valid ?m3 y \<and> reach ?m3 y = reach m2 y \<and> val ?m3 y = val m2 y"
      by (rule shape.frame [OF s k(3)]) (use k(5) in auto)
    have "mem_ok ?m3" by (rule mem_ok_store [OF k(1) lim])
    moreover have "grows m ?m3" by (rule grows_store [OF grows_trans [OF grows_alloc k(2)]]) simp
    ultimately show ?thesis
      using same k(3-5) x1 x lim cell_kind.get_mk [OF kind, of "mk y" y]
      by (fastforce simp: q Some copied_to_def pointer_valid_def pointer_reach_def pointer_val_def)
  qed
  ultimately show ?thesis by (simp add: copier_def copier_axioms_def)
qed

text \<open>
  \<open>*val.DeepCopy()\<close> for a loop variable \<open>val\<close>: the variable has an address of its own.
\<close>

definition copy_variable :: "('b \<Rightarrow> 'c) \<Rightarrow> ('c \<Rightarrow> 'b option) \<Rightarrow> 'b \<Rightarrow> (nat option \<Rightarrow> ('c memory, nat option) state)
    \<Rightarrow> 'b \<Rightarrow> ('c memory, 'b) state" where
  "copy_variable mk get zero copy x = do {
     variable \<leftarrow> alloc (mk x);
     p \<leftarrow> copy (Some variable);
     observe (\<lambda>m. case p of None \<Rightarrow> zero | Some a \<Rightarrow> contents get zero m a) }"

lemma copier_variable:
  fixes valid :: "'c memory \<Rightarrow> 'b \<Rightarrow> bool"
  assumes s: "shape valid reach val" and kind: "cell_kind mk get"
    and c: "copier (pointer_valid get valid) (pointer_reach get reach) (pointer_val get val) copy"
  shows "copier valid reach val (copy_variable mk get zero copy)"
proof -
  have "copied_to valid reach val m x y m'"
    if m: "mem_ok m" and v: "valid m x" and run: "run_state (copy_variable mk get zero copy x) m = (y, m')" for m x y m'
  proof -
    let ?m1 = "m\<lparr>cells := (cells m)(limit m \<mapsto> mk x), limit := Suc (limit m)\<rparr>"
    note x1 = shape.frame_grows [OF s v m grows_alloc, of "mk x"]
    have get: "get (mk z) = Some z" for z using cell_kind.get_mk [OF kind, of "mk z" z] by simp
    obtain p m2 where p: "run_state (copy (Some (limit m))) ?m1 = (p, m2)" by force
    have "pointer_valid get valid ?m1 (Some (limit m))" using x1(1) by (simp add: pointer_valid_def get)
    note k = copier.copy_ok [OF c mem_ok_alloc [OF m] this p]
    have "pointer_val get val m2 p = Some (val m x)" using k(4) x1(3) by (simp add: pointer_val_def get)
    then obtain a z where a: "p = Some a" "Option.bind (cells m2 a) get = Some z" "val m2 z = val m x"
      by (auto simp: pointer_val_def bind_eq_Some_conv)
    have y: "y = z" "m' = m2" using run p a(1) bind_contents [OF a(2)] by (simp_all add: copy_variable_def)
    have "valid m2 z" "reach m2 z \<subseteq> {Suc (limit m)..<limit m2}"
      using k(3,5) a(1,2) by (simp_all add: pointer_valid_def pointer_reach_def)
    then have "reach m2 z \<subseteq> {limit m..<limit m2}" by auto
    with \<open>valid m2 z\<close> k(1) grows_trans [OF grows_alloc k(2)] a(3) show ?thesis by (simp add: copied_to_def y)
  qed
  with s show ?thesis by (simp add: copier_def copier_axioms_def)
qed

end
