(* ===== verification/Deep_Copy.thy ===== *)
theory Deep_Copy
  imports Go_Copy Api_Types
begin

text \<open>
  The generated deep copies of the resources (\<open>zz_generated.deepcopy.go\<close> of the session and the GC
  API), on a memory in which slices, maps and pointers are addresses.  The copies of the embedded
  Kubernetes types are library code and a parameter.
\<close>

section \<open>Resources in memory\<close>

text \<open>
  The structs of \<open>session_types.go\<close> and \<open>gcregistration_types.go\<close> with their references: a slice, or the
  address of a map.  A value of an embedded Kubernetes struct is of the type \<open>'f\<close>.
\<close>

record typeMeta =
  meta_Kind :: string
  meta_APIVersion :: string

record podStatusStruct =
  ps_Paths :: "slice option"
  ps_Ready :: bool

record clientStatusStruct =
  cs_LastSeenAt :: instant
  cs_Ready :: bool
  cs_PodStatus :: "nat option"

record sessionPodsStatusStruct =
  sps_Conditions :: "slice option"
  sps_PodsStatus :: "nat option"

record sessionStatusStruct =
  ss_SessionPods :: sessionPodsStatusStruct
  ss_Clients :: "nat option"

record 'f clientPodTemplateStruct =
  cpt_MaxClients :: int64
  cpt_PodTemplate :: 'f

record 'f clientPodTemplateListStruct =
  cptl_TypeMeta :: typeMeta
  cptl_ListMeta :: 'f
  cptl_Items :: "slice option"

record 'f sessionSpecStruct =
  sp_SessionPodTemplates :: 'f
  sp_ClientPodTemplates :: "'f clientPodTemplateListStruct"
  sp_TimeoutSeconds :: int64
  sp_ReutilizeTimeoutSeconds :: int64
  sp_Clients :: "nat option"

record 'f sessionStruct =
  se_TypeMeta :: typeMeta
  se_ObjectMeta :: 'f
  se_Spec :: "'f sessionSpecStruct"
  se_Status :: sessionStatusStruct

record 'f sessionListStruct =
  sl_TypeMeta :: typeMeta
  sl_ListMeta :: 'f
  sl_Items :: "slice option"

record gcRegistrationSpecStruct =
  gcs_Session :: objectReference
  gcs_Type :: registrationType

record 'f gcRegistrationStruct =
  gcr_TypeMeta :: typeMeta
  gcr_ObjectMeta :: 'f
  gcr_Spec :: gcRegistrationSpecStruct

record 'f gcRegistrationListStruct =
  gcl_TypeMeta :: typeMeta
  gcl_ListMeta :: 'f
  gcl_Items :: "slice option"

text \<open>What a cell may hold: an array, a map, a variable, or a cell of an embedded struct.\<close>

datatype 'f cell =
    Strings "string list"
  | Conditions "condition list"
  | TemplateArray "'f clientPodTemplateStruct list"
  | SessionArray "'f sessionStruct list"
  | RegistrationArray "'f gcRegistrationStruct list"
  | BoolMap "(string, bool) gomap"
  | PodStatusMap "(string, podStatusStruct) gomap"
  | ClientStatusMap "(string, clientStatusStruct) gomap"
  | PodStatusVar podStatusStruct
  | ClientStatusVar clientStatusStruct
  | SessionPodsStatusVar sessionPodsStatusStruct
  | SessionStatusVar sessionStatusStruct
  | TemplateVar "'f clientPodTemplateStruct"
  | TemplateListVar "'f clientPodTemplateListStruct"
  | SessionSpecVar "'f sessionSpecStruct"
  | SessionVar "'f sessionStruct"
  | SessionListVar "'f sessionListStruct"
  | RegistrationSpecVar gcRegistrationSpecStruct
  | RegistrationVar "'f gcRegistrationStruct"
  | RegistrationListVar "'f gcRegistrationListStruct"
  | ForeignCell 'f

definition unStrings where "unStrings c = (case c of Strings x \<Rightarrow> Some x | _ \<Rightarrow> None)"
definition unConditions where "unConditions c = (case c of Conditions x \<Rightarrow> Some x | _ \<Rightarrow> None)"
definition unTemplateArray where "unTemplateArray c = (case c of TemplateArray x \<Rightarrow> Some x | _ \<Rightarrow> None)"
definition unSessionArray where "unSessionArray c = (case c of SessionArray x \<Rightarrow> Some x | _ \<Rightarrow> None)"
definition unRegistrationArray where "unRegistrationArray c = (case c of RegistrationArray x \<Rightarrow> Some x | _ \<Rightarrow> None)"
definition unBoolMap where "unBoolMap c = (case c of BoolMap x \<Rightarrow> Some x | _ \<Rightarrow> None)"
definition unPodStatusMap where "unPodStatusMap c = (case c of PodStatusMap x \<Rightarrow> Some x | _ \<Rightarrow> None)"
definition unClientStatusMap where "unClientStatusMap c = (case c of ClientStatusMap x \<Rightarrow> Some x | _ \<Rightarrow> None)"
definition unPodStatusVar where "unPodStatusVar c = (case c of PodStatusVar x \<Rightarrow> Some x | _ \<Rightarrow> None)"
definition unClientStatusVar where "unClientStatusVar c = (case c of ClientStatusVar x \<Rightarrow> Some x | _ \<Rightarrow> None)"
definition unSessionPodsStatusVar where "unSessionPodsStatusVar c = (case c of SessionPodsStatusVar x \<Rightarrow> Some x | _ \<Rightarrow> None)"
definition unSessionStatusVar where "unSessionStatusVar c = (case c of SessionStatusVar x \<Rightarrow> Some x | _ \<Rightarrow> None)"
definition unTemplateVar where "unTemplateVar c = (case c of TemplateVar x \<Rightarrow> Some x | _ \<Rightarrow> None)"
definition unTemplateListVar where "unTemplateListVar c = (case c of TemplateListVar x \<Rightarrow> Some x | _ \<Rightarrow> None)"
definition unSessionSpecVar where "unSessionSpecVar c = (case c of SessionSpecVar x \<Rightarrow> Some x | _ \<Rightarrow> None)"
definition unSessionVar where "unSessionVar c = (case c of SessionVar x \<Rightarrow> Some x | _ \<Rightarrow> None)"
definition unSessionListVar where "unSessionListVar c = (case c of SessionListVar x \<Rightarrow> Some x | _ \<Rightarrow> None)"
definition unRegistrationSpecVar where "unRegistrationSpecVar c = (case c of RegistrationSpecVar x \<Rightarrow> Some x | _ \<Rightarrow> None)"
definition unRegistrationVar where "unRegistrationVar c = (case c of RegistrationVar x \<Rightarrow> Some x | _ \<Rightarrow> None)"
definition unRegistrationListVar where "unRegistrationListVar c = (case c of RegistrationListVar x \<Rightarrow> Some x | _ \<Rightarrow> None)"

interpretation strings: cell_kind Strings unStrings
  by unfold_locales (simp add: unStrings_def split: cell.split)
interpretation conditions: cell_kind Conditions unConditions
  by unfold_locales (simp add: unConditions_def split: cell.split)
interpretation templateArray: cell_kind TemplateArray unTemplateArray
  by unfold_locales (simp add: unTemplateArray_def split: cell.split)
interpretation sessionArray: cell_kind SessionArray unSessionArray
  by unfold_locales (simp add: unSessionArray_def split: cell.split)
interpretation registrationArray: cell_kind RegistrationArray unRegistrationArray
  by unfold_locales (simp add: unRegistrationArray_def split: cell.split)
interpretation boolMap: cell_kind BoolMap unBoolMap
  by unfold_locales (simp add: unBoolMap_def split: cell.split)
interpretation podStatusMap: cell_kind PodStatusMap unPodStatusMap
  by unfold_locales (simp add: unPodStatusMap_def split: cell.split)
interpretation clientStatusMap: cell_kind ClientStatusMap unClientStatusMap
  by unfold_locales (simp add: unClientStatusMap_def split: cell.split)
interpretation podStatusVar: cell_kind PodStatusVar unPodStatusVar
  by unfold_locales (simp add: unPodStatusVar_def split: cell.split)
interpretation clientStatusVar: cell_kind ClientStatusVar unClientStatusVar
  by unfold_locales (simp add: unClientStatusVar_def split: cell.split)
interpretation sessionPodsStatusVar: cell_kind SessionPodsStatusVar unSessionPodsStatusVar
  by unfold_locales (simp add: unSessionPodsStatusVar_def split: cell.split)
interpretation sessionStatusVar: cell_kind SessionStatusVar unSessionStatusVar
  by unfold_locales (simp add: unSessionStatusVar_def split: cell.split)
interpretation templateVar: cell_kind TemplateVar unTemplateVar
  by unfold_locales (simp add: unTemplateVar_def split: cell.split)
interpretation templateListVar: cell_kind TemplateListVar unTemplateListVar
  by unfold_locales (simp add: unTemplateListVar_def split: cell.split)
interpretation sessionSpecVar: cell_kind SessionSpecVar unSessionSpecVar
  by unfold_locales (simp add: unSessionSpecVar_def split: cell.split)
interpretation sessionVar: cell_kind SessionVar unSessionVar
  by unfold_locales (simp add: unSessionVar_def split: cell.split)
interpretation sessionListVar: cell_kind SessionListVar unSessionListVar
  by unfold_locales (simp add: unSessionListVar_def split: cell.split)
interpretation registrationSpecVar: cell_kind RegistrationSpecVar unRegistrationSpecVar
  by unfold_locales (simp add: unRegistrationSpecVar_def split: cell.split)
interpretation registrationVar: cell_kind RegistrationVar unRegistrationVar
  by unfold_locales (simp add: unRegistrationVar_def split: cell.split)
interpretation registrationListVar: cell_kind RegistrationListVar unRegistrationListVar
  by unfold_locales (simp add: unRegistrationListVar_def split: cell.split)

section \<open>Library code\<close>

text \<open>
  The embedded Kubernetes structs and their \<open>DeepCopyInto\<close>, and those of \<open>metav1.Time\<close> and
  \<open>metav1.Condition\<close>.
\<close>

datatype foreignType = ObjectMeta | ListMeta | PodTemplate | PodTemplateList

record 'f apimachinery =
  foreign_DeepCopyInto :: "foreignType \<Rightarrow> 'f \<Rightarrow> ('f cell memory, 'f) state"
  time_DeepCopyInto :: "instant \<Rightarrow> ('f cell memory, instant) state"
  condition_DeepCopyInto :: "condition \<Rightarrow> ('f cell memory, condition) state"
  foreign_zero :: "foreignType \<Rightarrow> 'f"

text \<open>The \<open>range\<close> statements over maps.\<close>

datatype copyRange = CopyPodStatus | CopyPodsStatus | CopyClients | CopyStatusClients

type_synonym copyOrder = "copyRange \<times> nat \<Rightarrow> string list \<Rightarrow> string list"

section \<open>Zero values\<close>

definition zero_podStatusStruct :: podStatusStruct where
  "zero_podStatusStruct = \<lparr>ps_Paths = None, ps_Ready = False\<rparr>"

definition zero_clientStatusStruct :: clientStatusStruct where
  "zero_clientStatusStruct = \<lparr>cs_LastSeenAt = zero_time, cs_Ready = False, cs_PodStatus = None\<rparr>"

definition zero_condition :: condition where
  "zero_condition = \<lparr>condition_Type = [], condition_Status = [], condition_Reason = [],
     condition_Message = [], condition_LastTransitionTime = zero_time\<rparr>"

definition zero_sessionPodsStatusStruct :: sessionPodsStatusStruct where
  "zero_sessionPodsStatusStruct = \<lparr>sps_Conditions = None, sps_PodsStatus = None\<rparr>"

definition zero_sessionStatusStruct :: sessionStatusStruct where
  "zero_sessionStatusStruct = \<lparr>ss_SessionPods = zero_sessionPodsStatusStruct, ss_Clients = None\<rparr>"

definition zero_typeMeta :: typeMeta where
  "zero_typeMeta = \<lparr>meta_Kind = [], meta_APIVersion = []\<rparr>"

definition zero_template :: "'f apimachinery \<Rightarrow> 'f clientPodTemplateStruct" where
  "zero_template F = \<lparr>cpt_MaxClients = 0, cpt_PodTemplate = foreign_zero F PodTemplate\<rparr>"

definition zero_templateList :: "'f apimachinery \<Rightarrow> 'f clientPodTemplateListStruct" where
  "zero_templateList F = \<lparr>cptl_TypeMeta = zero_typeMeta, cptl_ListMeta = foreign_zero F ListMeta, cptl_Items = None\<rparr>"

definition zero_sessionSpec :: "'f apimachinery \<Rightarrow> 'f sessionSpecStruct" where
  "zero_sessionSpec F = \<lparr>sp_SessionPodTemplates = foreign_zero F PodTemplateList,
     sp_ClientPodTemplates = zero_templateList F, sp_TimeoutSeconds = 0, sp_ReutilizeTimeoutSeconds = 0,
     sp_Clients = None\<rparr>"

definition zero_session :: "'f apimachinery \<Rightarrow> 'f sessionStruct" where
  "zero_session F = \<lparr>se_TypeMeta = zero_typeMeta, se_ObjectMeta = foreign_zero F ObjectMeta,
     se_Spec = zero_sessionSpec F, se_Status = zero_sessionStatusStruct\<rparr>"

definition zero_sessionList :: "'f apimachinery \<Rightarrow> 'f sessionListStruct" where
  "zero_sessionList F = \<lparr>sl_TypeMeta = zero_typeMeta, sl_ListMeta = foreign_zero F ListMeta, sl_Items = None\<rparr>"

definition zero_registrationSpec :: gcRegistrationSpecStruct where
  "zero_registrationSpec = \<lparr>gcs_Session = \<lparr>ref_Name = [], ref_Namespace = []\<rparr>, gcs_Type = OtherType []\<rparr>"

definition zero_registration :: "'f apimachinery \<Rightarrow> 'f gcRegistrationStruct" where
  "zero_registration F = \<lparr>gcr_TypeMeta = zero_typeMeta, gcr_ObjectMeta = foreign_zero F ObjectMeta,
     gcr_Spec = zero_registrationSpec\<rparr>"

definition zero_registrationList :: "'f apimachinery \<Rightarrow> 'f gcRegistrationListStruct" where
  "zero_registrationList F = \<lparr>gcl_TypeMeta = zero_typeMeta, gcl_ListMeta = foreign_zero F ListMeta, gcl_Items = None\<rparr>"

section \<open>Status\<close>

text \<open>
  \<open>DeepCopyInto\<close> gets the struct \<open>*in\<close> and returns the struct \<open>*out\<close>, which starts as \<open>*in\<close>; \<open>DeepCopy\<close>
  gets and returns a pointer.
\<close>

definition PodStatus_DeepCopyInto :: "podStatusStruct \<Rightarrow> ('f cell memory, podStatusStruct) state" where
  "PodStatus_DeepCopyInto in' = do {
     paths \<leftarrow> copy_plain_slice Strings unStrings [] (ps_Paths in');
     State_Monad.return (in'\<lparr>ps_Paths := paths\<rparr>) }"

definition PodStatus_DeepCopy :: "nat option \<Rightarrow> ('f cell memory, nat option) state" where
  "PodStatus_DeepCopy = deep_copy PodStatusVar unPodStatusVar zero_podStatusStruct PodStatus_DeepCopyInto"

definition ClientStatus_DeepCopyInto ::
    "'f apimachinery \<Rightarrow> copyOrder \<Rightarrow> clientStatusStruct \<Rightarrow> ('f cell memory, clientStatusStruct) state" where
  "ClientStatus_DeepCopyInto F ord in' = do {
     lastSeenAt \<leftarrow> time_DeepCopyInto F (cs_LastSeenAt in');
     podStatus \<leftarrow> copy_map PodStatusMap unPodStatusMap zero_podStatusStruct
       (copy_variable PodStatusVar unPodStatusVar zero_podStatusStruct PodStatus_DeepCopy)
       (\<lambda>n. ord (CopyPodStatus, n)) (cs_PodStatus in');
     State_Monad.return (in'\<lparr>cs_LastSeenAt := lastSeenAt, cs_PodStatus := podStatus\<rparr>) }"

definition ClientStatus_DeepCopy ::
    "'f apimachinery \<Rightarrow> copyOrder \<Rightarrow> nat option \<Rightarrow> ('f cell memory, nat option) state" where
  "ClientStatus_DeepCopy F ord =
     deep_copy ClientStatusVar unClientStatusVar zero_clientStatusStruct (ClientStatus_DeepCopyInto F ord)"

definition SessionPodsStatus_DeepCopyInto ::
    "'f apimachinery \<Rightarrow> copyOrder \<Rightarrow> sessionPodsStatusStruct \<Rightarrow> ('f cell memory, sessionPodsStatusStruct) state" where
  "SessionPodsStatus_DeepCopyInto F ord in' = do {
     conditions \<leftarrow> copy_slice Conditions unConditions zero_condition (condition_DeepCopyInto F) (sps_Conditions in');
     podsStatus \<leftarrow> copy_map PodStatusMap unPodStatusMap zero_podStatusStruct
       (copy_variable PodStatusVar unPodStatusVar zero_podStatusStruct PodStatus_DeepCopy)
       (\<lambda>n. ord (CopyPodsStatus, n)) (sps_PodsStatus in');
     State_Monad.return (in'\<lparr>sps_Conditions := conditions, sps_PodsStatus := podsStatus\<rparr>) }"

definition SessionPodsStatus_DeepCopy ::
    "'f apimachinery \<Rightarrow> copyOrder \<Rightarrow> nat option \<Rightarrow> ('f cell memory, nat option) state" where
  "SessionPodsStatus_DeepCopy F ord = deep_copy SessionPodsStatusVar unSessionPodsStatusVar
     zero_sessionPodsStatusStruct (SessionPodsStatus_DeepCopyInto F ord)"

definition SessionStatus_DeepCopyInto ::
    "'f apimachinery \<Rightarrow> copyOrder \<Rightarrow> sessionStatusStruct \<Rightarrow> ('f cell memory, sessionStatusStruct) state" where
  "SessionStatus_DeepCopyInto F ord in' = do {
     sessionPods \<leftarrow> SessionPodsStatus_DeepCopyInto F ord (ss_SessionPods in');
     clients \<leftarrow> copy_map ClientStatusMap unClientStatusMap zero_clientStatusStruct
       (copy_variable ClientStatusVar unClientStatusVar zero_clientStatusStruct (ClientStatus_DeepCopy F ord))
       (\<lambda>n. ord (CopyStatusClients, n)) (ss_Clients in');
     State_Monad.return (in'\<lparr>ss_SessionPods := sessionPods, ss_Clients := clients\<rparr>) }"

definition SessionStatus_DeepCopy ::
    "'f apimachinery \<Rightarrow> copyOrder \<Rightarrow> nat option \<Rightarrow> ('f cell memory, nat option) state" where
  "SessionStatus_DeepCopy F ord =
     deep_copy SessionStatusVar unSessionStatusVar zero_sessionStatusStruct (SessionStatus_DeepCopyInto F ord)"

section \<open>Spec\<close>

definition ClientPodTemplate_DeepCopyInto ::
    "'f apimachinery \<Rightarrow> 'f clientPodTemplateStruct \<Rightarrow> ('f cell memory, 'f clientPodTemplateStruct) state" where
  "ClientPodTemplate_DeepCopyInto F in' = do {
     podTemplate \<leftarrow> foreign_DeepCopyInto F PodTemplate (cpt_PodTemplate in');
     State_Monad.return (in'\<lparr>cpt_PodTemplate := podTemplate\<rparr>) }"

definition ClientPodTemplate_DeepCopy :: "'f apimachinery \<Rightarrow> nat option \<Rightarrow> ('f cell memory, nat option) state" where
  "ClientPodTemplate_DeepCopy F =
     deep_copy TemplateVar unTemplateVar (zero_template F) (ClientPodTemplate_DeepCopyInto F)"

definition ClientPodTemplateList_DeepCopyInto ::
    "'f apimachinery \<Rightarrow> 'f clientPodTemplateListStruct \<Rightarrow> ('f cell memory, 'f clientPodTemplateListStruct) state" where
  "ClientPodTemplateList_DeepCopyInto F in' = do {
     listMeta \<leftarrow> foreign_DeepCopyInto F ListMeta (cptl_ListMeta in');
     items \<leftarrow> copy_slice TemplateArray unTemplateArray (zero_template F) (ClientPodTemplate_DeepCopyInto F)
       (cptl_Items in');
     State_Monad.return (in'\<lparr>cptl_TypeMeta := cptl_TypeMeta in', cptl_ListMeta := listMeta, cptl_Items := items\<rparr>) }"

definition ClientPodTemplateList_DeepCopy :: "'f apimachinery \<Rightarrow> nat option \<Rightarrow> ('f cell memory, nat option) state" where
  "ClientPodTemplateList_DeepCopy F =
     deep_copy TemplateListVar unTemplateListVar (zero_templateList F) (ClientPodTemplateList_DeepCopyInto F)"

definition SessionSpec_DeepCopyInto ::
    "'f apimachinery \<Rightarrow> copyOrder \<Rightarrow> 'f sessionSpecStruct \<Rightarrow> ('f cell memory, 'f sessionSpecStruct) state" where
  "SessionSpec_DeepCopyInto F ord in' = do {
     sessionPodTemplates \<leftarrow> foreign_DeepCopyInto F PodTemplateList (sp_SessionPodTemplates in');
     clientPodTemplates \<leftarrow> ClientPodTemplateList_DeepCopyInto F (sp_ClientPodTemplates in');
     clients \<leftarrow> copy_map BoolMap unBoolMap False State_Monad.return (\<lambda>n. ord (CopyClients, n)) (sp_Clients in');
     State_Monad.return (in'\<lparr>sp_SessionPodTemplates := sessionPodTemplates,
       sp_ClientPodTemplates := clientPodTemplates, sp_Clients := clients\<rparr>) }"

definition SessionSpec_DeepCopy ::
    "'f apimachinery \<Rightarrow> copyOrder \<Rightarrow> nat option \<Rightarrow> ('f cell memory, nat option) state" where
  "SessionSpec_DeepCopy F ord =
     deep_copy SessionSpecVar unSessionSpecVar (zero_sessionSpec F) (SessionSpec_DeepCopyInto F ord)"

section \<open>Session and its list\<close>

definition Session_DeepCopyInto ::
    "'f apimachinery \<Rightarrow> copyOrder \<Rightarrow> 'f sessionStruct \<Rightarrow> ('f cell memory, 'f sessionStruct) state" where
  "Session_DeepCopyInto F ord in' = do {
     objectMeta \<leftarrow> foreign_DeepCopyInto F ObjectMeta (se_ObjectMeta in');
     spec \<leftarrow> SessionSpec_DeepCopyInto F ord (se_Spec in');
     status \<leftarrow> SessionStatus_DeepCopyInto F ord (se_Status in');
     State_Monad.return (in'\<lparr>se_TypeMeta := se_TypeMeta in', se_ObjectMeta := objectMeta, se_Spec := spec,
       se_Status := status\<rparr>) }"

definition Session_DeepCopy ::
    "'f apimachinery \<Rightarrow> copyOrder \<Rightarrow> nat option \<Rightarrow> ('f cell memory, nat option) state" where
  "Session_DeepCopy F ord = deep_copy SessionVar unSessionVar (zero_session F) (Session_DeepCopyInto F ord)"

text \<open>The interface \<open>runtime.Object\<close> is nil for a nil pointer.\<close>

definition Session_DeepCopyObject ::
    "'f apimachinery \<Rightarrow> copyOrder \<Rightarrow> nat option \<Rightarrow> ('f cell memory, nat option) state" where
  "Session_DeepCopyObject F ord in' = do {
     c \<leftarrow> Session_DeepCopy F ord in';
     State_Monad.return (case c of Some a \<Rightarrow> Some a | None \<Rightarrow> None) }"

definition SessionList_DeepCopyInto ::
    "'f apimachinery \<Rightarrow> copyOrder \<Rightarrow> 'f sessionListStruct \<Rightarrow> ('f cell memory, 'f sessionListStruct) state" where
  "SessionList_DeepCopyInto F ord in' = do {
     listMeta \<leftarrow> foreign_DeepCopyInto F ListMeta (sl_ListMeta in');
     items \<leftarrow> copy_slice SessionArray unSessionArray (zero_session F) (Session_DeepCopyInto F ord) (sl_Items in');
     State_Monad.return (in'\<lparr>sl_TypeMeta := sl_TypeMeta in', sl_ListMeta := listMeta, sl_Items := items\<rparr>) }"

definition SessionList_DeepCopy ::
    "'f apimachinery \<Rightarrow> copyOrder \<Rightarrow> nat option \<Rightarrow> ('f cell memory, nat option) state" where
  "SessionList_DeepCopy F ord =
     deep_copy SessionListVar unSessionListVar (zero_sessionList F) (SessionList_DeepCopyInto F ord)"

definition SessionList_DeepCopyObject ::
    "'f apimachinery \<Rightarrow> copyOrder \<Rightarrow> nat option \<Rightarrow> ('f cell memory, nat option) state" where
  "SessionList_DeepCopyObject F ord in' = do {
     c \<leftarrow> SessionList_DeepCopy F ord in';
     State_Monad.return (case c of Some a \<Rightarrow> Some a | None \<Rightarrow> None) }"

section \<open>GCRegistration and its list\<close>

text \<open>An object reference holds strings only, so the spec of a registration has no reference.\<close>

definition GCRegistrationSpec_DeepCopyInto ::
    "gcRegistrationSpecStruct \<Rightarrow> ('f cell memory, gcRegistrationSpecStruct) state" where
  "GCRegistrationSpec_DeepCopyInto in' = State_Monad.return (in'\<lparr>gcs_Session := gcs_Session in'\<rparr>)"

definition GCRegistrationSpec_DeepCopy :: "nat option \<Rightarrow> ('f cell memory, nat option) state" where
  "GCRegistrationSpec_DeepCopy =
     deep_copy RegistrationSpecVar unRegistrationSpecVar zero_registrationSpec GCRegistrationSpec_DeepCopyInto"

definition GCRegistration_DeepCopyInto ::
    "'f apimachinery \<Rightarrow> 'f gcRegistrationStruct \<Rightarrow> ('f cell memory, 'f gcRegistrationStruct) state" where
  "GCRegistration_DeepCopyInto F in' = do {
     objectMeta \<leftarrow> foreign_DeepCopyInto F ObjectMeta (gcr_ObjectMeta in');
     State_Monad.return (in'\<lparr>gcr_TypeMeta := gcr_TypeMeta in', gcr_ObjectMeta := objectMeta,
       gcr_Spec := gcr_Spec in'\<rparr>) }"

definition GCRegistration_DeepCopy :: "'f apimachinery \<Rightarrow> nat option \<Rightarrow> ('f cell memory, nat option) state" where
  "GCRegistration_DeepCopy F =
     deep_copy RegistrationVar unRegistrationVar (zero_registration F) (GCRegistration_DeepCopyInto F)"

definition GCRegistration_DeepCopyObject :: "'f apimachinery \<Rightarrow> nat option \<Rightarrow> ('f cell memory, nat option) state" where
  "GCRegistration_DeepCopyObject F in' = do {
     c \<leftarrow> GCRegistration_DeepCopy F in';
     State_Monad.return (case c of Some a \<Rightarrow> Some a | None \<Rightarrow> None) }"

definition GCRegistrationList_DeepCopyInto ::
    "'f apimachinery \<Rightarrow> 'f gcRegistrationListStruct \<Rightarrow> ('f cell memory, 'f gcRegistrationListStruct) state" where
  "GCRegistrationList_DeepCopyInto F in' = do {
     listMeta \<leftarrow> foreign_DeepCopyInto F ListMeta (gcl_ListMeta in');
     items \<leftarrow> copy_slice RegistrationArray unRegistrationArray (zero_registration F) (GCRegistration_DeepCopyInto F)
       (gcl_Items in');
     State_Monad.return (in'\<lparr>gcl_TypeMeta := gcl_TypeMeta in', gcl_ListMeta := listMeta, gcl_Items := items\<rparr>) }"

definition GCRegistrationList_DeepCopy :: "'f apimachinery \<Rightarrow> nat option \<Rightarrow> ('f cell memory, nat option) state" where
  "GCRegistrationList_DeepCopy F =
     deep_copy RegistrationListVar unRegistrationListVar (zero_registrationList F) (GCRegistrationList_DeepCopyInto F)"

definition GCRegistrationList_DeepCopyObject :: "'f apimachinery \<Rightarrow> nat option \<Rightarrow> ('f cell memory, nat option) state" where
  "GCRegistrationList_DeepCopyObject F in' = do {
     c \<leftarrow> GCRegistrationList_DeepCopy F in';
     State_Monad.return (case c of Some a \<Rightarrow> Some a | None \<Rightarrow> None) }"

end
