(* ===== verification/Deep_Copy_Spec.thy ===== *)
theory Deep_Copy_Spec
  imports Deep_Copy
begin

text \<open>
  What the deep copies promise: each \<open>DeepCopyInto\<close> and \<open>DeepCopy\<close> is a \<open>copier\<close>.  For every type of the
  resources there are its well-typed values, the addresses they reach and the value they stand for,
  in which slices are lists and maps are functions; a nil slice or map differs from an empty one.
\<close>

section \<open>Library code\<close>

text \<open>The same for the embedded structs of Kubernetes.\<close>

record ('f, 'w) foreignShape =
  f_valid :: "foreignType \<Rightarrow> 'f cell memory \<Rightarrow> 'f \<Rightarrow> bool"
  f_reach :: "foreignType \<Rightarrow> 'f cell memory \<Rightarrow> 'f \<Rightarrow> nat set"
  f_val :: "foreignType \<Rightarrow> 'f cell memory \<Rightarrow> 'f \<Rightarrow> 'w"

definition foreign_copies :: "'f apimachinery \<Rightarrow> ('f, 'w) foreignShape \<Rightarrow> bool" where
  "foreign_copies F S \<longleftrightarrow> (\<forall>t. copier (f_valid S t) (f_reach S t) (f_val S t) (foreign_DeepCopyInto F t)) \<and>
     copier plain_valid plain_reach plain_val (time_DeepCopyInto F) \<and>
     copier plain_valid plain_reach plain_val (condition_DeepCopyInto F)"

lemma foreign_copiesD:
  assumes "foreign_copies F S"
  shows "copier (f_valid S t) (f_reach S t) (f_val S t) (foreign_DeepCopyInto F t)"
    and "copier plain_valid plain_reach plain_val (time_DeepCopyInto F)"
    and "copier plain_valid plain_reach plain_val (condition_DeepCopyInto F)"
  using assms unfolding foreign_copies_def by blast+

lemma visits: "permutes_keys ord \<Longrightarrow> mset (ord (l, n) ks) = mset ks"
  by (rule permutes_keysD)

section \<open>Types\<close>

abbreviation podStatus_parts where
  "podStatus_parts x \<equiv> (ps_Ready x, ps_Paths x)"

definition podStatus_valid where
  "podStatus_valid m x =
     pair_valid plain_valid (slice_valid unStrings plain_valid)
       m (podStatus_parts (x :: podStatusStruct))"

definition podStatus_reach where
  "podStatus_reach m x =
     pair_reach plain_reach (slice_reach unStrings plain_reach)
       m (podStatus_parts (x :: podStatusStruct))"

definition podStatus_val where
  "podStatus_val m x =
     pair_val plain_val (slice_val unStrings plain_val)
       m (podStatus_parts (x :: podStatusStruct))"

abbreviation clientStatus_parts where
  "clientStatus_parts x \<equiv> (cs_Ready x, cs_LastSeenAt x, cs_PodStatus x)"

definition clientStatus_valid where
  "clientStatus_valid m x =
     pair_valid plain_valid (pair_valid plain_valid (map_valid unPodStatusMap podStatus_valid))
       m (clientStatus_parts (x :: clientStatusStruct))"

definition clientStatus_reach where
  "clientStatus_reach m x =
     pair_reach plain_reach (pair_reach plain_reach (map_reach unPodStatusMap podStatus_reach))
       m (clientStatus_parts (x :: clientStatusStruct))"

definition clientStatus_val where
  "clientStatus_val m x =
     pair_val plain_val (pair_val plain_val (map_val unPodStatusMap podStatus_val))
       m (clientStatus_parts (x :: clientStatusStruct))"

abbreviation podsStatus_parts where
  "podsStatus_parts x \<equiv> (sps_Conditions x, sps_PodsStatus x)"

definition podsStatus_valid where
  "podsStatus_valid m x =
     pair_valid (slice_valid unConditions plain_valid) (map_valid unPodStatusMap podStatus_valid)
       m (podsStatus_parts (x :: sessionPodsStatusStruct))"

definition podsStatus_reach where
  "podsStatus_reach m x =
     pair_reach (slice_reach unConditions plain_reach) (map_reach unPodStatusMap podStatus_reach)
       m (podsStatus_parts (x :: sessionPodsStatusStruct))"

definition podsStatus_val where
  "podsStatus_val m x =
     pair_val (slice_val unConditions plain_val) (map_val unPodStatusMap podStatus_val)
       m (podsStatus_parts (x :: sessionPodsStatusStruct))"

abbreviation status_parts where
  "status_parts x \<equiv> (ss_SessionPods x, ss_Clients x)"

definition status_valid where
  "status_valid m x =
     pair_valid podsStatus_valid (map_valid unClientStatusMap clientStatus_valid)
       m (status_parts (x :: sessionStatusStruct))"

definition status_reach where
  "status_reach m x =
     pair_reach podsStatus_reach (map_reach unClientStatusMap clientStatus_reach)
       m (status_parts (x :: sessionStatusStruct))"

definition status_val where
  "status_val m x =
     pair_val podsStatus_val (map_val unClientStatusMap clientStatus_val)
       m (status_parts (x :: sessionStatusStruct))"

abbreviation template_parts where
  "template_parts x \<equiv> (cpt_MaxClients x, cpt_PodTemplate x)"

definition template_valid where
  "template_valid S m x =
     pair_valid plain_valid (f_valid S PodTemplate)
       m (template_parts (x :: 'f clientPodTemplateStruct))"

definition template_reach where
  "template_reach S m x =
     pair_reach plain_reach (f_reach S PodTemplate)
       m (template_parts (x :: 'f clientPodTemplateStruct))"

definition template_val where
  "template_val S m x =
     pair_val plain_val (f_val S PodTemplate)
       m (template_parts (x :: 'f clientPodTemplateStruct))"

abbreviation templateList_parts where
  "templateList_parts x \<equiv> (cptl_TypeMeta x, cptl_ListMeta x, cptl_Items x)"

definition templateList_valid where
  "templateList_valid S m x =
     pair_valid plain_valid 
       (pair_valid (f_valid S ListMeta) (slice_valid unTemplateArray (template_valid S)))
       m (templateList_parts (x :: 'f clientPodTemplateListStruct))"

definition templateList_reach where
  "templateList_reach S m x =
     pair_reach plain_reach 
       (pair_reach (f_reach S ListMeta) (slice_reach unTemplateArray (template_reach S)))
       m (templateList_parts (x :: 'f clientPodTemplateListStruct))"

definition templateList_val where
  "templateList_val S m x =
     pair_val plain_val (pair_val (f_val S ListMeta) (slice_val unTemplateArray (template_val S)))
       m (templateList_parts (x :: 'f clientPodTemplateListStruct))"

abbreviation spec_parts where
  "spec_parts x \<equiv> (sp_TimeoutSeconds x, sp_ReutilizeTimeoutSeconds x, sp_SessionPodTemplates x, sp_ClientPodTemplates x, sp_Clients x)"

definition spec_valid where
  "spec_valid S m x =
     pair_valid plain_valid 
       (pair_valid plain_valid 
       (pair_valid (f_valid S PodTemplateList) (pair_valid (templateList_valid S) (map_valid unBoolMap plain_valid))))
       m (spec_parts (x :: 'f sessionSpecStruct))"

definition spec_reach where
  "spec_reach S m x =
     pair_reach plain_reach 
       (pair_reach plain_reach 
       (pair_reach (f_reach S PodTemplateList) (pair_reach (templateList_reach S) (map_reach unBoolMap plain_reach))))
       m (spec_parts (x :: 'f sessionSpecStruct))"

definition spec_val where
  "spec_val S m x =
     pair_val plain_val 
       (pair_val plain_val 
       (pair_val (f_val S PodTemplateList) (pair_val (templateList_val S) (map_val unBoolMap plain_val))))
       m (spec_parts (x :: 'f sessionSpecStruct))"

abbreviation session_parts where
  "session_parts x \<equiv> (se_TypeMeta x, se_ObjectMeta x, se_Spec x, se_Status x)"

definition session_valid where
  "session_valid S m x =
     pair_valid plain_valid (pair_valid (f_valid S ObjectMeta) (pair_valid (spec_valid S) status_valid))
       m (session_parts (x :: 'f sessionStruct))"

definition session_reach where
  "session_reach S m x =
     pair_reach plain_reach (pair_reach (f_reach S ObjectMeta) (pair_reach (spec_reach S) status_reach))
       m (session_parts (x :: 'f sessionStruct))"

definition session_val where
  "session_val S m x =
     pair_val plain_val (pair_val (f_val S ObjectMeta) (pair_val (spec_val S) status_val))
       m (session_parts (x :: 'f sessionStruct))"

abbreviation sessionList_parts where
  "sessionList_parts x \<equiv> (sl_TypeMeta x, sl_ListMeta x, sl_Items x)"

definition sessionList_valid where
  "sessionList_valid S m x =
     pair_valid plain_valid 
       (pair_valid (f_valid S ListMeta) (slice_valid unSessionArray (session_valid S)))
       m (sessionList_parts (x :: 'f sessionListStruct))"

definition sessionList_reach where
  "sessionList_reach S m x =
     pair_reach plain_reach 
       (pair_reach (f_reach S ListMeta) (slice_reach unSessionArray (session_reach S)))
       m (sessionList_parts (x :: 'f sessionListStruct))"

definition sessionList_val where
  "sessionList_val S m x =
     pair_val plain_val (pair_val (f_val S ListMeta) (slice_val unSessionArray (session_val S)))
       m (sessionList_parts (x :: 'f sessionListStruct))"

abbreviation registration_parts where
  "registration_parts x \<equiv> (gcr_TypeMeta x, gcr_ObjectMeta x, gcr_Spec x)"

definition registration_valid where
  "registration_valid S m x =
     pair_valid plain_valid (pair_valid (f_valid S ObjectMeta) plain_valid)
       m (registration_parts (x :: 'f gcRegistrationStruct))"

definition registration_reach where
  "registration_reach S m x =
     pair_reach plain_reach (pair_reach (f_reach S ObjectMeta) plain_reach)
       m (registration_parts (x :: 'f gcRegistrationStruct))"

definition registration_val where
  "registration_val S m x =
     pair_val plain_val (pair_val (f_val S ObjectMeta) plain_val)
       m (registration_parts (x :: 'f gcRegistrationStruct))"

abbreviation registrationList_parts where
  "registrationList_parts x \<equiv> (gcl_TypeMeta x, gcl_ListMeta x, gcl_Items x)"

definition registrationList_valid where
  "registrationList_valid S m x =
     pair_valid plain_valid 
       (pair_valid (f_valid S ListMeta) (slice_valid unRegistrationArray (registration_valid S)))
       m (registrationList_parts (x :: 'f gcRegistrationListStruct))"

definition registrationList_reach where
  "registrationList_reach S m x =
     pair_reach plain_reach 
       (pair_reach (f_reach S ListMeta) (slice_reach unRegistrationArray (registration_reach S)))
       m (registrationList_parts (x :: 'f gcRegistrationListStruct))"

definition registrationList_val where
  "registrationList_val S m x =
     pair_val plain_val 
       (pair_val (f_val S ListMeta) (slice_val unRegistrationArray (registration_val S)))
       m (registrationList_parts (x :: 'f gcRegistrationListStruct))"

section \<open>Every deep copy is a copier\<close>

lemma podStatus_copier: "copier podStatus_valid podStatus_reach podStatus_val PodStatus_DeepCopyInto"
  unfolding podStatus_valid_def podStatus_reach_def podStatus_val_def
  by (rule copier_struct [where parts = "\<lambda>x. podStatus_parts x" and struct = "\<lambda>x (r, p). x\<lparr>ps_Ready := r, ps_Paths := p\<rparr>",
      OF copier_pair [OF plain.copier_axioms copy_plain_slice_copier [OF strings.cell_kind_axioms]]])
    (auto simp: PodStatus_DeepCopyInto_def copy_pair_def)

text \<open>The loop variables of the maps of statuses.\<close>

lemma shapeD: "copier valid reach val copy \<Longrightarrow> shape valid reach val"
  by (simp add: copier_def)

lemma podStatus_pointer: "copier (pointer_valid unPodStatusVar podStatus_valid) (pointer_reach unPodStatusVar podStatus_reach)
    (pointer_val unPodStatusVar podStatus_val) PodStatus_DeepCopy"
  unfolding PodStatus_DeepCopy_def by (rule copier_pointer [OF podStatus_copier podStatusVar.cell_kind_axioms])

lemmas podStatus_variable =
  copier_variable [OF shapeD [OF podStatus_copier] podStatusVar.cell_kind_axioms podStatus_pointer]

lemma podStatus_map:
  assumes "permutes_keys ord"
  shows "copier (map_valid unPodStatusMap podStatus_valid) (map_reach unPodStatusMap podStatus_reach)
    (map_val unPodStatusMap podStatus_val)
    (copy_map PodStatusMap unPodStatusMap zero_podStatusStruct
       (copy_variable PodStatusVar unPodStatusVar zero_podStatusStruct PodStatus_DeepCopy) (\<lambda>n. ord (l, n)))"
  by (rule copy_map_copier [OF podStatus_variable podStatusMap.cell_kind_axioms visits [OF assms]])

lemma clientStatus_copier:
  assumes "foreign_copies F S" and "permutes_keys ord"
  shows "copier clientStatus_valid clientStatus_reach clientStatus_val (ClientStatus_DeepCopyInto F ord)"
  unfolding clientStatus_valid_def clientStatus_reach_def clientStatus_val_def
  by (rule copier_struct [where parts = "\<lambda>x. clientStatus_parts x" and
      struct = "\<lambda>x (r, t, p). x\<lparr>cs_Ready := r, cs_LastSeenAt := t, cs_PodStatus := p\<rparr>",
      OF copier_pair [OF plain.copier_axioms copier_pair [OF foreign_copiesD(2) [OF assms(1)] podStatus_map [OF assms(2)]]]])
    (auto simp: ClientStatus_DeepCopyInto_def copy_pair_def)

lemma clientStatus_map:
  assumes "foreign_copies F S" and "permutes_keys ord"
  shows "copier (map_valid unClientStatusMap clientStatus_valid) (map_reach unClientStatusMap clientStatus_reach)
    (map_val unClientStatusMap clientStatus_val)
    (copy_map ClientStatusMap unClientStatusMap zero_clientStatusStruct
       (copy_variable ClientStatusVar unClientStatusVar zero_clientStatusStruct (ClientStatus_DeepCopy F ord))
       (\<lambda>n. ord (l, n)))"
proof -
  note c = clientStatus_copier [OF assms]
  have "copier (pointer_valid unClientStatusVar clientStatus_valid) (pointer_reach unClientStatusVar clientStatus_reach)
      (pointer_val unClientStatusVar clientStatus_val) (ClientStatus_DeepCopy F ord)"
    unfolding ClientStatus_DeepCopy_def by (rule copier_pointer [OF c clientStatusVar.cell_kind_axioms])
  from copier_variable [OF shapeD [OF c] clientStatusVar.cell_kind_axioms this]
  show ?thesis by (rule copy_map_copier [OF _ clientStatusMap.cell_kind_axioms visits [OF assms(2)]])
qed

lemma podsStatus_copier:
  assumes "foreign_copies F S" and "permutes_keys ord"
  shows "copier podsStatus_valid podsStatus_reach podsStatus_val (SessionPodsStatus_DeepCopyInto F ord)"
  unfolding podsStatus_valid_def podsStatus_reach_def podsStatus_val_def
  by (rule copier_struct [where parts = "\<lambda>x. podsStatus_parts x" and
      struct = "\<lambda>x (c, p). x\<lparr>sps_Conditions := c, sps_PodsStatus := p\<rparr>",
      OF copier_pair [OF copy_slice_copier [OF foreign_copiesD(3) [OF assms(1)] conditions.cell_kind_axioms]
        podStatus_map [OF assms(2)]]])
    (auto simp: SessionPodsStatus_DeepCopyInto_def copy_pair_def)

lemma status_copier:
  assumes "foreign_copies F S" and "permutes_keys ord"
  shows "copier status_valid status_reach status_val (SessionStatus_DeepCopyInto F ord)"
  unfolding status_valid_def status_reach_def status_val_def
  by (rule copier_struct [where parts = "\<lambda>x. status_parts x" and
      struct = "\<lambda>x (p, c). x\<lparr>ss_SessionPods := p, ss_Clients := c\<rparr>",
      OF copier_pair [OF podsStatus_copier [OF assms] clientStatus_map [OF assms]]])
    (auto simp: SessionStatus_DeepCopyInto_def copy_pair_def)

lemma template_copier:
  assumes "foreign_copies F S"
  shows "copier (template_valid S) (template_reach S) (template_val S) (ClientPodTemplate_DeepCopyInto F)"
  unfolding template_valid_def template_reach_def template_val_def
  by (rule copier_struct [where parts = "\<lambda>x. template_parts x" and
      struct = "\<lambda>x (n, t). x\<lparr>cpt_MaxClients := n, cpt_PodTemplate := t\<rparr>",
      OF copier_pair [OF plain.copier_axioms foreign_copiesD(1) [OF assms]]])
    (auto simp: ClientPodTemplate_DeepCopyInto_def copy_pair_def)

lemma templateList_copier:
  assumes "foreign_copies F S"
  shows "copier (templateList_valid S) (templateList_reach S) (templateList_val S) (ClientPodTemplateList_DeepCopyInto F)"
  unfolding templateList_valid_def templateList_reach_def templateList_val_def
  by (rule copier_struct [where parts = "\<lambda>x. templateList_parts x" and
      struct = "\<lambda>x (t, l, i). x\<lparr>cptl_TypeMeta := t, cptl_ListMeta := l, cptl_Items := i\<rparr>",
      OF copier_pair [OF plain.copier_axioms copier_pair [OF foreign_copiesD(1) [OF assms]
        copy_slice_copier [OF template_copier [OF assms] templateArray.cell_kind_axioms]]]])
    (auto simp: ClientPodTemplateList_DeepCopyInto_def copy_pair_def)

lemma spec_copier:
  assumes "foreign_copies F S" and "permutes_keys ord"
  shows "copier (spec_valid S) (spec_reach S) (spec_val S) (SessionSpec_DeepCopyInto F ord)"
  unfolding spec_valid_def spec_reach_def spec_val_def
  by (rule copier_struct [where parts = "\<lambda>x. spec_parts x" and
      struct = "\<lambda>x (t, r, p, q, c). x\<lparr>sp_TimeoutSeconds := t, sp_ReutilizeTimeoutSeconds := r,
        sp_SessionPodTemplates := p, sp_ClientPodTemplates := q, sp_Clients := c\<rparr>",
      OF copier_pair [OF plain.copier_axioms copier_pair [OF plain.copier_axioms copier_pair [OF foreign_copiesD(1) [OF assms(1)]
        copier_pair [OF templateList_copier [OF assms(1)]
          copy_map_copier [OF plain.copier_axioms boolMap.cell_kind_axioms visits [OF assms(2)]]]]]]])
    (auto simp: SessionSpec_DeepCopyInto_def copy_pair_def)

lemma session_copier:
  assumes "foreign_copies F S" and "permutes_keys ord"
  shows "copier (session_valid S) (session_reach S) (session_val S) (Session_DeepCopyInto F ord)"
  unfolding session_valid_def session_reach_def session_val_def
  by (rule copier_struct [where parts = "\<lambda>x. session_parts x" and
      struct = "\<lambda>x (t, o', s, u). x\<lparr>se_TypeMeta := t, se_ObjectMeta := o', se_Spec := s, se_Status := u\<rparr>",
      OF copier_pair [OF plain.copier_axioms copier_pair [OF foreign_copiesD(1) [OF assms(1)]
        copier_pair [OF spec_copier [OF assms] status_copier [OF assms]]]]])
    (auto simp: Session_DeepCopyInto_def copy_pair_def)

lemma sessionList_copier:
  assumes "foreign_copies F S" and "permutes_keys ord"
  shows "copier (sessionList_valid S) (sessionList_reach S) (sessionList_val S) (SessionList_DeepCopyInto F ord)"
  unfolding sessionList_valid_def sessionList_reach_def sessionList_val_def
  by (rule copier_struct [where parts = "\<lambda>x. sessionList_parts x" and
      struct = "\<lambda>x (t, l, i). x\<lparr>sl_TypeMeta := t, sl_ListMeta := l, sl_Items := i\<rparr>",
      OF copier_pair [OF plain.copier_axioms copier_pair [OF foreign_copiesD(1) [OF assms(1)]
        copy_slice_copier [OF session_copier [OF assms] sessionArray.cell_kind_axioms]]]])
    (auto simp: SessionList_DeepCopyInto_def copy_pair_def)

lemma registration_copier:
  assumes "foreign_copies F S"
  shows "copier (registration_valid S) (registration_reach S) (registration_val S) (GCRegistration_DeepCopyInto F)"
  unfolding registration_valid_def registration_reach_def registration_val_def
  by (rule copier_struct [where parts = "\<lambda>x. registration_parts x" and
      struct = "\<lambda>x (t, o', s). x\<lparr>gcr_TypeMeta := t, gcr_ObjectMeta := o', gcr_Spec := s\<rparr>",
      OF copier_pair [OF plain.copier_axioms copier_pair [OF foreign_copiesD(1) [OF assms] plain.copier_axioms]]])
    (auto simp: GCRegistration_DeepCopyInto_def copy_pair_def)

lemma registrationList_copier:
  assumes "foreign_copies F S"
  shows "copier (registrationList_valid S) (registrationList_reach S) (registrationList_val S) (GCRegistrationList_DeepCopyInto F)"
  unfolding registrationList_valid_def registrationList_reach_def registrationList_val_def
  by (rule copier_struct [where parts = "\<lambda>x. registrationList_parts x" and
      struct = "\<lambda>x (t, l, i). x\<lparr>gcl_TypeMeta := t, gcl_ListMeta := l, gcl_Items := i\<rparr>",
      OF copier_pair [OF plain.copier_axioms copier_pair [OF foreign_copiesD(1) [OF assms]
        copy_slice_copier [OF registration_copier [OF assms] registrationArray.cell_kind_axioms]]]])
    (auto simp: GCRegistrationList_DeepCopyInto_def copy_pair_def)

end
