(* ===== verification/Deep_Copy_Properties.thy ===== *)
theory Deep_Copy_Properties
  imports Deep_Copy_Spec
begin

text \<open>
  The theorems about the deep copies of the resources, on which the controllers rely when they change
  an object that the cache of the API server also holds.
\<close>

section \<open>A concrete memory\<close>

text \<open>
  An embedded struct of the demonstration has a name and, behind a reference, labels; its copy has a new
  cell for the labels.
\<close>

type_synonym demo_meta = "string \<times> nat option"

fun unForeignCell :: "'f cell \<Rightarrow> 'f option" where
  "unForeignCell (ForeignCell x) = Some x"
| "unForeignCell _ = None"

definition demo_meta_copy :: "demo_meta \<Rightarrow> (demo_meta cell memory, demo_meta) state" where
  "demo_meta_copy x = (case snd x of
     None \<Rightarrow> State_Monad.return x
   | Some a \<Rightarrow> do {
       labels \<leftarrow> observe (\<lambda>m. contents unForeignCell ([], None) m a);
       out \<leftarrow> alloc (ForeignCell labels);
       State_Monad.return (fst x, Some out) })"

definition demo_machinery :: "demo_meta apimachinery" where
  "demo_machinery = \<lparr>foreign_DeepCopyInto = (\<lambda>_. demo_meta_copy), time_DeepCopyInto = State_Monad.return,
     condition_DeepCopyInto = State_Monad.return, foreign_zero = (\<lambda>_. ([], None))\<rparr>"

definition demo_shape :: "(demo_meta, string \<times> demo_meta option) foreignShape" where
  "demo_shape = \<lparr>
     f_valid = (\<lambda>_ m x. case snd x of None \<Rightarrow> True | Some a \<Rightarrow> Option.bind (cells m a) unForeignCell \<noteq> None),
     f_reach = (\<lambda>_ m x. set_option (snd x)),
     f_val = (\<lambda>_ m x. (fst x, map_option (contents unForeignCell ([], None) m) (snd x)))\<rparr>"

lemma demo_foreign_copies: "foreign_copies demo_machinery demo_shape"
proof -
  have "shape (f_valid demo_shape t) (f_reach demo_shape t) (f_val demo_shape t)" for t
    by unfold_locales (auto simp: demo_shape_def mem_ok_def contents_def bind_eq_Some_conv split: option.splits)
  moreover have "copied_to (f_valid demo_shape t) (f_reach demo_shape t) (f_val demo_shape t) m x y m'"
    if m: "mem_ok m" and v: "f_valid demo_shape t m x" and run: "run_state (demo_meta_copy x) m = (y, m')" for t m x y m'
  proof (cases "snd x")
    case None
    with m v run show ?thesis by (simp add: demo_meta_copy_def copied_to_def demo_shape_def)
  next
    case (Some a)
    with v obtain l where l: "Option.bind (cells m a) unForeignCell = Some l" by (auto simp: demo_shape_def)
    with run Some have "y = (fst x, Some (limit m))"
        "m' = m\<lparr>cells := (cells m)(limit m \<mapsto> ForeignCell l), limit := Suc (limit m)\<rparr>"
      by (auto simp: demo_meta_copy_def contents_def)
    with mem_ok_alloc [OF m] grows_alloc Some l show ?thesis
      by (auto simp: copied_to_def demo_shape_def contents_def)
  qed
  ultimately have "copier (f_valid demo_shape t) (f_reach demo_shape t) (f_val demo_shape t) demo_meta_copy" for t
    by (simp add: copier_def copier_axioms_def)
  then show ?thesis by (simp add: foreign_copies_def demo_machinery_def plain.copier_axioms)
qed

text \<open>A session with a template, one client and its pod; the metadata has labels at address 5.\<close>

definition demo_memory :: "demo_meta cell memory" where
  "demo_memory = \<lparr>cells = map_of [
       (0, Strings [''/demo-1-web-aaaa/http'']),
       (1, PodStatusMap [(''demo-1-web-aaaa'',
             \<lparr>ps_Paths = Some \<lparr>slice_Array = 0, slice_Off = 0, slice_Len = 1, slice_Cap = 1\<rparr>, ps_Ready = True\<rparr>)]),
       (2, ClientStatusMap [(''a'', \<lparr>cs_LastSeenAt = 0, cs_Ready = True, cs_PodStatus = Some 1\<rparr>)]),
       (3, BoolMap [(''a'', True)]),
       (4, TemplateArray [\<lparr>cpt_MaxClients = 1, cpt_PodTemplate = (''web'', None)\<rparr>]),
       (5, ForeignCell (''label'', None)),
       (6, SessionVar \<lparr>se_TypeMeta = zero_typeMeta, se_ObjectMeta = (''demo-1'', Some 5),
             se_Spec = \<lparr>sp_SessionPodTemplates = ([], None),
               sp_ClientPodTemplates = \<lparr>cptl_TypeMeta = zero_typeMeta, cptl_ListMeta = ([], None),
                 cptl_Items = Some \<lparr>slice_Array = 4, slice_Off = 0, slice_Len = 1, slice_Cap = 1\<rparr>\<rparr>,
               sp_TimeoutSeconds = 10, sp_ReutilizeTimeoutSeconds = 20, sp_Clients = Some 3\<rparr>,
             se_Status = \<lparr>ss_SessionPods = zero_sessionPodsStatusStruct, ss_Clients = Some 2\<rparr>\<rparr>)],
     limit = 7\<rparr>"

lemmas demo_valid_simps = pointer_valid_def map_valid_def slice_valid_def slice_typed_def slice_items_def pair_valid_def
  plain_valid_def session_valid_def spec_valid_def status_valid_def podsStatus_valid_def clientStatus_valid_def
  podStatus_valid_def templateList_valid_def template_valid_def contents_def demo_shape_def map_ok_def map_keys_def
  zero_sessionPodsStatusStruct_def unStrings_def unConditions_def unTemplateArray_def unBoolMap_def unPodStatusMap_def
  unClientStatusMap_def unSessionVar_def

lemma demo_memory_ok: "mem_ok demo_memory"
  by (auto simp: mem_ok_def demo_memory_def dom_def)

section \<open>Sessions\<close>

abbreviation session_at where "session_at S \<equiv> pointer_valid unSessionVar (session_valid S)"
abbreviation session_cells where "session_cells S \<equiv> pointer_reach unSessionVar (session_reach S)"
abbreviation session_value where "session_value S \<equiv> pointer_val unSessionVar (session_val S)"

lemma Session_DeepCopy_copier:
  assumes "foreign_copies F S" and "permutes_keys ord"
  shows "copier (session_at S) (session_cells S) (session_value S) (Session_DeepCopy F ord)"
  unfolding Session_DeepCopy_def by (rule copier_pointer [OF session_copier [OF assms] sessionVar.cell_kind_axioms])

text \<open>
  C20. \<open>Session.DeepCopy\<close> copies deeply: the copy has the value of the original, with nil and empty slices
  and maps kept apart; no cell that existed before is changed, in whatever order the maps are visited;
  and original and copy share nothing, so that whatever is written later to cells that the copy reaches,
  the original keeps its value, and the other way round.
\<close>

theorem session_deep_copy:
  assumes "foreign_copies F S" and "permutes_keys ord" and "mem_ok m" and "session_at S m p"
    and "run_state (Session_DeepCopy F ord p) m = (q, m')"
  shows "session_value S m' q = session_value S m p \<and> (q = None \<longleftrightarrow> p = None) \<and>
    grows m m' \<and> session_cells S m' q \<subseteq> {limit m..<limit m'} \<and>
    ((\<forall>a. a \<notin> session_cells S m' q \<longrightarrow> cells m1 a = cells m' a) \<longrightarrow> session_value S m1 p = session_value S m p) \<and>
    ((\<forall>a. a \<notin> session_cells S m' p \<longrightarrow> cells m1 a = cells m' a) \<longrightarrow> session_value S m1 q = session_value S m p)"
proof -
  note c = copier.copy_ok [OF Session_DeepCopy_copier [OF assms(1,2)] assms(3-5)]
  have "q = None \<longleftrightarrow> p = None"
    using assms(5) by (cases p) (auto simp: Session_DeepCopy_def deep_copy_def split: prod.splits)
  with c copier.independent [OF Session_DeepCopy_copier [OF assms(1,2)] assms(3-5)] show ?thesis by blast
qed

lemma demo_session_at: "session_at demo_shape demo_memory (Some 6)"
  by (simp add: demo_memory_def demo_valid_simps)

text \<open>The original after the struct of the copy is overwritten.\<close>

lemma session_deep_copy_witness:
  "\<exists>q m' m1. run_state (Session_DeepCopy demo_machinery (\<lambda>_. rev) (Some 6)) demo_memory = (Some q, m') \<and>
     session_value demo_shape m' (Some q) = session_value demo_shape demo_memory (Some 6) \<and>
     cells m1 q = None \<and> session_value demo_shape m1 (Some 6) = session_value demo_shape demo_memory (Some 6)"
proof -
  obtain q m' where run: "run_state (Session_DeepCopy demo_machinery (\<lambda>_. rev) (Some 6)) demo_memory = (q, m')" by force
  then obtain a where a: "q = Some a"
    by (auto simp: Session_DeepCopy_def deep_copy_def split: prod.splits)
  let ?m1 = "m'\<lparr>cells := (cells m')(a := None)\<rparr>"
  have "a \<in> session_cells demo_shape m' q" by (simp add: a pointer_reach_def)
  then have "\<forall>b. b \<notin> session_cells demo_shape m' q \<longrightarrow> cells ?m1 b = cells m' b" by auto
  with session_deep_copy [OF demo_foreign_copies permutes_keys_rev demo_memory_ok demo_session_at run]
  have "session_value demo_shape m' q = session_value demo_shape demo_memory (Some 6)"
    "session_value demo_shape ?m1 (Some 6) = session_value demo_shape demo_memory (Some 6)" by blast+
  then show ?thesis using run a by (intro exI [of _ a] exI [of _ m'] exI [of _ ?m1]) simp
qed

section \<open>Lists\<close>

abbreviation sessionList_at where "sessionList_at S \<equiv> pointer_valid unSessionListVar (sessionList_valid S)"
abbreviation sessionList_cells where "sessionList_cells S \<equiv> pointer_reach unSessionListVar (sessionList_reach S)"
abbreviation sessionList_value where "sessionList_value S \<equiv> pointer_val unSessionListVar (sessionList_val S)"
abbreviation registrationList_at where
  "registrationList_at S \<equiv> pointer_valid unRegistrationListVar (registrationList_valid S)"
abbreviation registrationList_cells where
  "registrationList_cells S \<equiv> pointer_reach unRegistrationListVar (registrationList_reach S)"
abbreviation registrationList_value where
  "registrationList_value S \<equiv> pointer_val unRegistrationListVar (registrationList_val S)"

lemma same_pointer: "(case c of Some a \<Rightarrow> Some a | None \<Rightarrow> None) = c"
  by (cases c) simp_all

lemma SessionList_DeepCopyObject_copier:
  assumes "foreign_copies F S" and "permutes_keys ord"
  shows "copier (sessionList_at S) (sessionList_cells S) (sessionList_value S) (SessionList_DeepCopyObject F ord)"
proof -
  have "SessionList_DeepCopyObject F ord = SessionList_DeepCopy F ord"
    by (rule ext) (simp add: SessionList_DeepCopyObject_def same_pointer)
  then show ?thesis unfolding SessionList_DeepCopy_def
    by (simp add: copier_pointer [OF sessionList_copier [OF assms] sessionListVar.cell_kind_axioms])
qed

lemma GCRegistrationList_DeepCopyObject_copier:
  assumes "foreign_copies F S"
  shows "copier (registrationList_at S) (registrationList_cells S) (registrationList_value S)
    (GCRegistrationList_DeepCopyObject F)"
proof -
  have "GCRegistrationList_DeepCopyObject F = GCRegistrationList_DeepCopy F"
    by (rule ext) (simp add: GCRegistrationList_DeepCopyObject_def same_pointer)
  then show ?thesis unfolding GCRegistrationList_DeepCopy_def
    by (simp add: copier_pointer [OF registrationList_copier [OF assms] registrationListVar.cell_kind_axioms])
qed

text \<open>
  The copies of lists are typed: from a memory without dangling or wrongly typed references,
  \<open>DeepCopyObject\<close> of a list of sessions or of registrations leads to such a memory, in which the copy is
  a well-typed list and every well-typed session or list that was there still is one, with its value.
\<close>

theorem list_copies_typed:
  assumes "foreign_copies F S" and "permutes_keys ord" and "mem_ok m"
    and "sessionList_at S m p" and "run_state (SessionList_DeepCopyObject F ord p) m = (q, m1)"
    and "registrationList_at S m1 r" and "run_state (GCRegistrationList_DeepCopyObject F r) m1 = (s, m2)"
  shows "mem_ok m2 \<and> sessionList_at S m2 q \<and> registrationList_at S m2 s \<and>
    sessionList_value S m2 q = sessionList_value S m p \<and> registrationList_value S m2 s = registrationList_value S m1 r \<and>
    sessionList_at S m2 p \<and> registrationList_at S m2 r \<and>
    sessionList_cells S m2 q \<inter> sessionList_cells S m2 p = {} \<and>
    registrationList_cells S m2 s \<inter> registrationList_cells S m2 r = {}"
proof -
  note c1 = SessionList_DeepCopyObject_copier [OF assms(1,2)] and c2 = GCRegistrationList_DeepCopyObject_copier [OF assms(1)]
  note k1 = copier.copy_ok [OF c1 assms(3-5)]
  note k2 = copier.copy_ok [OF c2 k1(1) assms(6,7)]
  note q = shape.frame_grows [OF shapeD [OF c1] k1(3,1) k2(2)]
  note p = shape.frame_grows [OF shapeD [OF c1] assms(4,3) grows_trans [OF k1(2) k2(2)]]
  note r = shape.frame_grows [OF shapeD [OF c2] assms(6) k1(1) k2(2)]
  have "sessionList_cells S m p \<subseteq> {..<limit m}" "registrationList_cells S m1 r \<subseteq> {..<limit m1}"
    using shape.allocated [OF shapeD [OF c1] assms(4,3)] shape.allocated [OF shapeD [OF c2] assms(6) k1(1)] .
  then have "sessionList_cells S m1 q \<inter> sessionList_cells S m p = {}"
    "registrationList_cells S m2 s \<inter> registrationList_cells S m1 r = {}"
    using k1(5) k2(5) by fastforce+
  with k1 k2 q p r show ?thesis by simp
qed

text \<open>A list of that session, and a list of a registration.\<close>

definition demo_list_memory :: "demo_meta cell memory" where
  "demo_list_memory = \<lparr>cells = (cells demo_memory)(
     7 \<mapsto> SessionArray [the (unSessionVar (the (cells demo_memory 6)))],
     8 \<mapsto> SessionListVar \<lparr>sl_TypeMeta = zero_typeMeta, sl_ListMeta = ([], None),
       sl_Items = Some \<lparr>slice_Array = 7, slice_Off = 0, slice_Len = 1, slice_Cap = 1\<rparr>\<rparr>,
     9 \<mapsto> RegistrationArray [\<lparr>gcr_TypeMeta = zero_typeMeta, gcr_ObjectMeta = (''demo-1-web-aaaa'', Some 5),
       gcr_Spec = \<lparr>gcs_Session = \<lparr>ref_Name = ''demo-1'', ref_Namespace = ''default''\<rparr>, gcs_Type = Timeout\<rparr>\<rparr>],
     10 \<mapsto> RegistrationListVar \<lparr>gcl_TypeMeta = zero_typeMeta, gcl_ListMeta = ([], None),
       gcl_Items = Some \<lparr>slice_Array = 9, slice_Off = 0, slice_Len = 1, slice_Cap = 1\<rparr>\<rparr>), limit = 11\<rparr>"

lemma demo_list_memory_ok: "mem_ok demo_list_memory"
proof -
  have "dom (cells demo_list_memory) = {10, 9, 8, 7} \<union> dom (cells demo_memory)"
    unfolding demo_list_memory_def by (simp add: insert_commute)
  also have "dom (cells demo_memory) = {..<7}" using demo_memory_ok by (simp add: mem_ok_def demo_memory_def)
  also have "{10, 9, 8, 7} \<union> {..<7} = {..<11 :: nat}" by auto
  finally have "dom (cells demo_list_memory) = {..<11}" .
  moreover have "limit demo_list_memory = 11" by (simp add: demo_list_memory_def)
  ultimately show ?thesis by (simp only: mem_ok_def)
qed

lemma demo_list_cells [simp]:
  "limit demo_list_memory = 11"
  "cells demo_list_memory 5 = Some (ForeignCell (''label'', None))"
  "cells demo_list_memory 7 = Some (SessionArray [the (unSessionVar (the (cells demo_memory 6)))])"
  "cells demo_list_memory 8 = Some (SessionListVar \<lparr>sl_TypeMeta = zero_typeMeta, sl_ListMeta = ([], None),
       sl_Items = Some \<lparr>slice_Array = 7, slice_Off = 0, slice_Len = 1, slice_Cap = 1\<rparr>\<rparr>)"
  "cells demo_list_memory 9 = Some (RegistrationArray [\<lparr>gcr_TypeMeta = zero_typeMeta,
       gcr_ObjectMeta = (''demo-1-web-aaaa'', Some 5),
       gcr_Spec = \<lparr>gcs_Session = \<lparr>ref_Name = ''demo-1'', ref_Namespace = ''default''\<rparr>, gcs_Type = Timeout\<rparr>\<rparr>])"
  "cells demo_list_memory 10 = Some (RegistrationListVar \<lparr>gcl_TypeMeta = zero_typeMeta, gcl_ListMeta = ([], None),
       gcl_Items = Some \<lparr>slice_Array = 9, slice_Off = 0, slice_Len = 1, slice_Cap = 1\<rparr>\<rparr>)"
  by (simp_all add: demo_list_memory_def demo_memory_def)

lemma demo_list_session:
  "session_valid demo_shape demo_list_memory (the (unSessionVar (the (cells demo_memory 6))))"
proof -
  have "session_valid demo_shape demo_memory (the (unSessionVar (the (cells demo_memory 6))))"
    using demo_session_at by (auto simp: pointer_valid_def bind_eq_Some_conv split: option.splits)
  moreover have "grows demo_memory demo_list_memory"
    by (simp add: grows_def demo_list_memory_def) (simp add: demo_memory_def)
  ultimately show ?thesis
    using shape.frame_grows(1) [OF shapeD [OF session_copier [OF demo_foreign_copies permutes_keys_id]] _ demo_memory_ok]
    by blast
qed

lemma demo_list_at:
  "sessionList_at demo_shape demo_list_memory (Some 8)"
  "registrationList_at demo_shape demo_list_memory (Some 10)"
proof -
  have "slice_valid unSessionArray (session_valid demo_shape) demo_list_memory
      (Some \<lparr>slice_Array = 7, slice_Off = 0, slice_Len = 1, slice_Cap = 1\<rparr>)"
    by (simp add: slice_valid_def slice_typed_def slice_items_def contents_def unSessionArray_def demo_list_session)
  moreover have "f_valid demo_shape t m (n, None)" for t m n by (simp add: demo_shape_def)
  ultimately show "sessionList_at demo_shape demo_list_memory (Some 8)"
    by (simp add: pointer_valid_def unSessionListVar_def sessionList_valid_def pair_valid_def plain_valid_def)
  have "f_valid demo_shape t demo_list_memory (n, Some 5)" for t n by (simp add: demo_shape_def)
  moreover have "f_valid demo_shape t m (n, None)" for t m n by (simp add: demo_shape_def)
  ultimately show "registrationList_at demo_shape demo_list_memory (Some 10)"
    by (simp add: pointer_valid_def unRegistrationListVar_def registrationList_valid_def registration_valid_def
        pair_valid_def plain_valid_def slice_valid_def slice_typed_def slice_items_def contents_def unRegistrationArray_def)
qed

lemma list_copies_typed_witness:
  "\<exists>q m1 s m2. run_state (SessionList_DeepCopyObject demo_machinery (\<lambda>_ ks. ks) (Some 8)) demo_list_memory = (q, m1) \<and>
     run_state (GCRegistrationList_DeepCopyObject demo_machinery (Some 10)) m1 = (s, m2) \<and>
     mem_ok m2 \<and> sessionList_at demo_shape m2 q \<and> registrationList_at demo_shape m2 s"
proof -
  let ?c = "SessionList_DeepCopyObject demo_machinery (\<lambda>_ ks. ks)"
  obtain q m1 where q: "run_state (?c (Some 8)) demo_list_memory = (q, m1)" by force
  obtain s m2 where s: "run_state (GCRegistrationList_DeepCopyObject demo_machinery (Some 10)) m1 = (s, m2)" by force
  note c = copier.copy_ok(2) [OF SessionList_DeepCopyObject_copier [OF demo_foreign_copies permutes_keys_id]
      demo_list_memory_ok demo_list_at(1) q]
  have "registrationList_at demo_shape m1 (Some 10)"
    by (rule shape.frame_grows(1) [OF shapeD [OF GCRegistrationList_DeepCopyObject_copier [OF demo_foreign_copies]]
          demo_list_at(2) demo_list_memory_ok c])
  from list_copies_typed [OF demo_foreign_copies permutes_keys_id demo_list_memory_ok demo_list_at(1) q this s] q s
  show ?thesis by blast
qed

end
