(* ===== verification/Go_Flags.thy ===== *)
theory Go_Flags
  imports Go_Text
begin

text \<open>
  Two packages of Go's standard library that the processes use at their start: \<open>flag\<close>, which parses the
  command line, and \<open>path/filepath\<close>, which joins a directory and a file name.
\<close>

section \<open>Flags\<close>

text \<open>
  A flag has a name and a variable that takes a string or a boolean, here as the update of the state
  \<open>'s\<close> that holds all variables; a value of another package has a function that may reject the text.
\<close>

datatype 's flagValue =
    StringValue "string \<Rightarrow> 's \<Rightarrow> 's"
  | BoolValue "bool \<Rightarrow> 's \<Rightarrow> 's"
  | OtherValue bool "string \<Rightarrow> 's \<Rightarrow> 's option"

type_synonym 's flagSet = "(string, 's flagValue) gomap"

datatype flagError = BadSyntax | NotDefined | InvalidValue | NeedsArgument | HelpRequested

definition parseBool :: "string \<Rightarrow> bool option" where
  "parseBool s =
     (if s \<in> {''1'', ''t'', ''T'', ''TRUE'', ''true'', ''True''} then Some True
      else if s \<in> {''0'', ''f'', ''F'', ''FALSE'', ''false'', ''False''} then Some False
      else None)"

definition setFlag :: "'s flagValue \<Rightarrow> string \<Rightarrow> 's \<Rightarrow> 's option" where
  "setFlag v text s = (case v of
     StringValue f \<Rightarrow> Some (f text s)
   | BoolValue f \<Rightarrow> map_option (\<lambda>b. f b s) (parseBool text)
   | OtherValue _ f \<Rightarrow> f text s)"

definition isBoolFlag :: "'s flagValue \<Rightarrow> bool" where
  "isBoolFlag v = (case v of StringValue _ \<Rightarrow> False | BoolValue _ \<Rightarrow> True | OtherValue b _ \<Rightarrow> b)"

text \<open>The name and the value behind the first \<open>=\<close>, which cannot be the first character.\<close>

definition splitValue :: "string \<Rightarrow> string \<times> string option" where
  "splitValue name = (let i = index_of (CHR ''='') name in
     if i < 0 then (name, None) else (take (nat i) name, Some (drop (Suc (nat i)) name)))"

text \<open>One or two dashes are taken off; \<open>--\<close> alone ends the flags.\<close>

definition undash :: "string \<Rightarrow> string" where
  "undash s = (if s ! 1 = CHR ''-'' then drop 2 s else drop 1 s)"

definition isFlag :: "string \<Rightarrow> bool" where
  "isFlag s \<longleftrightarrow> 2 \<le> length s \<and> s ! 0 = CHR ''-''"

text \<open>
  \<open>FlagSet.Parse\<close>: the flags from the left, up to the first argument that is none.  A flag that is no
  boolean takes the next argument when it has no value of its own.
\<close>

fun parseArgs :: "'s flagSet \<Rightarrow> 's \<Rightarrow> string list \<Rightarrow> flagError + ('s \<times> string list)" where
  "parseArgs fs st [] = Inr (st, [])"
| "parseArgs fs st (s # args) =
     (if \<not> isFlag s then Inr (st, s # args)
      else if s = ''--'' then Inr (st, args)
      else if undash s = [] \<or> hd (undash s) \<in> {CHR ''-'', CHR ''=''} then Inl BadSyntax
      else case splitValue (undash s) of (name, value) \<Rightarrow>
        (case map_of fs name of
           None \<Rightarrow> if name \<in> {''help'', ''h''} then Inl HelpRequested else Inl NotDefined
         | Some v \<Rightarrow>
             (case (if isBoolFlag v \<and> value = None then Some ''true'' else value) of
                Some text \<Rightarrow>
                  (case setFlag v text st of None \<Rightarrow> Inl InvalidValue | Some st \<Rightarrow> parseArgs fs st args)
              | None \<Rightarrow>
                  (case args of
                     [] \<Rightarrow> Inl NeedsArgument
                   | text # args \<Rightarrow>
                       (case setFlag v text st of None \<Rightarrow> Inl InvalidValue | Some st \<Rightarrow> parseArgs fs st args)))))"

text \<open>A flag written as \<open>--name=value\<close>.\<close>

definition renderFlag :: "string \<Rightarrow> string \<Rightarrow> string" where
  "renderFlag name text = ''--'' @ name @ ''='' @ text"

definition renderBool :: "bool \<Rightarrow> string" where
  "renderBool b = (if b then ''true'' else ''false'')"

definition flag_name_ok :: "string \<Rightarrow> bool" where
  "flag_name_ok name \<longleftrightarrow> name \<noteq> [] \<and> hd name \<noteq> CHR ''-'' \<and> CHR ''='' \<notin> set name"

lemma parseBool_render [simp]: "parseBool (renderBool b) = Some b"
  by (simp add: parseBool_def renderBool_def)

lemma split_rendered: "CHR ''='' \<notin> set name \<Longrightarrow> splitValue (name @ CHR ''='' # text) = (name, Some text)"
  by (simp add: splitValue_def index_of_append)

lemma parse_rendered:
  assumes "flag_name_ok name" and "map_of fs name = Some v" and "setFlag v text st = Some st'"
  shows "parseArgs fs st (renderFlag name text # args) = parseArgs fs st' args"
proof -
  have "undash (renderFlag name text) = name @ ''='' @ text" "isFlag (renderFlag name text)"
    "renderFlag name text \<noteq> ''--''"
    by (simp_all add: undash_def isFlag_def renderFlag_def)
  moreover have "hd (name @ ''='' @ text) \<notin> {CHR ''-'', CHR ''=''}" "name @ ''='' @ text \<noteq> []"
    using assms(1) by (cases name; auto simp: flag_name_ok_def)+
  ultimately show ?thesis using assms by (simp add: split_rendered flag_name_ok_def)
qed

section \<open>Paths\<close>

text \<open>\<open>filepath.Clean\<close> on the elements of a path: the kept ones, the last one first.\<close>

definition cleanStep :: "bool \<Rightarrow> string \<Rightarrow> string list \<Rightarrow> string list" where
  "cleanStep rooted e out =
     (if e = [] \<or> e = ''.'' then out
      else if e = ''..'' then
        (case out of
           [] \<Rightarrow> if rooted then [] else [''..'']
         | p # ps \<Rightarrow> if p = ''..'' then ''..'' # out else ps)
      else e # out)"

fun joinWith :: "char \<Rightarrow> string list \<Rightarrow> string" where
  "joinWith c [] = []"
| "joinWith c [s] = s"
| "joinWith c (s # ss) = s @ c # joinWith c ss"

definition clean :: "string \<Rightarrow> string" where
  "clean path =
     (let rooted = (path \<noteq> [] \<and> hd path = CHR ''/'');
          text = (if rooted then ''/'' else []) @
            joinWith (CHR ''/'') (rev (fold (cleanStep rooted) (split_on (CHR ''/'') path) []))
      in if text = [] then ''.'' else text)"

text \<open>\<open>filepath.Join\<close> of two elements; leading empty elements are left out.\<close>

definition filepathJoin :: "string \<Rightarrow> string \<Rightarrow> string" where
  "filepathJoin a b =
     (if a \<noteq> [] then clean (a @ ''/'' @ b) else if b \<noteq> [] then clean b else [])"

lemma join_simple:
  assumes "CHR ''/'' \<notin> set d" "CHR ''/'' \<notin> set f" and "d \<notin> {[], ''.'', ''..''}" "f \<notin> {[], ''.'', ''..''}"
  shows "filepathJoin (''/'' @ d) f = ''/'' @ d @ ''/'' @ f"
  using assms by (simp add: filepathJoin_def clean_def cleanStep_def split_on_append split_on_absent Let_def)

end
