(* ===== verification/Go_Append.thy ===== *)
theory Go_Append
  imports Go_Copy
begin

text \<open>
  The built-in function \<open>append\<close> for one element.  It writes behind the slice when the array has room, so
  that another slice over the same array sees the write, and moves to a new array otherwise.  How large
  the new array is, is not part of the language: \<open>grow\<close> gives the capacity for the old capacity and the
  length that is needed.
\<close>

definition append_one :: "('b list \<Rightarrow> 'c) \<Rightarrow> ('c \<Rightarrow> 'b list option) \<Rightarrow> 'b \<Rightarrow> (nat \<Rightarrow> nat \<Rightarrow> nat)
    \<Rightarrow> slice option \<Rightarrow> 'b \<Rightarrow> ('c memory, slice option) state" where
  "append_one mk get zero grow r x = (case r of
     None \<Rightarrow> do {
       a \<leftarrow> alloc (mk (x # replicate (grow 0 1 - 1) zero));
       State_Monad.return (Some \<lparr>slice_Array = a, slice_Off = 0, slice_Len = 1, slice_Cap = grow 0 1\<rparr>) }
   | Some s \<Rightarrow>
       if slice_Len s < slice_Cap s then do {
         xs \<leftarrow> observe (\<lambda>m. contents get [] m (slice_Array s));
         store (slice_Array s) (mk (xs[slice_Off s + slice_Len s := x]));
         State_Monad.return (Some (s\<lparr>slice_Len := Suc (slice_Len s)\<rparr>)) }
       else do {
         xs \<leftarrow> observe (\<lambda>m. slice_items get m s);
         let n = grow (slice_Cap s) (Suc (slice_Len s));
         a \<leftarrow> alloc (mk (xs @ x # replicate (n - Suc (slice_Len s)) zero));
         State_Monad.return (Some \<lparr>slice_Array = a, slice_Off = 0, slice_Len = Suc (slice_Len s), slice_Cap = n\<rparr>) })"

text \<open>The runtime gives at least the capacity that is needed.\<close>

definition grows_enough :: "(nat \<Rightarrow> nat \<Rightarrow> nat) \<Rightarrow> bool" where
  "grows_enough grow \<longleftrightarrow> (\<forall>c n. n \<le> grow c n)"

definition slice_list :: "('c \<Rightarrow> 'b list option) \<Rightarrow> 'c memory \<Rightarrow> slice option \<Rightarrow> 'b list" where
  "slice_list get m r = (case r of None \<Rightarrow> [] | Some s \<Rightarrow> slice_items get m s)"

end
