(* ===== verification/Process_Start.thy ===== *)
theory Process_Start
  imports Go_Flags Go_Append Session_Controller
begin

text \<open>
  The start of the three controller processes (\<open>cmd/main.go\<close> of each controller, which differ in the API
  groups they register, the controller they set up and the name of the leader election), and
  \<open>SetupWithManager\<close> of each controller.  The controller runtime is a parameter: it answers the
  requests of the start from their history.  A process ends with an exit code.
\<close>

section \<open>Schemes\<close>

text \<open>The API groups that \<open>AddToScheme\<close> adds: the one of \<open>client-go\<close> and those of the program.\<close>

datatype apiGroup = ClientGoGroup | SessionGroup | GCGroup

section \<open>TLS options\<close>

text \<open>
  The elements of \<open>[]func(*tls.Config)\<close>: \<open>nil\<close>, the function that disables HTTP/2, and the closures that
  set the certificate to the one of a watcher.
\<close>

datatype tlsOption = NilOption | DisableHTTP2 | GetCertificateOf nat

record tlsConfig =
  tls_NextProtos :: "string list"
  tls_GetCertificate :: "nat option"

definition applyOption :: "tlsOption \<Rightarrow> tlsConfig \<Rightarrow> tlsConfig" where
  "applyOption f c = (case f of
     NilOption \<Rightarrow> c
   | DisableHTTP2 \<Rightarrow> c\<lparr>tls_NextProtos := [''http/1.1'']\<rparr>
   | GetCertificateOf w \<Rightarrow> c\<lparr>tls_GetCertificate := Some w\<rparr>)"

type_synonym tlsMemory = "tlsOption list memory"

abbreviation tlsOptions :: "tlsMemory \<Rightarrow> slice option \<Rightarrow> tlsOption list" where
  "tlsOptions \<equiv> slice_list Some"

definition appendOption :: "(nat \<Rightarrow> nat \<Rightarrow> nat) \<Rightarrow> slice option \<Rightarrow> tlsOption \<Rightarrow> (tlsMemory, slice option) state" where
  "appendOption grow = append_one (\<lambda>xs. xs) Some NilOption grow"

section \<open>Requests\<close>

record metricsOptions =
  metrics_BindAddress :: string
  metrics_SecureServing :: bool
  metrics_TLSOpts :: "slice option"
  metrics_FilterProvider :: bool

record managerOptions =
  manager_Scheme :: "kind list"
  manager_Metrics :: metricsOptions
  manager_WebhookTLSOpts :: "slice option"
  manager_HealthProbeBindAddress :: string
  manager_LeaderElection :: bool
  manager_LeaderElectionID :: string

record controllerSetup =
  setup_Name :: string
  setup_For :: "kind option"
  setup_Owns :: "kind list"
  setup_Watches :: "kind list"

datatype startRequest =
    AddToScheme apiGroup
  | NewCertWatcher string string
  | GetConfigOrDie
  | NewManager managerOptions
  | IndexField kind string
  | CompleteController controllerSetup
  | AddCertWatcher nat
  | AddHealthzCheck string
  | AddReadyzCheck string
  | StartManager

type_synonym startHistory = "startRequest list"

text \<open>
  The library: an error is a text, a certificate watcher a number.  \<open>rt_Flags\<close> are the flags that the
  logger and the client configuration define, with their variables of type \<open>'z\<close>.
\<close>

record 'z runtime =
  rt_Flags :: "(string \<times> bool \<times> (string \<Rightarrow> 'z \<Rightarrow> 'z option)) list"
  rt_FlagDefaults :: 'z
  rt_ClientGoKinds :: "kind list"
  rt_AddToScheme :: "startHistory \<Rightarrow> apiGroup \<Rightarrow> string option"
  rt_NewCertWatcher :: "startHistory \<Rightarrow> string \<Rightarrow> string \<Rightarrow> string + nat"
  rt_GetConfig :: "startHistory \<Rightarrow> string option"
  rt_NewManager :: "startHistory \<Rightarrow> managerOptions \<Rightarrow> string option"
  rt_IndexField :: "startHistory \<Rightarrow> kind \<Rightarrow> string \<Rightarrow> string option"
  rt_Complete :: "startHistory \<Rightarrow> controllerSetup \<Rightarrow> string option"
  rt_AddCertWatcher :: "startHistory \<Rightarrow> nat \<Rightarrow> string option"
  rt_AddHealthzCheck :: "startHistory \<Rightarrow> string \<Rightarrow> string option"
  rt_AddReadyzCheck :: "startHistory \<Rightarrow> string \<Rightarrow> string option"
  rt_Start :: "startHistory \<Rightarrow> string option"

section \<open>The state of a process\<close>

text \<open>The arrays of TLS options and the requests so far.\<close>

record process =
  process_Memory :: tlsMemory
  process_Requests :: startHistory

definition process_init :: process where
  "process_init = \<lparr>process_Memory = \<lparr>cells = (\<lambda>_. None), limit = 0\<rparr>, process_Requests = []\<rparr>"

definition ask :: "startRequest \<Rightarrow> (startHistory \<Rightarrow> 'a) \<Rightarrow> (process, 'a) state" where
  "ask r answer = State (\<lambda>p. (answer (process_Requests p), p\<lparr>process_Requests := process_Requests p @ [r]\<rparr>))"

definition with_memory :: "(tlsMemory, 'a) state \<Rightarrow> (process, 'a) state" where
  "with_memory act = State (\<lambda>p. (case run_state act (process_Memory p) of (x, m) \<Rightarrow> (x, p\<lparr>process_Memory := m\<rparr>)))"

text \<open>A step either ends the process with an exit code or continues with a value.\<close>

definition andThen :: "('s, nat + 'a) state \<Rightarrow> ('a \<Rightarrow> ('s, nat + 'b) state) \<Rightarrow> ('s, nat + 'b) state" where
  "andThen act f = do {
     r \<leftarrow> act;
     (case r of Inl code \<Rightarrow> State_Monad.return (Inl code) | Inr x \<Rightarrow> f x) }"

text \<open>\<open>if err != nil { os.Exit(1) }\<close>\<close>

definition orExit :: "('s, string option) state \<Rightarrow> ('s, nat + unit) state" where
  "orExit act = do {
     err \<leftarrow> act;
     State_Monad.return (case err of Some _ \<Rightarrow> Inl 1 | None \<Rightarrow> Inr ()) }"

fun inOrder :: "('s, nat + unit) state list \<Rightarrow> ('s, nat + unit) state" where
  "inOrder [] = State_Monad.return (Inr ())"
| "inOrder (act # acts) = andThen act (\<lambda>_. inOrder acts)"

lemma run_ask [simp]:
  "run_state (ask r f) p = (f (process_Requests p), p\<lparr>process_Requests := process_Requests p @ [r]\<rparr>)"
  by (simp add: ask_def)

lemma run_with_memory [simp]: "run_state (with_memory act) p =
    (fst (run_state act (process_Memory p)), p\<lparr>process_Memory := snd (run_state act (process_Memory p))\<rparr>)"
  by (simp add: with_memory_def split: prod.splits)

section \<open>SetupWithManager\<close>

text \<open>The first error is the result.\<close>

fun firstError :: "('s, string option) state list \<Rightarrow> ('s, string option) state" where
  "firstError [] = State_Monad.return None"
| "firstError (act # acts) = do {
     err \<leftarrow> act;
     (case err of Some e \<Rightarrow> State_Monad.return (Some e) | None \<Rightarrow> firstError acts) }"

definition podOwnerField :: string where "podOwnerField = ''ownerField''"
definition podTypeField :: string where "podTypeField = ''podTypeField''"
definition gcRegistrationSessionField :: string where "gcRegistrationSessionField = ''gcRegistrationSessionField''"

definition SetupManagerFieldIndexer :: "'z runtime \<Rightarrow> (process, string option) state" where
  "SetupManagerFieldIndexer R = firstError
     [ask (IndexField PodKind podOwnerField) (\<lambda>h. rt_IndexField R h PodKind podOwnerField),
      ask (IndexField PodKind podTypeField) (\<lambda>h. rt_IndexField R h PodKind podTypeField),
      ask (IndexField GCRegistrationKind gcRegistrationSessionField)
        (\<lambda>h. rt_IndexField R h GCRegistrationKind gcRegistrationSessionField)]"

definition sessionSetup :: controllerSetup where
  "sessionSetup = \<lparr>setup_Name = ''session'', setup_For = Some SessionKind, setup_Owns = [PodKind],
     setup_Watches = []\<rparr>"

definition session_SetupWithManager :: "'z runtime \<Rightarrow> (process, string option) state" where
  "session_SetupWithManager R = firstError
     [SetupManagerFieldIndexer R,
      ask (CompleteController sessionSetup) (\<lambda>h. rt_Complete R h sessionSetup)]"

definition gcSetup :: controllerSetup where
  "gcSetup = \<lparr>setup_Name = ''gc'', setup_For = Some GCRegistrationKind, setup_Owns = [], setup_Watches = []\<rparr>"

definition gc_SetupWithManager :: "'z runtime \<Rightarrow> (process, string option) state" where
  "gc_SetupWithManager R = ask (CompleteController gcSetup) (\<lambda>h. rt_Complete R h gcSetup)"

definition networkSetup :: controllerSetup where
  "networkSetup = \<lparr>setup_Name = ''network'', setup_For = None, setup_Owns = [],
     setup_Watches = [ServiceKind, PodKind]\<rparr>"

definition network_SetupWithManager :: "'z runtime \<Rightarrow> (process, string option) state" where
  "network_SetupWithManager R = ask (CompleteController networkSetup) (\<lambda>h. rt_Complete R h networkSetup)"

end
