(* ===== verification/Process_Main.thy ===== *)
theory Process_Main
  imports Process_Start
begin

text \<open>
  \<open>main\<close> of the controller processes, piece by piece in the order of \<open>cmd/main.go\<close>: the schemes, the
  flags, the TLS options of the webhook and metrics servers, the manager, and its start.
\<close>

section \<open>Schemes\<close>

definition groupKinds :: "'z runtime \<Rightarrow> apiGroup \<Rightarrow> kind list" where
  "groupKinds R g = (case g of ClientGoGroup \<Rightarrow> rt_ClientGoKinds R | SessionGroup \<Rightarrow> sessionGroupKinds
     | GCGroup \<Rightarrow> gcGroupKinds)"

text \<open>\<open>utilruntime.Must\<close> panics on an error; a panic ends the process with code 2.\<close>

definition mustAdd :: "'z runtime \<Rightarrow> apiGroup \<Rightarrow> (process, nat + unit) state" where
  "mustAdd R g = do {
     err \<leftarrow> ask (AddToScheme g) (\<lambda>h. rt_AddToScheme R h g);
     State_Monad.return (case err of Some _ \<Rightarrow> Inl 2 | None \<Rightarrow> Inr ()) }"

definition initScheme :: "'z runtime \<Rightarrow> apiGroup list \<Rightarrow> (process, nat + unit) state" where
  "initScheme R groups = inOrder (map (mustAdd R) groups)"

definition schemeKinds :: "'z runtime \<Rightarrow> apiGroup list \<Rightarrow> kind list" where
  "schemeKinds R groups = concat (map (groupKinds R) groups)"

section \<open>Flags\<close>

record managerFlags =
  metricsAddr :: string
  metricsCertPath :: string
  metricsCertName :: string
  metricsCertKey :: string
  webhookCertPath :: string
  webhookCertName :: string
  webhookCertKey :: string
  enableLeaderElection :: bool
  probeAddr :: string
  secureMetrics :: bool
  enableHTTP2 :: bool

definition flagDefaults :: managerFlags where
  "flagDefaults = \<lparr>metricsAddr = ''0'', metricsCertPath = [], metricsCertName = ''tls.crt'',
     metricsCertKey = ''tls.key'', webhookCertPath = [], webhookCertName = ''tls.crt'',
     webhookCertKey = ''tls.key'', enableLeaderElection = False, probeAddr = '':8081'',
     secureMetrics = True, enableHTTP2 = False\<rparr>"

definition managerFlagVars :: "(managerFlags \<times> 'z) flagSet" where
  "managerFlagVars =
     [(''metrics-bind-address'', StringValue (\<lambda>v (f, z). (f\<lparr>metricsAddr := v\<rparr>, z))),
      (''health-probe-bind-address'', StringValue (\<lambda>v (f, z). (f\<lparr>probeAddr := v\<rparr>, z))),
      (''leader-elect'', BoolValue (\<lambda>b (f, z). (f\<lparr>enableLeaderElection := b\<rparr>, z))),
      (''metrics-secure'', BoolValue (\<lambda>b (f, z). (f\<lparr>secureMetrics := b\<rparr>, z))),
      (''webhook-cert-path'', StringValue (\<lambda>v (f, z). (f\<lparr>webhookCertPath := v\<rparr>, z))),
      (''webhook-cert-name'', StringValue (\<lambda>v (f, z). (f\<lparr>webhookCertName := v\<rparr>, z))),
      (''webhook-cert-key'', StringValue (\<lambda>v (f, z). (f\<lparr>webhookCertKey := v\<rparr>, z))),
      (''metrics-cert-path'', StringValue (\<lambda>v (f, z). (f\<lparr>metricsCertPath := v\<rparr>, z))),
      (''metrics-cert-name'', StringValue (\<lambda>v (f, z). (f\<lparr>metricsCertName := v\<rparr>, z))),
      (''metrics-cert-key'', StringValue (\<lambda>v (f, z). (f\<lparr>metricsCertKey := v\<rparr>, z))),
      (''enable-http2'', BoolValue (\<lambda>b (f, z). (f\<lparr>enableHTTP2 := b\<rparr>, z)))]"

text \<open>The flags of the libraries.  A name that is defined twice is a panic.\<close>

definition libraryFlagVars :: "'z runtime \<Rightarrow> (managerFlags \<times> 'z) flagSet" where
  "libraryFlagVars R = map (\<lambda>(n, b, g). (n, OtherValue b (\<lambda>v (f, z). map_option (Pair f) (g v z)))) (rt_Flags R)"

text \<open>\<open>flag.Parse\<close> of the command line: help ends the process with code 0, another error with code 2.\<close>

definition parseCommandLine :: "'z runtime \<Rightarrow> string list \<Rightarrow> nat + managerFlags" where
  "parseCommandLine R args =
     (let fs = managerFlagVars @ libraryFlagVars R in
      if \<not> distinct (map_keys fs) then Inl 2
      else case parseArgs fs (flagDefaults, rt_FlagDefaults R) args of
         Inl HelpRequested \<Rightarrow> Inl 0
       | Inl _ \<Rightarrow> Inl 2
       | Inr ((f, z), rest) \<Rightarrow> Inr f)"

section \<open>TLS options of the servers\<close>

definition initialTLSOpts :: "(nat \<Rightarrow> nat \<Rightarrow> nat) \<Rightarrow> managerFlags \<Rightarrow> (process, slice option) state" where
  "initialTLSOpts grow f =
     (if \<not> enableHTTP2 f then with_memory (appendOption grow None DisableHTTP2)
      else State_Monad.return None)"

text \<open>The watcher of a pair of files, and the options with its certificate at the end.\<close>

definition watchCertificate :: "'z runtime \<Rightarrow> (nat \<Rightarrow> nat \<Rightarrow> nat) \<Rightarrow> string \<Rightarrow> string \<Rightarrow> string \<Rightarrow> slice option
    \<Rightarrow> (process, nat + (slice option \<times> nat option)) state" where
  "watchCertificate R grow path name key opts =
     (if 0 < length path then do {
        let cert = filepathJoin path name;
        let file = filepathJoin path key;
        r \<leftarrow> ask (NewCertWatcher cert file) (\<lambda>h. rt_NewCertWatcher R h cert file);
        (case r of
           Inl _ \<Rightarrow> State_Monad.return (Inl 1)
         | Inr w \<Rightarrow> do {
             opts \<leftarrow> with_memory (appendOption grow opts (GetCertificateOf w));
             State_Monad.return (Inr (opts, Some w)) }) }
      else State_Monad.return (Inr (opts, None)))"

definition webhookTLS :: "'z runtime \<Rightarrow> (nat \<Rightarrow> nat \<Rightarrow> nat) \<Rightarrow> managerFlags \<Rightarrow> slice option
    \<Rightarrow> (process, nat + (slice option \<times> nat option)) state" where
  "webhookTLS R grow f tlsOpts =
     watchCertificate R grow (webhookCertPath f) (webhookCertName f) (webhookCertKey f) tlsOpts"

definition metricsTLS :: "'z runtime \<Rightarrow> (nat \<Rightarrow> nat \<Rightarrow> nat) \<Rightarrow> managerFlags \<Rightarrow> slice option
    \<Rightarrow> (process, nat + (metricsOptions \<times> nat option)) state" where
  "metricsTLS R grow f tlsOpts =
     (let options = \<lparr>metrics_BindAddress = metricsAddr f, metrics_SecureServing = secureMetrics f,
            metrics_TLSOpts = tlsOpts, metrics_FilterProvider = secureMetrics f\<rparr>
      in andThen (watchCertificate R grow (metricsCertPath f) (metricsCertName f) (metricsCertKey f)
             (metrics_TLSOpts options))
           (\<lambda>(opts, w). State_Monad.return (Inr (options\<lparr>metrics_TLSOpts := opts\<rparr>, w))))"

section \<open>The manager\<close>

text \<open>A process: its API groups in the order of \<open>init\<close>, the leader election and its controller.\<close>

record 'z controllerProcess =
  proc_Groups :: "apiGroup list"
  proc_LeaderElectionID :: string
  proc_SetupWithManager :: "'z runtime \<Rightarrow> (process, string option) state"

definition newManager :: "'z runtime \<Rightarrow> managerOptions \<Rightarrow> (process, nat + unit) state" where
  "newManager R options = inOrder
     [orExit (ask GetConfigOrDie (rt_GetConfig R)),
      orExit (ask (NewManager options) (\<lambda>h. rt_NewManager R h options))]"

definition addWatcher :: "'z runtime \<Rightarrow> nat option \<Rightarrow> (process, nat + unit) state" where
  "addWatcher R w = (case w of
     None \<Rightarrow> State_Monad.return (Inr ())
   | Some w \<Rightarrow> orExit (ask (AddCertWatcher w) (\<lambda>h. rt_AddCertWatcher R h w)))"

definition startManager :: "'z runtime \<Rightarrow> 'z controllerProcess \<Rightarrow> nat option \<Rightarrow> nat option \<Rightarrow> (process, nat + unit) state" where
  "startManager R P metricsCertWatcher webhookCertWatcher = inOrder
     [orExit (proc_SetupWithManager P R),
      addWatcher R metricsCertWatcher,
      addWatcher R webhookCertWatcher,
      orExit (ask (AddHealthzCheck ''healthz'') (\<lambda>h. rt_AddHealthzCheck R h ''healthz'')),
      orExit (ask (AddReadyzCheck ''readyz'') (\<lambda>h. rt_AddReadyzCheck R h ''readyz'')),
      orExit (ask StartManager (rt_Start R))]"

section \<open>The process\<close>

definition managerMain :: "'z runtime \<Rightarrow> (nat \<Rightarrow> nat \<Rightarrow> nat) \<Rightarrow> 'z controllerProcess \<Rightarrow> string list
    \<Rightarrow> (process, nat + unit) state" where
  "managerMain R grow P args =
     andThen (State_Monad.return (parseCommandLine R args)) (\<lambda>f. do {
       tlsOpts \<leftarrow> initialTLSOpts grow f;
       andThen (webhookTLS R grow f tlsOpts) (\<lambda>(webhookTLSOpts, webhookCertWatcher).
       andThen (metricsTLS R grow f tlsOpts) (\<lambda>(metricsServerOptions, metricsCertWatcher).
       andThen (newManager R \<lparr>manager_Scheme = schemeKinds R (proc_Groups P),
           manager_Metrics = metricsServerOptions, manager_WebhookTLSOpts = webhookTLSOpts,
           manager_HealthProbeBindAddress = probeAddr f, manager_LeaderElection = enableLeaderElection f,
           manager_LeaderElectionID = proc_LeaderElectionID P\<rparr>) (\<lambda>_.
         startManager R P metricsCertWatcher webhookCertWatcher))) })"

text \<open>The exit code of the whole process; \<open>main\<close> that returns ends with code 0.\<close>

definition runProcess :: "'z runtime \<Rightarrow> (nat \<Rightarrow> nat \<Rightarrow> nat) \<Rightarrow> 'z controllerProcess \<Rightarrow> string list \<Rightarrow> nat \<times> process" where
  "runProcess R grow P args =
     (case run_state (andThen (initScheme R (proc_Groups P)) (\<lambda>_. managerMain R grow P args)) process_init of
        (Inl code, p) \<Rightarrow> (code, p)
      | (Inr _, p) \<Rightarrow> (0, p))"

definition sessionProcess :: "'z controllerProcess" where
  "sessionProcess = \<lparr>proc_Groups = [ClientGoGroup, SessionGroup, GCGroup],
     proc_LeaderElectionID = ''ee3dbf1a.mr.telepresence'', proc_SetupWithManager = session_SetupWithManager\<rparr>"

definition gcProcess :: "'z controllerProcess" where
  "gcProcess = \<lparr>proc_Groups = [ClientGoGroup, GCGroup, SessionGroup],
     proc_LeaderElectionID = ''1da58e50.mr.telepresence'', proc_SetupWithManager = gc_SetupWithManager\<rparr>"

definition networkProcess :: "'z controllerProcess" where
  "networkProcess = \<lparr>proc_Groups = [ClientGoGroup],
     proc_LeaderElectionID = ''6543bbe4.mr.telepresence'', proc_SetupWithManager = network_SetupWithManager\<rparr>"

definition session_main :: "'z runtime \<Rightarrow> (nat \<Rightarrow> nat \<Rightarrow> nat) \<Rightarrow> string list \<Rightarrow> nat \<times> process" where
  "session_main R grow args = runProcess R grow sessionProcess args"

definition gc_main :: "'z runtime \<Rightarrow> (nat \<Rightarrow> nat \<Rightarrow> nat) \<Rightarrow> string list \<Rightarrow> nat \<times> process" where
  "gc_main R grow args = runProcess R grow gcProcess args"

definition network_main :: "'z runtime \<Rightarrow> (nat \<Rightarrow> nat \<Rightarrow> nat) \<Rightarrow> string list \<Rightarrow> nat \<times> process" where
  "network_main R grow args = runProcess R grow networkProcess args"

end
