(* ===== verification/Process_Spec.thy ===== *)
theory Process_Spec
  imports Process_Main
begin

text \<open>
  Lemmas about the start of a process: the flags are read back, an append leaves the other slices alone
  unless it writes into a shared array, and a failed request is the last one.
\<close>

section \<open>Flags\<close>

text \<open>The command line that sets every flag.\<close>

definition renderFlags :: "managerFlags \<Rightarrow> string list" where
  "renderFlags f =
     [renderFlag ''metrics-bind-address'' (metricsAddr f),
      renderFlag ''health-probe-bind-address'' (probeAddr f),
      renderFlag ''leader-elect'' (renderBool (enableLeaderElection f)),
      renderFlag ''metrics-secure'' (renderBool (secureMetrics f)),
      renderFlag ''webhook-cert-path'' (webhookCertPath f),
      renderFlag ''webhook-cert-name'' (webhookCertName f),
      renderFlag ''webhook-cert-key'' (webhookCertKey f),
      renderFlag ''metrics-cert-path'' (metricsCertPath f),
      renderFlag ''metrics-cert-name'' (metricsCertName f),
      renderFlag ''metrics-cert-key'' (metricsCertKey f),
      renderFlag ''enable-http2'' (renderBool (enableHTTP2 f))]"

lemma flag_names_ok: "map_of managerFlagVars name = Some v \<Longrightarrow> flag_name_ok name"
  by (auto simp: managerFlagVars_def flag_name_ok_def split: if_splits)

lemma parse_known:
  assumes "map_of managerFlagVars name = Some v" and "setFlag v text st = Some st'"
  shows "parseArgs (managerFlagVars @ lib) st (renderFlag name text # args) = parseArgs (managerFlagVars @ lib) st' args"
proof (rule parse_rendered)
  show "flag_name_ok name" using assms(1) by (rule flag_names_ok)
  show "map_of (managerFlagVars @ lib) name = Some v" using assms(1) by simp
qed (rule assms(2))

lemma parse_renderFlags:
  fixes z :: 'z
  shows "parseArgs (managerFlagVars @ lib) (g, z) (renderFlags f @ args) =
    parseArgs (managerFlagVars @ lib) (f, z) args"
proof -
  have vars: "map_of managerFlagVars ''metrics-bind-address'' = Some (StringValue (\<lambda>v (f, z). (f\<lparr>metricsAddr := v\<rparr>, z :: 'z)))"
    "map_of managerFlagVars ''health-probe-bind-address'' = Some (StringValue (\<lambda>v (f, z). (f\<lparr>probeAddr := v\<rparr>, z :: 'z)))"
    "map_of managerFlagVars ''leader-elect'' = Some (BoolValue (\<lambda>b (f, z). (f\<lparr>enableLeaderElection := b\<rparr>, z :: 'z)))"
    "map_of managerFlagVars ''metrics-secure'' = Some (BoolValue (\<lambda>b (f, z). (f\<lparr>secureMetrics := b\<rparr>, z :: 'z)))"
    "map_of managerFlagVars ''webhook-cert-path'' = Some (StringValue (\<lambda>v (f, z). (f\<lparr>webhookCertPath := v\<rparr>, z :: 'z)))"
    "map_of managerFlagVars ''webhook-cert-name'' = Some (StringValue (\<lambda>v (f, z). (f\<lparr>webhookCertName := v\<rparr>, z :: 'z)))"
    "map_of managerFlagVars ''webhook-cert-key'' = Some (StringValue (\<lambda>v (f, z). (f\<lparr>webhookCertKey := v\<rparr>, z :: 'z)))"
    "map_of managerFlagVars ''metrics-cert-path'' = Some (StringValue (\<lambda>v (f, z). (f\<lparr>metricsCertPath := v\<rparr>, z :: 'z)))"
    "map_of managerFlagVars ''metrics-cert-name'' = Some (StringValue (\<lambda>v (f, z). (f\<lparr>metricsCertName := v\<rparr>, z :: 'z)))"
    "map_of managerFlagVars ''metrics-cert-key'' = Some (StringValue (\<lambda>v (f, z). (f\<lparr>metricsCertKey := v\<rparr>, z :: 'z)))"
    "map_of managerFlagVars ''enable-http2'' = Some (BoolValue (\<lambda>b (f, z). (f\<lparr>enableHTTP2 := b\<rparr>, z :: 'z)))"
    by (simp_all add: managerFlagVars_def)
  show ?thesis unfolding renderFlags_def
    by (simp add: parse_known vars setFlag_def del: parseArgs.simps(2))
      (cases f, cases g, simp del: parseArgs.simps(2))
qed

lemma parseCommandLine_rendered:
  assumes "distinct (map_keys (managerFlagVars @ libraryFlagVars R))"
  shows "parseCommandLine R (renderFlags f) = Inr f"
  using assms parse_renderFlags [of "libraryFlagVars R" flagDefaults "rt_FlagDefaults R" f "[]"]
  by (simp add: parseCommandLine_def Let_def)

text \<open>
  A command line that sets some of the flags, in any order and also twice: the last text given for a flag
  counts, and a flag that is left out has its default.
\<close>

definition given :: "(string \<times> string) list \<Rightarrow> string \<Rightarrow> string \<Rightarrow> string" where
  "given ss name d = (case map_of (rev ss) name of None \<Rightarrow> d | Some text \<Rightarrow> text)"

definition given_bool :: "(string \<times> string) list \<Rightarrow> string \<Rightarrow> bool \<Rightarrow> bool" where
  "given_bool ss name d = (case Option.bind (map_of (rev ss) name) parseBool of None \<Rightarrow> d | Some b \<Rightarrow> b)"

definition flags_of :: "(string \<times> string) list \<Rightarrow> managerFlags" where
  "flags_of ss = \<lparr>metricsAddr = given ss ''metrics-bind-address'' ''0'',
     metricsCertPath = given ss ''metrics-cert-path'' [],
     metricsCertName = given ss ''metrics-cert-name'' ''tls.crt'',
     metricsCertKey = given ss ''metrics-cert-key'' ''tls.key'',
     webhookCertPath = given ss ''webhook-cert-path'' [],
     webhookCertName = given ss ''webhook-cert-name'' ''tls.crt'',
     webhookCertKey = given ss ''webhook-cert-key'' ''tls.key'',
     enableLeaderElection = given_bool ss ''leader-elect'' False,
     probeAddr = given ss ''health-probe-bind-address'' '':8081'',
     secureMetrics = given_bool ss ''metrics-secure'' True,
     enableHTTP2 = given_bool ss ''enable-http2'' False\<rparr>"

definition string_flags :: "string list" where
  "string_flags = [''metrics-bind-address'', ''health-probe-bind-address'', ''webhook-cert-path'', ''webhook-cert-name'',
     ''webhook-cert-key'', ''metrics-cert-path'', ''metrics-cert-name'', ''metrics-cert-key'']"

definition bool_flags :: "string list" where
  "bool_flags = [''leader-elect'', ''metrics-secure'', ''enable-http2'']"

definition settings_ok :: "(string \<times> string) list \<Rightarrow> bool" where
  "settings_ok ss \<longleftrightarrow> list_all (\<lambda>(name, text). name \<in> set string_flags \<or> name \<in> set bool_flags \<and> parseBool text \<noteq> None) ss"

lemma given_snoc [simp]: "given (ss @ [(n, text)]) name d = (if name = n then text else given ss name d)"
  "given_bool (ss @ [(n, text)]) name e =
     (if name = n then (case parseBool text of None \<Rightarrow> e | Some b \<Rightarrow> b) else given_bool ss name e)"
  by (simp_all add: given_def given_bool_def)

lemma flags_of_Nil: "flags_of [] = flagDefaults"
  by (simp add: flags_of_def flagDefaults_def given_def given_bool_def)

lemma setting_set:
  fixes z :: 'z
  assumes "name \<in> set string_flags \<or> name \<in> set bool_flags \<and> parseBool text \<noteq> None"
  shows "\<exists>v. map_of managerFlagVars name = Some v \<and> setFlag v text (flags_of ss, z) = Some (flags_of (ss @ [(name, text)]), z)"
  using assms
proof
  assume "name \<in> set string_flags"
  then show ?thesis unfolding string_flags_def set_simps insert_iff
    by (elim disjE) (simp_all add: managerFlagVars_def setFlag_def flags_of_def)
next
  assume bool: "name \<in> set bool_flags \<and> parseBool text \<noteq> None"
  then obtain b where "parseBool text = Some b" by blast
  with conjunct1 [OF bool] show ?thesis unfolding bool_flags_def set_simps insert_iff
    by (elim disjE) (simp_all add: managerFlagVars_def setFlag_def flags_of_def)
qed

lemma parse_settings:
  fixes z :: 'z
  assumes "settings_ok ss"
  shows "parseArgs (managerFlagVars @ lib) (flagDefaults, z) (map (\<lambda>(name, text). renderFlag name text) ss @ args) =
    parseArgs (managerFlagVars @ lib) (flags_of ss, z) args"
  using assms
proof (induction ss arbitrary: args rule: rev_induct)
  case Nil
  then show ?case by (simp add: flags_of_Nil)
next
  case (snoc s ss)
  obtain name t where s: "s = (name, t)" by force
  with snoc.prems have "name \<in> set string_flags \<or> name \<in> set bool_flags \<and> parseBool t \<noteq> None" and ok: "settings_ok ss"
    by (simp_all add: settings_ok_def)
  from setting_set [OF this(1), of ss z] obtain v where "map_of managerFlagVars name = Some v"
    "setFlag v t (flags_of ss, z) = Some (flags_of (ss @ [(name, t)]), z)" by blast
  from parse_known [OF this] snoc.IH [OF ok, of "renderFlag name t # args"] show ?case by (simp add: s)
qed

text \<open>What ends the flags: an argument that is none, a name without a flag, and a wrong text for a boolean.\<close>

lemma parse_stop: "\<not> isFlag arg \<Longrightarrow> parseArgs fs st (arg # args) = Inr (st, arg # args)"
  by simp

lemma parse_undefined:
  assumes "flag_name_ok name" and "map_of fs name = None"
  shows "parseArgs fs st ((''--'' @ name) # args) = Inl (if name \<in> {''help'', ''h''} then HelpRequested else NotDefined)"
proof -
  have "undash (''--'' @ name) = name" "isFlag (''--'' @ name)" "''--'' @ name \<noteq> ''--''"
    "name \<noteq> []" "hd name \<notin> {CHR ''-'', CHR ''=''}" "splitValue name = (name, None)"
    using assms(1) by (cases name; auto simp: flag_name_ok_def undash_def isFlag_def splitValue_def index_of_absent)+
  with assms(2) show ?thesis by simp
qed

lemma parse_bad_bool:
  fixes z :: 'z
  assumes "name \<in> set bool_flags" and "parseBool text = None"
  shows "parseArgs (managerFlagVars @ lib) (f, z) (renderFlag name text # args) = Inl InvalidValue"
proof -
  obtain g where v: "map_of managerFlagVars name = Some (BoolValue g :: (managerFlags \<times> 'z) flagValue)"
    using assms(1) unfolding bool_flags_def set_simps insert_iff by (elim disjE) (simp_all add: managerFlagVars_def)
  then have "flag_name_ok name" by (rule flag_names_ok)
  then have "hd (name @ ''='' @ text) \<notin> {CHR ''-'', CHR ''=''}" "name @ ''='' @ text \<noteq> []" "CHR ''='' \<notin> set name"
    by (cases name; auto simp: flag_name_ok_def)+
  moreover from this(3) have "splitValue (name @ ''='' @ text) = (name, Some text)" by (simp add: split_rendered)
  moreover have "undash (renderFlag name text) = name @ ''='' @ text" "isFlag (renderFlag name text)"
    "renderFlag name text \<noteq> ''--''" by (simp_all add: undash_def isFlag_def renderFlag_def)
  ultimately show ?thesis using v assms(2) by (simp add: setFlag_def isBoolFlag_def)
qed

section \<open>The options of the two servers\<close>

text \<open>The appends of \<open>main\<close> alone: first the common options, then those of the webhook, then the metrics.\<close>

definition appendCertificate :: "(nat \<Rightarrow> nat \<Rightarrow> nat) \<Rightarrow> slice option \<Rightarrow> nat option \<Rightarrow> (tlsMemory, slice option) state" where
  "appendCertificate grow opts w = (case w of
     None \<Rightarrow> State_Monad.return opts
   | Some w \<Rightarrow> appendOption grow opts (GetCertificateOf w))"

definition emptyMemory :: tlsMemory where
  "emptyMemory = \<lparr>cells = (\<lambda>_. None), limit = 0\<rparr>"

definition serverOptions :: "(nat \<Rightarrow> nat \<Rightarrow> nat) \<Rightarrow> bool \<Rightarrow> nat option \<Rightarrow> nat option
    \<Rightarrow> (tlsMemory, slice option \<times> slice option) state" where
  "serverOptions grow http2 w v = do {
     opts \<leftarrow> (if \<not> http2 then appendOption grow None DisableHTTP2 else State_Monad.return None);
     webhook \<leftarrow> appendCertificate grow opts w;
     metrics \<leftarrow> appendCertificate grow opts v;
     State_Monad.return (webhook, metrics) }"

text \<open>The options that are meant: HTTP/2 disabled unless it is enabled, and the own certificate.\<close>

definition ownOptions :: "bool \<Rightarrow> nat option \<Rightarrow> tlsOption list" where
  "ownOptions http2 w = (if http2 then [] else [DisableHTTP2]) @
     (case w of None \<Rightarrow> [] | Some w \<Rightarrow> [GetCertificateOf w])"

text \<open>
  The first append of \<open>main\<close> leaves room behind its element when \<open>grow 0 1\<close> is more than one; then the two
  later appends write to the same place.
\<close>

lemma serverOptions_exact:
  assumes enough: "grows_enough grow" and run: "run_state (serverOptions grow http2 w v) emptyMemory = ((webhook, metrics), m)"
  shows "tlsOptions m metrics = ownOptions http2 v" and
    "tlsOptions m webhook = ownOptions http2 (if \<not> http2 \<and> 1 < grow 0 1 \<and> w \<noteq> None \<and> v \<noteq> None then v else w)"
proof -
  note simps = serverOptions_def appendCertificate_def appendOption_def append_one_def emptyMemory_def
    slice_list_def slice_items_def contents_def ownOptions_def Let_def
  let ?r = "run_state (serverOptions grow http2 w v) emptyMemory"
  have "tlsOptions (snd ?r) (snd (fst ?r)) = ownOptions http2 v \<and>
    tlsOptions (snd ?r) (fst (fst ?r)) = ownOptions http2 (if \<not> http2 \<and> 1 < grow 0 1 \<and> w \<noteq> None \<and> v \<noteq> None then v else w)"
  proof (cases http2)
    case True
    then show ?thesis by (cases w; cases v) (simp_all add: simps)
  next
    case False
    have "1 \<le> grow 0 1" using enough by (simp add: grows_enough_def)
    then consider "grow 0 1 = 1" | k where "grow 0 1 = Suc (Suc k)" by (metis One_nat_def Suc_le_D not0_implies_Suc)
    then show ?thesis by cases (cases w; cases v; simp add: False simps)+
  qed
  with run show "tlsOptions m metrics = ownOptions http2 v" and
    "tlsOptions m webhook = ownOptions http2 (if \<not> http2 \<and> 1 < grow 0 1 \<and> w \<noteq> None \<and> v \<noteq> None then v else w)"
    by simp_all
qed

text \<open>What the own options make of a configuration.\<close>

definition ownConfig :: "bool \<Rightarrow> nat option \<Rightarrow> tlsConfig \<Rightarrow> tlsConfig" where
  "ownConfig http2 w c = c\<lparr>tls_NextProtos := (if http2 then tls_NextProtos c else [''http/1.1'']),
     tls_GetCertificate := (case w of None \<Rightarrow> tls_GetCertificate c | Some w \<Rightarrow> Some w)\<rparr>"

lemma fold_ownOptions: "fold applyOption (ownOptions http2 w) c = ownConfig http2 w c"
  by (simp add: ownOptions_def ownConfig_def applyOption_def split: option.split)

section \<open>Errors end the start\<close>

text \<open>The answer to a request is an error.\<close>

fun fails :: "'z runtime \<Rightarrow> startHistory \<Rightarrow> startRequest \<Rightarrow> bool" where
  "fails R h (AddToScheme g) = (rt_AddToScheme R h g \<noteq> None)"
| "fails R h (NewCertWatcher cert file) = isl (rt_NewCertWatcher R h cert file)"
| "fails R h GetConfigOrDie = (rt_GetConfig R h \<noteq> None)"
| "fails R h (NewManager options) = (rt_NewManager R h options \<noteq> None)"
| "fails R h (IndexField k n) = (rt_IndexField R h k n \<noteq> None)"
| "fails R h (CompleteController s) = (rt_Complete R h s \<noteq> None)"
| "fails R h (AddCertWatcher w) = (rt_AddCertWatcher R h w \<noteq> None)"
| "fails R h (AddHealthzCheck n) = (rt_AddHealthzCheck R h n \<noteq> None)"
| "fails R h (AddReadyzCheck n) = (rt_AddReadyzCheck R h n \<noteq> None)"
| "fails R h StartManager = (rt_Start R h \<noteq> None)"

text \<open>
  A step with the result \<open>x\<close> that made the requests \<open>t\<close> is checked when none of its requests failed, except
  the last one, in which case the step failed.
\<close>

definition checked_run :: "'z runtime \<Rightarrow> startHistory \<Rightarrow> startHistory \<Rightarrow> bool \<Rightarrow> bool" where
  "checked_run R h t failed \<longleftrightarrow> (\<forall>u r v. t = u @ r # v \<longrightarrow> fails R (h @ u) r \<longrightarrow> v = [] \<and> failed)"

definition checked :: "'z runtime \<Rightarrow> ('a \<Rightarrow> bool) \<Rightarrow> (process, 'a) state \<Rightarrow> bool" where
  "checked R failed act \<longleftrightarrow> (\<forall>p. \<exists>t. process_Requests (snd (run_state act p)) = process_Requests p @ t \<and>
     checked_run R (process_Requests p) t (failed (fst (run_state act p))))"

lemma checked_run_Nil [simp]: "checked_run R h [] f"
  by (simp add: checked_run_def)

lemma checked_run_append:
  assumes "checked_run R h t False" and "checked_run R (h @ t) u f"
  shows "checked_run R h (t @ u) f"
  unfolding checked_run_def
proof (intro allI impI)
  fix a r b
  assume eq: "t @ u = a @ r # b" and fail: "fails R (h @ a) r"
  consider c where "a = t @ c" "u = c @ r # b" | c where "t = a @ r # c" "b = c @ u"
  proof -
    from eq obtain us where us: "t = a @ us \<and> us @ u = r # b \<or> t @ us = a \<and> u = us @ r # b"
      unfolding append_eq_append_conv2 by blast
    show thesis
    proof (cases us)
      case Nil
      with us that(1) [of "[]"] show ?thesis by auto
    next
      case (Cons x xs)
      with us that(1) [of us] that(2) [of xs] show ?thesis by auto
    qed
  qed
  then show "b = [] \<and> f"
    by cases (use assms fail in \<open>auto simp: checked_run_def\<close>)
qed

lemma checked_return [intro]: "checked R failed (State_Monad.return x)"
  by (simp add: checked_def)

lemma checked_memory [intro]: "checked R failed (with_memory act)"
  by (simp add: checked_def)

lemma checked_bind:
  assumes "checked R (\<lambda>_. False) act" and "\<And>x. checked R failed (f x)"
  shows "checked R failed (act \<bind> f)"
  unfolding checked_def
proof
  fix p
  obtain x q where r: "run_state act p = (x, q)" by force
  from assms(1) r obtain t where t: "process_Requests q = process_Requests p @ t"
    "checked_run R (process_Requests p) t False" unfolding checked_def by (metis fst_conv snd_conv)
  from assms(2) [of x] obtain u where u: "process_Requests (snd (run_state (f x) q)) = process_Requests q @ u"
    "checked_run R (process_Requests q) u (failed (fst (run_state (f x) q)))" unfolding checked_def by blast
  show "\<exists>t. process_Requests (snd (run_state (act \<bind> f) p)) = process_Requests p @ t \<and>
      checked_run R (process_Requests p) t (failed (fst (run_state (act \<bind> f) p)))"
    using t u checked_run_append [OF t(2), of u] by (intro exI [of _ "t @ u"]) (simp add: r)
qed

definition nonzero :: "nat + 'a \<Rightarrow> bool" where
  "nonzero r = (case r of Inl code \<Rightarrow> code \<noteq> 0 | Inr _ \<Rightarrow> False)"

lemma nonzero_simps [simp]: "nonzero (Inl c) \<longleftrightarrow> c \<noteq> 0" "\<not> nonzero (Inr x)"
  by (simp_all add: nonzero_def)

lemma checked_andThen [intro]:
  assumes act: "checked R nonzero act" and f: "\<And>x. checked R nonzero (f x)"
  shows "checked R nonzero (andThen act f)"
  unfolding checked_def
proof
  fix p
  obtain x q where r: "run_state act p = (x, q)" by force
  from act r obtain t where t: "process_Requests q = process_Requests p @ t"
    "checked_run R (process_Requests p) t (nonzero x)" unfolding checked_def by (metis fst_conv snd_conv)
  show "\<exists>t. process_Requests (snd (run_state (andThen act f) p)) = process_Requests p @ t \<and>
      checked_run R (process_Requests p) t (nonzero (fst (run_state (andThen act f) p)))"
  proof (cases x)
    case (Inl code)
    with t r show ?thesis by (simp add: andThen_def)
  next
    case (Inr y)
    from f [of y] obtain u where u: "process_Requests (snd (run_state (f y) q)) = process_Requests q @ u"
      "checked_run R (process_Requests q) u (nonzero (fst (run_state (f y) q)))" unfolding checked_def by blast
    have "checked_run R (process_Requests p) t False" using t(2) Inr by simp
    from checked_run_append [OF this, of u] show ?thesis
      using t u Inr r by (intro exI [of _ "t @ u"]) (simp add: andThen_def)
  qed
qed

lemma checked_inOrder [intro]: "(\<And>act. act \<in> set acts \<Longrightarrow> checked R nonzero act) \<Longrightarrow> checked R nonzero (inOrder acts)"
  by (induction acts) auto

lemma checked_firstError [intro]:
  "(\<And>act. act \<in> set acts \<Longrightarrow> checked R (\<lambda>e. e \<noteq> None) act) \<Longrightarrow> checked R (\<lambda>e. e \<noteq> None) (firstError acts)"
proof (induction acts)
  case Nil
  then show ?case by auto
next
  case (Cons act acts)
  show ?case unfolding checked_def
  proof
    fix p
    obtain x q where r: "run_state act p = (x, q)" by force
    from Cons.prems [of act] r obtain t where t: "process_Requests q = process_Requests p @ t"
      "checked_run R (process_Requests p) t (x \<noteq> None)" unfolding checked_def by (metis fst_conv snd_conv list.set_intros(1))
    show "\<exists>t. process_Requests (snd (run_state (firstError (act # acts)) p)) = process_Requests p @ t \<and>
      checked_run R (process_Requests p) t (fst (run_state (firstError (act # acts)) p) \<noteq> None)"
    proof (cases x)
      case (Some e)
      with t r show ?thesis by simp
    next
      case None
      have "checked R (\<lambda>e. e \<noteq> None) (firstError acts)" using Cons by auto
      then obtain u where u: "process_Requests (snd (run_state (firstError acts) q)) = process_Requests q @ u"
        "checked_run R (process_Requests q) u (fst (run_state (firstError acts) q) \<noteq> None)" unfolding checked_def by blast
      have "checked_run R (process_Requests p) t False" using t(2) None by simp
      from checked_run_append [OF this, of u] show ?thesis using t u None r by (intro exI [of _ "t @ u"]) simp
    qed
  qed
qed

lemma checked_orExit [intro]: "checked R (\<lambda>e. e \<noteq> None) act \<Longrightarrow> checked R nonzero (orExit act)"
proof -
  assume act: "checked R (\<lambda>e. e \<noteq> None) act"
  have "snd (run_state (orExit act) p) = snd (run_state act p)"
    "nonzero (fst (run_state (orExit act) p)) \<longleftrightarrow> fst (run_state act p) \<noteq> None" for p
    by (simp_all add: orExit_def split: prod.split option.split)
  with act show ?thesis by (simp add: checked_def)
qed

lemma checked_ask:
  assumes "\<And>h. failed (f h) \<longleftrightarrow> fails R h r"
  shows "checked R failed (ask r f)"
  using assms by (auto simp: checked_def checked_run_def Cons_eq_append_conv)

end
