(* ===== verification/Request_Logic.thy ===== *)
theory Request_Logic
  imports Kube
begin

text \<open>
  A small logic of requests: \<open>makes log P act\<close> says that whatever the answers are, an action appends only
  requests with the property \<open>P\<close> to the log of its state.  The rules follow the structure of an action,
  so that a handler is checked call by call.
\<close>

definition makes :: "('s \<Rightarrow> 'r list) \<Rightarrow> ('r \<Rightarrow> bool) \<Rightarrow> ('s, 'a) state \<Rightarrow> bool" where
  "makes log P act \<longleftrightarrow> (\<forall>s. \<exists>t. log (snd (run_state act s)) = log s @ t \<and> list_all P t)"

named_theorems makes_intros \<open>the rules of the logic and the handlers already checked\<close>

lemma makesD:
  "makes log P act \<Longrightarrow> run_state act s = (x, s') \<Longrightarrow> \<exists>t. log s' = log s @ t \<and> list_all P t"
  unfolding makes_def by (metis snd_conv)

lemma makes_mono: "makes log P act \<Longrightarrow> (\<And>r. P r \<Longrightarrow> Q r) \<Longrightarrow> makes log Q act"
  unfolding makes_def list_all_iff by metis

lemma makes_return [makes_intros]: "makes log P (State_Monad.return x)"
  by (simp add: makes_def)

lemma makes_bind [makes_intros]:
  assumes "makes log P act" and "\<And>x. makes log P (f x)"
  shows "makes log P (act \<bind> f)"
  unfolding makes_def
proof
  fix s
  obtain x s1 where r: "run_state act s = (x, s1)" by force
  from makesD [OF assms(1) r] obtain t where "log s1 = log s @ t" "list_all P t" by blast
  moreover from assms(2) obtain u where "log (snd (run_state (f x) s1)) = log s1 @ u" "list_all P u"
    unfolding makes_def by blast
  ultimately show "\<exists>t. log (snd (run_state (act \<bind> f) s)) = log s @ t \<and> list_all P t"
    by (intro exI [of _ "t @ u"]) (simp add: r)
qed

lemma makes_if [makes_intros]:
  "(b \<Longrightarrow> makes log P act) \<Longrightarrow> (\<not> b \<Longrightarrow> makes log P act') \<Longrightarrow> makes log P (if b then act else act')"
  by simp

lemma makes_option [makes_intros]:
  "(x = None \<Longrightarrow> makes log P act) \<Longrightarrow> (\<And>y. x = Some y \<Longrightarrow> makes log P (f y)) \<Longrightarrow>
    makes log P (case x of None \<Rightarrow> act | Some y \<Rightarrow> f y)"
  by (cases x) simp_all

lemma makes_sum [makes_intros]:
  "(\<And>y. x = Inl y \<Longrightarrow> makes log P (f y)) \<Longrightarrow> (\<And>z. x = Inr z \<Longrightarrow> makes log P (g z)) \<Longrightarrow>
    makes log P (case x of Inl y \<Rightarrow> f y | Inr z \<Rightarrow> g z)"
  by (cases x) simp_all

lemma makes_prod [makes_intros]:
  "(\<And>y z. x = (y, z) \<Longrightarrow> makes log P (f y z)) \<Longrightarrow> makes log P (case x of (y, z) \<Rightarrow> f y z)"
  by (cases x) simp

lemma makes_let [makes_intros]: "makes log P (f x) \<Longrightarrow> makes log P (Let x f)"
  by simp

section \<open>Handlers of the API server\<close>

text \<open>The state of a handler is its log.\<close>

abbreviation makes_io :: "('r \<Rightarrow> bool) \<Rightarrow> ('r list, 'a) state \<Rightarrow> bool" where
  "makes_io \<equiv> makes (\<lambda>h. h)"

lemma makes_call [makes_intros]: "P r \<Longrightarrow> makes_io P (call r f)"
  by (simp add: makes_def)

lemma makes_peek [makes_intros]: "makes_io P (peek f)"
  by (simp add: makes_def)

lemma makes_for_each [makes_intros]:
  "(\<And>x. x \<in> set xs \<Longrightarrow> makes_io P (f x)) \<Longrightarrow> makes_io P (for_each f xs)"
  by (induction xs) (auto intro!: makes_intros)

end
