(* ===== verification/Process_Order.thy ===== *)
theory Process_Order
  imports Process_Spec Request_Logic
begin

text \<open>
  The order of the requests of a process: a run that reaches the start of its manager has passed every
  step before it, so that its requests, its options and its exit code are known.
\<close>

section \<open>The order of the start\<close>

abbreviation "asks \<equiv> makes process_Requests"

lemma asks_ask [makes_intros]: "P r \<Longrightarrow> asks P (ask r f)"
  by (simp add: makes_def)

lemma asks_memory [makes_intros]: "asks P (with_memory act)"
  by (simp add: makes_def)

lemma asks_andThen [makes_intros]: "asks P act \<Longrightarrow> (\<And>x. asks P (f x)) \<Longrightarrow> asks P (andThen act f)"
  unfolding andThen_def by (intro makes_intros)

lemma asks_orExit [makes_intros]: "asks P act \<Longrightarrow> asks P (orExit act)"
  unfolding orExit_def by (intro makes_intros)

lemma asks_inOrder [makes_intros]: "(\<And>act. act \<in> set acts \<Longrightarrow> asks P act) \<Longrightarrow> asks P (inOrder acts)"
  by (induction acts) (auto intro!: makes_intros)

text \<open>To reach a request that the first step does not make, the first step must continue.\<close>

lemma andThen_reach:
  assumes "run_state (andThen act f) p = (r, q)" and "asks (\<lambda>s. s \<noteq> x) act"
    and "x \<in> set (process_Requests q)" and "x \<notin> set (process_Requests p)"
  obtains y p1 where "run_state act p = (Inr y, p1)" "run_state (f y) p1 = (r, q)" "x \<notin> set (process_Requests p1)"
proof -
  obtain z p1 where z: "run_state act p = (z, p1)" by force
  from makesD [OF assms(2) z] assms(4) have new: "x \<notin> set (process_Requests p1)" by (auto simp: list_all_iff)
  show thesis
  proof (cases z)
    case (Inl c)
    with assms(1) z have "q = p1" by (simp add: andThen_def)
    with new assms(3) show ?thesis by blast
  next
    case (Inr y)
    with that [of y p1] z assms(1) new show ?thesis by (simp add: andThen_def)
  qed
qed

lemma andThen_reach_pair:
  assumes "run_state (andThen act (\<lambda>(y, z). f y z)) p = (r, q)" and "asks (\<lambda>s. s \<noteq> x) act"
    and "x \<in> set (process_Requests q)" and "x \<notin> set (process_Requests p)"
  obtains y z p1 where "run_state act p = (Inr (y, z), p1)" "run_state (f y z) p1 = (r, q)"
    "x \<notin> set (process_Requests p1)"
  using assms by (rule andThen_reach) (auto split: prod.splits)

lemma andThen_assoc: "andThen (andThen act f) g = andThen act (\<lambda>x. andThen (f x) g)"
  by (rule state.expand, rule ext) (simp add: andThen_def split: prod.split sum.split)

lemma andThen_return_left [simp]: "andThen (State_Monad.return (Inr x)) f = f x"
  by (rule state.expand, rule ext) (simp add: andThen_def)

lemma inOrder_append: "inOrder (acts @ acts') = andThen (inOrder acts) (\<lambda>_. inOrder acts')"
  by (induction acts) (simp_all add: andThen_assoc)

lemma andThen_return:
  assumes "run_state (andThen act f) p = (Inr u, q)"
  obtains y p1 where "run_state act p = (Inr y, p1)" "run_state (f y) p1 = (Inr u, q)"
  using assms by (auto simp: andThen_def split: prod.splits sum.splits)

text \<open>The requests of a step that continues, and the only change that it makes.\<close>

definition passes :: "(process, nat + 'a) state \<Rightarrow> startRequest list \<Rightarrow> bool" where
  "passes act rs \<longleftrightarrow> (\<forall>p x q. run_state act p = (Inr x, q) \<longrightarrow> q = p\<lparr>process_Requests := process_Requests p @ rs\<rparr>)"

lemma passesD: "passes act rs \<Longrightarrow> run_state act p = (Inr x, q) \<Longrightarrow> q = p\<lparr>process_Requests := process_Requests p @ rs\<rparr>"
  by (simp add: passes_def)

lemma passes_return [simp]: "passes (State_Monad.return x) []"
  by (simp add: passes_def)

lemma passes_ask [simp]: "passes (orExit (ask r f)) [r]"
  by (simp add: passes_def orExit_def split: option.split)

lemma passes_andThen:
  assumes "passes act rs" and "\<And>x. passes (f x) rs'"
  shows "passes (andThen act f) (rs @ rs')"
  unfolding passes_def
proof (intro allI impI)
  fix p x q
  assume "run_state (andThen act f) p = (Inr x, q)"
  then obtain y p1 where "run_state act p = (Inr y, p1)" "run_state (f y) p1 = (Inr x, q)" by (rule andThen_return)
  with passesD [OF assms(1)] passesD [OF assms(2)] show "q = p\<lparr>process_Requests := process_Requests p @ rs @ rs'\<rparr>"
    by fastforce
qed

lemma passes_inOrder: "list_all2 passes acts rss \<Longrightarrow> passes (inOrder acts) (concat rss)"
  by (induction acts rss rule: list_all2_induct) (auto intro: passes_andThen)

text \<open>The setup of a controller makes a fixed list of requests when it succeeds.\<close>

definition sets_up :: "'z runtime \<Rightarrow> 'z controllerProcess \<Rightarrow> startRequest list \<Rightarrow> bool" where
  "sets_up R P rs \<longleftrightarrow> asks (\<lambda>r. r \<in> set rs) (proc_SetupWithManager P R) \<and>
     passes (orExit (proc_SetupWithManager P R)) rs"

text \<open>The requests of a certificate watcher, and those of the whole start.\<close>

definition certRequests :: "string \<Rightarrow> string \<Rightarrow> string \<Rightarrow> startRequest list" where
  "certRequests path name key =
     (if path = [] then [] else [NewCertWatcher (filepathJoin path name) (filepathJoin path key)])"

text \<open>The watcher that the library answers for a pair of files, when a path is given.\<close>

definition watcherOf :: "'z runtime \<Rightarrow> startHistory \<Rightarrow> string \<Rightarrow> string \<Rightarrow> string \<Rightarrow> nat option" where
  "watcherOf R h path name key =
     (if path = [] then None
      else case rt_NewCertWatcher R h (filepathJoin path name) (filepathJoin path key) of
        Inl _ \<Rightarrow> None
      | Inr w \<Rightarrow> Some w)"

abbreviation addsWatcher :: "nat option \<Rightarrow> startRequest list" where
  "addsWatcher w \<equiv> map AddCertWatcher (case w of None \<Rightarrow> [] | Some w \<Rightarrow> [w])"

definition schemeRequests :: "'z controllerProcess \<Rightarrow> startRequest list" where
  "schemeRequests P = map AddToScheme (proc_Groups P)"

definition webhookWatcher :: "'z runtime \<Rightarrow> 'z controllerProcess \<Rightarrow> managerFlags \<Rightarrow> nat option" where
  "webhookWatcher R P f = watcherOf R (schemeRequests P) (webhookCertPath f) (webhookCertName f) (webhookCertKey f)"

definition metricsWatcher :: "'z runtime \<Rightarrow> 'z controllerProcess \<Rightarrow> managerFlags \<Rightarrow> nat option" where
  "metricsWatcher R P f =
     watcherOf R (schemeRequests P @ certRequests (webhookCertPath f) (webhookCertName f) (webhookCertKey f))
       (metricsCertPath f) (metricsCertName f) (metricsCertKey f)"

text \<open>The options of the manager, with the two lists of TLS options.\<close>

definition managerOptionsOf :: "'z runtime \<Rightarrow> 'z controllerProcess \<Rightarrow> managerFlags \<Rightarrow> slice option \<Rightarrow> slice option
    \<Rightarrow> managerOptions" where
  "managerOptionsOf R P f webhook metrics =
     \<lparr>manager_Scheme = schemeKinds R (proc_Groups P),
      manager_Metrics = \<lparr>metrics_BindAddress = metricsAddr f, metrics_SecureServing = secureMetrics f,
        metrics_TLSOpts = metrics, metrics_FilterProvider = secureMetrics f\<rparr>,
      manager_WebhookTLSOpts = webhook, manager_HealthProbeBindAddress = probeAddr f,
      manager_LeaderElection = enableLeaderElection f, manager_LeaderElectionID = proc_LeaderElectionID P\<rparr>"

definition startRequests :: "'z runtime \<Rightarrow> 'z controllerProcess \<Rightarrow> managerFlags \<Rightarrow> managerOptions
    \<Rightarrow> startRequest list \<Rightarrow> startRequest list" where
  "startRequests R P f options set_up =
     schemeRequests P @
     certRequests (webhookCertPath f) (webhookCertName f) (webhookCertKey f) @
     certRequests (metricsCertPath f) (metricsCertName f) (metricsCertKey f) @
     [GetConfigOrDie, NewManager options] @ set_up @
     addsWatcher (metricsWatcher R P f) @ addsWatcher (webhookWatcher R P f) @
     [AddHealthzCheck ''healthz'', AddReadyzCheck ''readyz'', StartManager]"

lemma watchCertificate_continues:
  assumes "run_state (watchCertificate R grow path name key opts) p = (Inr (opts', w), q)"
  shows "process_Requests q = process_Requests p @ certRequests path name key" and
    "run_state (appendCertificate grow opts w) (process_Memory p) = (opts', process_Memory q)" and
    "w = watcherOf R (process_Requests p) path name key"
  using assms
  by (auto simp: watchCertificate_def certRequests_def appendCertificate_def watcherOf_def Let_def
      split: sum.splits if_splits)

lemma watchCertificate_asks: "asks (\<lambda>r. r \<noteq> StartManager) (watchCertificate R grow path name key opts)"
  unfolding watchCertificate_def Let_def by (intro makes_intros) simp

lemma passes_addWatcher [simp]: "passes (addWatcher R w) (addsWatcher w)"
  by (simp add: addWatcher_def split: option.split)

lemma startManager_reach:
  assumes set_up: "sets_up R P rs" "StartManager \<notin> set rs"
    and run: "run_state (startManager R P v w) p = (r, q)"
    and reach: "StartManager \<in> set (process_Requests q)" and new: "StartManager \<notin> set (process_Requests p)"
  shows "q = p\<lparr>process_Requests := process_Requests q\<rparr> \<and>
    process_Requests q = process_Requests p @ rs @ addsWatcher v @
      addsWatcher w @
      [AddHealthzCheck ''healthz'', AddReadyzCheck ''readyz'', StartManager] \<and>
    r = (case rt_Start R (butlast (process_Requests q)) of None \<Rightarrow> Inr () | Some _ \<Rightarrow> Inl 1)"
proof -
  have "asks (\<lambda>r. r \<in> set rs) (proc_SetupWithManager P R)" using set_up(1) by (simp add: sets_up_def)
  then have s: "asks (\<lambda>r. r \<noteq> StartManager) (orExit (proc_SetupWithManager P R))"
    using set_up(2) by (intro makes_intros) (auto elim!: makes_mono)
  have watcher: "asks (\<lambda>r. r \<noteq> StartManager) (addWatcher R w)" for w
    unfolding addWatcher_def by (intro makes_intros) simp
  have check: "asks (\<lambda>r. r \<noteq> StartManager) (orExit (ask (AddHealthzCheck n) f))"
    "asks (\<lambda>r. r \<noteq> StartManager) (orExit (ask (AddReadyzCheck n) f))" for n f
    by (intro makes_intros; simp)+
  let ?before = "[orExit (proc_SetupWithManager P R), addWatcher R v, addWatcher R w,
      orExit (ask (AddHealthzCheck ''healthz'') (\<lambda>h. rt_AddHealthzCheck R h ''healthz'')),
      orExit (ask (AddReadyzCheck ''readyz'') (\<lambda>h. rt_AddReadyzCheck R h ''readyz''))]"
  have split: "startManager R P v w = andThen (inOrder ?before) (\<lambda>_. inOrder [orExit (ask StartManager (rt_Start R))])"
    unfolding startManager_def inOrder_append [symmetric] by (simp del: inOrder.simps)
  have asks_before: "asks (\<lambda>r. r \<noteq> StartManager) (inOrder ?before)"
    by (rule asks_inOrder) (use s watcher check in auto)
  obtain u p5 where p5: "run_state (inOrder ?before) p = (Inr u, p5)" and
    last: "run_state (inOrder [orExit (ask StartManager (rt_Start R))]) p5 = (r, q)"
    using run [unfolded split] asks_before reach new by (rule andThen_reach)
  have "passes (inOrder ?before) (concat [rs, addsWatcher v, addsWatcher w, [AddHealthzCheck ''healthz''],
      [AddReadyzCheck ''readyz'']])"
    by (rule passes_inOrder) (use set_up(1) in \<open>simp add: sets_up_def\<close>)
  note p5 = passesD [OF this p5]
  have "q = p5\<lparr>process_Requests := process_Requests p5 @ [StartManager]\<rparr>"
    and "r = (case rt_Start R (process_Requests p5) of None \<Rightarrow> Inr () | Some _ \<Rightarrow> Inl 1)"
    using last by (auto simp: andThen_def orExit_def split: option.splits)
  then show ?thesis unfolding p5 by (simp add: butlast_append)
qed

lemma passes_initScheme: "passes (initScheme R gs) (map AddToScheme gs)"
proof -
  have "passes (mustAdd R g) [AddToScheme g]" for g
    by (simp add: passes_def mustAdd_def split: option.split)
  then have "passes (initScheme R gs) (concat (map (\<lambda>g. [AddToScheme g]) gs))"
    unfolding initScheme_def by (intro passes_inOrder) (simp add: list_all2_map1 list_all2_map2 list.rel_refl)
  then show ?thesis by simp
qed

lemma passes_newManager: "passes (newManager R options) [GetConfigOrDie, NewManager options]"
  using passes_inOrder [of "[orExit (ask GetConfigOrDie (rt_GetConfig R)),
      orExit (ask (NewManager options) (\<lambda>h. rt_NewManager R h options))]" "[[GetConfigOrDie], [NewManager options]]"]
  by (simp add: newManager_def del: inOrder.simps)

lemma initial_asks:
  "asks (\<lambda>r. r \<noteq> StartManager) (initScheme R gs)"
  "asks (\<lambda>r. r \<noteq> StartManager) (webhookTLS R grow f opts)"
  "asks (\<lambda>r. r \<noteq> StartManager) (metricsTLS R grow f opts)"
  "asks (\<lambda>r. r \<noteq> StartManager) (newManager R options)"
  unfolding initScheme_def mustAdd_def webhookTLS_def metricsTLS_def newManager_def Let_def
  by (intro makes_intros watchCertificate_asks; auto intro!: makes_intros)+

lemma metricsTLS_continues:
  assumes "run_state (metricsTLS R grow f opts) p = (Inr (options, v), q)"
  shows "process_Requests q = process_Requests p @ certRequests (metricsCertPath f) (metricsCertName f) (metricsCertKey f)"
    and "run_state (appendCertificate grow opts v) (process_Memory p) = (metrics_TLSOpts options, process_Memory q)"
    and "v = watcherOf R (process_Requests p) (metricsCertPath f) (metricsCertName f) (metricsCertKey f)"
    and "options = \<lparr>metrics_BindAddress = metricsAddr f, metrics_SecureServing = secureMetrics f,
      metrics_TLSOpts = metrics_TLSOpts options, metrics_FilterProvider = secureMetrics f\<rparr>"
proof -
  obtain opts' where o: "run_state (watchCertificate R grow (metricsCertPath f) (metricsCertName f) (metricsCertKey f) opts) p
      = (Inr (opts', v), q)"
    and "options = \<lparr>metrics_BindAddress = metricsAddr f, metrics_SecureServing = secureMetrics f,
      metrics_TLSOpts = opts', metrics_FilterProvider = secureMetrics f\<rparr>"
    using assms by (auto simp: metricsTLS_def andThen_def Let_def split: prod.splits sum.splits)
  with watchCertificate_continues [OF o]
  show "process_Requests q = process_Requests p @ certRequests (metricsCertPath f) (metricsCertName f) (metricsCertKey f)"
    and "run_state (appendCertificate grow opts v) (process_Memory p) = (metrics_TLSOpts options, process_Memory q)"
    and "v = watcherOf R (process_Requests p) (metricsCertPath f) (metricsCertName f) (metricsCertKey f)"
    and "options = \<lparr>metrics_BindAddress = metricsAddr f, metrics_SecureServing = secureMetrics f,
      metrics_TLSOpts = metrics_TLSOpts options, metrics_FilterProvider = secureMetrics f\<rparr>" by simp_all
qed

lemma initialTLSOpts_run:
  "run_state (initialTLSOpts grow f) p =
    (let r = run_state (if \<not> enableHTTP2 f then appendOption grow None DisableHTTP2 else State_Monad.return None) (process_Memory p)
     in (fst r, p\<lparr>process_Memory := snd r\<rparr>))"
  by (simp add: initialTLSOpts_def Let_def)

lemma servers_continue:
  assumes p: "process_Requests p = schemeRequests P" "process_Memory p = emptyMemory"
    and i: "run_state (initialTLSOpts grow f) p = (o1, p1)"
    and w: "run_state (webhookTLS R grow f o1) p1 = (Inr (webhook, w), p2)"
    and v: "run_state (metricsTLS R grow f o1) p2 = (Inr (options, v), p3)"
  shows "w = webhookWatcher R P f" and "v = metricsWatcher R P f"
    and "process_Requests p3 = schemeRequests P @ certRequests (webhookCertPath f) (webhookCertName f) (webhookCertKey f) @
      certRequests (metricsCertPath f) (metricsCertName f) (metricsCertKey f)"
    and "run_state (serverOptions grow (enableHTTP2 f) w v) emptyMemory = ((webhook, metrics_TLSOpts options), process_Memory p3)"
proof -
  note ws = watchCertificate_continues [OF w [unfolded webhookTLS_def]] and vs = metricsTLS_continues [OF v]
  note i' = i [unfolded initialTLSOpts_run p(2) Let_def]
  from i' have p1: "process_Requests p1 = schemeRequests P" using p(1) by (auto split: prod.splits)
  show "w = webhookWatcher R P f" "v = metricsWatcher R P f"
    using ws vs p1 by (simp_all add: webhookWatcher_def metricsWatcher_def)
  show "process_Requests p3 = schemeRequests P @ certRequests (webhookCertPath f) (webhookCertName f) (webhookCertKey f) @
      certRequests (metricsCertPath f) (metricsCertName f) (metricsCertKey f)"
    using ws(1) vs(1) p1 by simp
  from i' have "run_state (if \<not> enableHTTP2 f then appendOption grow None DisableHTTP2 else State_Monad.return None)
      emptyMemory = (o1, process_Memory p1)" by (auto split: prod.splits)
  then show "run_state (serverOptions grow (enableHTTP2 f) w v) emptyMemory = ((webhook, metrics_TLSOpts options), process_Memory p3)"
    using ws(2) vs(2) by (simp add: serverOptions_def split: if_splits)
qed

text \<open>A process that starts its manager has made exactly these requests, with these options.\<close>

definition started :: "'z runtime \<Rightarrow> (nat \<Rightarrow> nat \<Rightarrow> nat) \<Rightarrow> 'z controllerProcess \<Rightarrow> startRequest list \<Rightarrow> managerFlags
    \<Rightarrow> nat \<Rightarrow> process \<Rightarrow> bool" where
  "started R grow P set_up f code p \<longleftrightarrow>
     (case run_state (serverOptions grow (enableHTTP2 f) (webhookWatcher R P f) (metricsWatcher R P f)) emptyMemory of
        ((webhook, metrics), m) \<Rightarrow>
          process_Memory p = m \<and>
          process_Requests p = startRequests R P f (managerOptionsOf R P f webhook metrics) set_up \<and>
          code = (case rt_Start R (butlast (process_Requests p)) of None \<Rightarrow> 0 | Some _ \<Rightarrow> 1))"

lemma startedE:
  assumes "started R grow P rs f code p"
  obtains webhook metrics where
    "run_state (serverOptions grow (enableHTTP2 f) (webhookWatcher R P f) (metricsWatcher R P f)) emptyMemory
      = ((webhook, metrics), process_Memory p)"
    "process_Requests p = startRequests R P f (managerOptionsOf R P f webhook metrics) rs"
    "code = (case rt_Start R (butlast (process_Requests p)) of None \<Rightarrow> 0 | Some _ \<Rightarrow> 1)"
  using assms unfolding started_def by (cases "run_state (serverOptions grow (enableHTTP2 f) (webhookWatcher R P f)
    (metricsWatcher R P f)) emptyMemory") (auto split: prod.splits)

lemma managerMain_reach:
  assumes set_up: "sets_up R P rs" "StartManager \<notin> set rs"
    and run: "run_state (managerMain R grow P args) p = (r, q)"
    and p: "process_Requests p = schemeRequests P" "process_Memory p = emptyMemory"
    and reach: "StartManager \<in> set (process_Requests q)"
  shows "\<exists>f. parseCommandLine R args = Inr f \<and> started R grow P rs f (case r of Inl code \<Rightarrow> code | Inr _ \<Rightarrow> 0) q"
proof -
  have new: "StartManager \<notin> set (process_Requests p)" using p(1) by (auto simp: schemeRequests_def)
  obtain f where f: "parseCommandLine R args = Inr f"
    using run new reach by (cases "parseCommandLine R args") (auto simp: managerMain_def andThen_def)
  obtain o1 p1 where i: "run_state (initialTLSOpts grow f) p = (o1, p1)" by force
  define createManager where "createManager webhook w options v =
      andThen (newManager R \<lparr>manager_Scheme = schemeKinds R (proc_Groups P),
         manager_Metrics = options, manager_WebhookTLSOpts = webhook,
         manager_HealthProbeBindAddress = probeAddr f, manager_LeaderElection = enableLeaderElection f,
         manager_LeaderElectionID = proc_LeaderElectionID P\<rparr>) (\<lambda>_. startManager R P v w)" for webhook w options v
  from run f i
  have r1: "run_state (andThen (webhookTLS R grow f o1) (\<lambda>(webhook, w).
       andThen (metricsTLS R grow f o1) (\<lambda>(options, v). createManager webhook w options v))) p1 = (r, q)"
    by (simp add: managerMain_def createManager_def andThen_def [of "State_Monad.return _"])
  have n1: "StartManager \<notin> set (process_Requests p1)" using new i by (auto simp: initialTLSOpts_run Let_def)
  obtain webhook w p2 where
    w: "run_state (webhookTLS R grow f o1) p1 = (Inr (webhook, w), p2)" and
    r2: "run_state (andThen (metricsTLS R grow f o1) (\<lambda>(options, v). createManager webhook w options v)) p2 = (r, q)" and
    n2: "StartManager \<notin> set (process_Requests p2)"
    using r1 initial_asks(2) reach n1 by (rule andThen_reach_pair)
  obtain options v p3 where
    v: "run_state (metricsTLS R grow f o1) p2 = (Inr (options, v), p3)" and
    r3: "run_state (createManager webhook w options v) p3 = (r, q)" and
    n3: "StartManager \<notin> set (process_Requests p3)"
    using r2 initial_asks(3) reach n2 by (rule andThen_reach_pair)
  note servers = servers_continue [OF p i w v]
  have c: "createManager webhook w options v =
      andThen (newManager R (managerOptionsOf R P f webhook (metrics_TLSOpts options))) (\<lambda>_. startManager R P v w)"
    unfolding createManager_def managerOptionsOf_def metricsTLS_continues(4) [OF v, symmetric] ..
  obtain u p4 where
    m: "run_state (newManager R (managerOptionsOf R P f webhook (metrics_TLSOpts options))) p3 = (Inr u, p4)" and
    r4: "run_state (startManager R P v w) p4 = (r, q)" and n4: "StartManager \<notin> set (process_Requests p4)"
    using r3 [unfolded c] initial_asks(4) reach n3 by (rule andThen_reach)
  note p4 = passesD [OF passes_newManager m]
  note end_ = startManager_reach [OF set_up r4 reach n4]
  have "process_Memory q = process_Memory p3"
    using end_ p4 by (metis process.select_convs(1) process.surjective process.update_convs(2))
  moreover have "process_Requests q = startRequests R P f (managerOptionsOf R P f webhook (metrics_TLSOpts options)) rs"
    using end_ p4 servers by (simp add: startRequests_def)
  moreover have "(case r of Inl code \<Rightarrow> code | Inr _ \<Rightarrow> 0) = (case rt_Start R (butlast (process_Requests q)) of None \<Rightarrow> 0 | Some _ \<Rightarrow> 1)"
    using end_ by (simp split: option.splits)
  ultimately have "started R grow P rs f (case r of Inl code \<Rightarrow> code | Inr _ \<Rightarrow> 0) q"
    using servers by (simp add: started_def)
  with f show ?thesis by blast
qed

section \<open>The three processes\<close>

text \<open>Each \<open>main\<close> with its process and the requests of its \<open>SetupWithManager\<close>.\<close>

definition processes :: "(('z runtime \<Rightarrow> (nat \<Rightarrow> nat \<Rightarrow> nat) \<Rightarrow> string list \<Rightarrow> nat \<times> process)
    \<times> 'z controllerProcess \<times> startRequest list) list" where
  "processes =
     [(session_main, sessionProcess,
         [IndexField PodKind podOwnerField, IndexField PodKind podTypeField,
          IndexField GCRegistrationKind gcRegistrationSessionField, CompleteController sessionSetup]),
      (gc_main, gcProcess, [CompleteController gcSetup]),
      (network_main, networkProcess, [CompleteController networkSetup])]"

lemma processes_main: "(main, P, rs) \<in> set processes \<Longrightarrow> main R grow args = runProcess R grow P args"
  by (auto simp: processes_def session_main_def gc_main_def network_main_def)

lemma processes_set_up: "(main, P, rs) \<in> set processes \<Longrightarrow> sets_up R P rs \<and> StartManager \<notin> set rs"
  by (auto simp: processes_def sets_up_def passes_def orExit_def sessionProcess_def gcProcess_def networkProcess_def
      session_SetupWithManager_def gc_SetupWithManager_def network_SetupWithManager_def
      SetupManagerFieldIndexer_def intro!: makes_intros split: option.splits)

lemma processes_checked: "(main, P, rs) \<in> set processes \<Longrightarrow> checked R (\<lambda>e. e \<noteq> None) (proc_SetupWithManager P R)"
proof -
  assume "(main, P, rs) \<in> set processes"
  then have "proc_SetupWithManager P = session_SetupWithManager \<or> proc_SetupWithManager P = gc_SetupWithManager
      \<or> proc_SetupWithManager P = network_SetupWithManager"
    by (auto simp: processes_def sessionProcess_def gcProcess_def networkProcess_def)
  moreover have index: "checked R (\<lambda>e. e \<noteq> None) (SetupManagerFieldIndexer R)"
    unfolding SetupManagerFieldIndexer_def
    by (rule checked_firstError, unfold list.set, elim insertE emptyE; hypsubst) (rule checked_ask, simp)+
  moreover have "checked R (\<lambda>e. e \<noteq> None) (session_SetupWithManager R)"
    unfolding session_SetupWithManager_def
    by (rule checked_firstError, unfold list.set, elim insertE emptyE; hypsubst) (rule index, rule checked_ask, simp)
  moreover have "checked R (\<lambda>e. e \<noteq> None) (gc_SetupWithManager R)"
    unfolding gc_SetupWithManager_def by (intro checked_ask) simp
  moreover have "checked R (\<lambda>e. e \<noteq> None) (network_SetupWithManager R)"
    unfolding network_SetupWithManager_def by (intro checked_ask) simp
  ultimately show ?thesis by auto
qed

lemma checked_must: "checked R nonzero (mustAdd R g)"
  unfolding mustAdd_def checked_def by (auto simp: checked_run_def Cons_eq_append_conv split: option.split)

lemma checked_watch: "checked R nonzero (watchCertificate R grow path name key opts)"
proof (cases "path = []")
  case False
  show ?thesis
    unfolding checked_def watchCertificate_def Let_def
    by (auto simp: False checked_run_def Cons_eq_append_conv split: sum.split)
qed (auto simp: watchCertificate_def)

lemma checked_startManager: "checked R (\<lambda>e. e \<noteq> None) (proc_SetupWithManager P R) \<Longrightarrow> checked R nonzero (startManager R P v w)"
  unfolding startManager_def addWatcher_def
  by (rule checked_inOrder, unfold list.set, elim insertE emptyE; hypsubst)
    (auto intro!: checked_ask split: option.split)

lemma checked_main:
  assumes "checked R (\<lambda>e. e \<noteq> None) (proc_SetupWithManager P R)"
  shows "checked R nonzero (andThen (initScheme R (proc_Groups P)) (\<lambda>_. managerMain R grow P args))"
proof -
  have init: "checked R nonzero (initScheme R (proc_Groups P))"
    unfolding initScheme_def by (intro checked_inOrder) (auto intro: checked_must)
  have manager: "checked R nonzero (newManager R options)" for options
    unfolding newManager_def
    by (rule checked_inOrder, unfold list.set, elim insertE emptyE; hypsubst) (rule checked_orExit, rule checked_ask, simp)+
  have "checked R nonzero (metricsTLS R grow f opts)" for f opts
    unfolding metricsTLS_def Let_def by (auto intro!: checked_andThen checked_watch split: prod.split)
  moreover have "checked R (\<lambda>_. False) (initialTLSOpts grow f)" for f
    unfolding initialTLSOpts_def by auto
  ultimately show ?thesis
    unfolding managerMain_def webhookTLS_def
    by (intro checked_andThen checked_bind init) (auto intro!: checked_andThen checked_bind checked_watch manager
        checked_startManager assms split: prod.split)
qed

lemma runProcess_checked:
  assumes "checked R (\<lambda>e. e \<noteq> None) (proc_SetupWithManager P R)" and "runProcess R grow P args = (code, p)"
  shows "checked_run R [] (process_Requests p) (code \<noteq> 0)"
  using checked_main [OF assms(1), of grow args] assms(2)
  unfolding checked_def runProcess_def process_init_def
  by (force split: prod.splits sum.splits simp: nonzero_def dest: spec [of _ "\<lparr>process_Memory = \<lparr>cells = (\<lambda>_. None), limit = 0\<rparr>, process_Requests = []\<rparr>"])

text \<open>A run that ends without an exit has started the manager.\<close>

lemma orExit_ask_logs:
  "run_state (orExit (ask r f)) p = (Inr u, q) \<Longrightarrow> r \<in> set (process_Requests q)"
  by (auto simp: orExit_def split: option.splits)

lemma managerMain_returns:
  assumes "run_state (managerMain R grow P args) p = (Inr u, q)"
  shows "StartManager \<in> set (process_Requests q)"
proof -
  obtain v w p1 where "run_state (startManager R P v w) p1 = (Inr u, q)"
    using assms unfolding managerMain_def by (auto elim!: andThen_return split: prod.splits)
  then obtain p2 y where "run_state (orExit (ask StartManager (rt_Start R))) p2 = (Inr y, q)"
    unfolding startManager_def inOrder.simps by (elim andThen_return) simp
  then show ?thesis by (rule orExit_ask_logs)
qed

text \<open>The steps behind the flags exit with an error code.\<close>

definition exits :: "(process, nat + 'a) state \<Rightarrow> bool" where
  "exits act \<longleftrightarrow> (\<forall>p. fst (run_state act p) \<noteq> Inl 0)"

lemma exits_andThen [intro]: "exits act \<Longrightarrow> (\<And>x. exits (f x)) \<Longrightarrow> exits (andThen act f)"
  unfolding exits_def andThen_def by (simp split: prod.split sum.split) (metis fst_conv gr0I)

lemma exits_return [intro]: "exits (State_Monad.return (Inr x))"
  by (simp add: exits_def)

lemma exits_bind [intro]: "(\<And>x. exits (f x)) \<Longrightarrow> exits (act \<bind> f)"
  by (simp add: exits_def split: prod.split)

lemma exits_orExit [intro]: "exits (orExit act)"
  by (simp add: exits_def orExit_def split: prod.split option.split)

lemma exits_inOrder [intro]: "(\<And>act. act \<in> set acts \<Longrightarrow> exits act) \<Longrightarrow> exits (inOrder acts)"
  by (induction acts) auto

lemma exits_steps:
  "exits (initScheme R gs)" "exits (watchCertificate R grow path name key opts)" "exits (newManager R options)"
  "exits (startManager R P v w)"
proof -
  have "exits (mustAdd R g)" for g by (simp add: exits_def mustAdd_def split: option.split)
  then show "exits (initScheme R gs)" unfolding initScheme_def by (intro exits_inOrder) auto
  show "exits (watchCertificate R grow path name key opts)"
    by (simp add: exits_def watchCertificate_def Let_def split: sum.split)
  show "exits (newManager R options)" unfolding newManager_def by (rule exits_inOrder) auto
  show "exits (startManager R P v w)" unfolding startManager_def addWatcher_def
    by (rule exits_inOrder) (auto split: option.split)
qed

lemma managerMain_exits:
  assumes "fst (run_state (managerMain R grow P args) p) = Inl 0"
  shows "parseCommandLine R args = Inl 0"
proof (cases "parseCommandLine R args")
  case (Inl c)
  with assms show ?thesis by (simp add: managerMain_def andThen_def)
next
  case (Inr f)
  have "exits (do {
       tlsOpts \<leftarrow> initialTLSOpts grow f;
       andThen (webhookTLS R grow f tlsOpts) (\<lambda>(webhookTLSOpts, webhookCertWatcher).
       andThen (metricsTLS R grow f tlsOpts) (\<lambda>(metricsServerOptions, metricsCertWatcher).
       andThen (newManager R \<lparr>manager_Scheme = schemeKinds R (proc_Groups P),
           manager_Metrics = metricsServerOptions, manager_WebhookTLSOpts = webhookTLSOpts,
           manager_HealthProbeBindAddress = probeAddr f, manager_LeaderElection = enableLeaderElection f,
           manager_LeaderElectionID = proc_LeaderElectionID P\<rparr>) (\<lambda>_.
         startManager R P metricsCertWatcher webhookCertWatcher))) })" (is "exits ?rest")
    unfolding webhookTLS_def metricsTLS_def Let_def
    by (auto intro!: exits_bind exits_andThen exits_steps split: prod.split)
  moreover have "managerMain R grow P args = ?rest"
    by (simp add: managerMain_def Inr andThen_def [of "State_Monad.return _"])
  ultimately show ?thesis using assms by (simp add: exits_def)
qed

text \<open>The result of a process: it stopped before the start, or it started as described.\<close>

lemma runProcess_outcome:
  assumes set_up: "sets_up R P rs" "StartManager \<notin> set rs" and run: "runProcess R grow P args = (code, p)"
  shows "if StartManager \<in> set (process_Requests p) then \<exists>f. parseCommandLine R args = Inr f \<and> started R grow P rs f code p
    else code = 0 \<longrightarrow> parseCommandLine R args = Inl 0"
proof -
  let ?init = "initScheme R (proc_Groups P)" and ?main = "\<lambda>_::unit. managerMain R grow P args"
  obtain r where r: "run_state (andThen ?init ?main) process_init = (r, p)"
    and code: "code = (case r of Inl code \<Rightarrow> code | Inr _ \<Rightarrow> 0)"
    using run by (auto simp: runProcess_def split: prod.splits sum.splits)
  have none: "StartManager \<notin> set (process_Requests process_init)" by (simp add: process_init_def)
  show ?thesis
  proof (cases "StartManager \<in> set (process_Requests p)")
    case True
    obtain u q where "run_state ?init process_init = (Inr u, q)" and q: "run_state (managerMain R grow P args) q = (r, p)"
      using r initial_asks(1) True none by (rule andThen_reach)
    with passesD [OF passes_initScheme [of R "proc_Groups P"], of process_init u q]
    have "process_Requests q = schemeRequests P" "process_Memory q = emptyMemory"
      by (simp_all add: process_init_def schemeRequests_def emptyMemory_def)
    from managerMain_reach [OF set_up q this True] code True show ?thesis by simp
  next
    case False
    show ?thesis
    proof (simp add: False, intro impI)
      assume "code = 0"
      obtain z q where init: "run_state ?init process_init = (z, q)" by force
      with exits_steps(1) [of R "proc_Groups P"] have "z \<noteq> Inl 0" unfolding exits_def by (metis fst_conv)
      with init r code \<open>code = 0\<close> have main: "run_state (managerMain R grow P args) q = (r, p)"
        by (cases z) (auto simp: andThen_def)
      with managerMain_returns False have "r \<noteq> Inr u" for u by blast
      with code \<open>code = 0\<close> have "r = Inl 0" by (cases r) auto
      with main show "parseCommandLine R args = Inl 0" using managerMain_exits [of R grow P args q] by simp
    qed
  qed
qed

lemmas process_outcome = runProcess_outcome [OF conjunct1 [OF processes_set_up] conjunct2 [OF processes_set_up]]

lemma started_manager:
  assumes "(main, P, rs) \<in> set processes" and st: "started R grow P rs f code p"
    and "NewManager options \<in> set (process_Requests p)"
  obtains webhook metrics where "options = managerOptionsOf R P f webhook metrics"
    "run_state (serverOptions grow (enableHTTP2 f) (webhookWatcher R P f) (metricsWatcher R P f)) emptyMemory
      = ((webhook, metrics), process_Memory p)"
proof -
  have rs: "NewManager options \<notin> set rs" using assms(1) by (auto simp: processes_def)
  from st obtain webhook metrics where
    run: "run_state (serverOptions grow (enableHTTP2 f) (webhookWatcher R P f) (metricsWatcher R P f)) emptyMemory
      = ((webhook, metrics), process_Memory p)" and
    p: "process_Requests p = startRequests R P f (managerOptionsOf R P f webhook metrics) rs" by (rule startedE)
  from assms(3) rs have "options = managerOptionsOf R P f webhook metrics"
    unfolding p by (auto simp: startRequests_def schemeRequests_def certRequests_def split: if_splits)
  with run that show ?thesis by blast
qed

lemma started_prefix:
  assumes "(main, P, rs) \<in> set processes" and st: "started R grow P rs f code p"
  shows "\<exists>u options. process_Requests p = u @ [StartManager] \<and> NewManager options \<in> set u \<and>
    manager_Scheme options = schemeKinds R (proc_Groups P) \<and> set rs \<subseteq> set u"
proof -
  from st obtain webhook metrics where
    p: "process_Requests p = startRequests R P f (managerOptionsOf R P f webhook metrics) rs" by (rule startedE)
  let ?o = "managerOptionsOf R P f webhook metrics"
  have "process_Requests p = butlast (startRequests R P f ?o rs) @ [StartManager]"
    using p by (simp add: startRequests_def butlast_append)
  moreover have "NewManager ?o \<in> set (butlast (startRequests R P f ?o rs))" "set rs \<subseteq> set (butlast (startRequests R P f ?o rs))"
    by (auto simp: startRequests_def butlast_append)
  moreover have "manager_Scheme ?o = schemeKinds R (proc_Groups P)" by (simp add: managerOptionsOf_def)
  ultimately show ?thesis by blast
qed

text \<open>Without a failed request the process starts its manager.\<close>

definition continues :: "(process, nat + 'a) state \<Rightarrow> bool" where
  "continues act \<longleftrightarrow> (\<forall>p. \<not> isl (fst (run_state act p)))"

lemma continues_return [intro]: "continues (State_Monad.return (Inr x))"
  by (simp add: continues_def)

lemma continues_andThen [intro]: "continues act \<Longrightarrow> (\<And>x. continues (f x)) \<Longrightarrow> continues (andThen act f)"
  unfolding continues_def andThen_def by (simp split: prod.split sum.split) (metis fst_conv isl_def)

lemma continues_bind [intro]: "(\<And>x. continues (f x)) \<Longrightarrow> continues (act \<bind> f)"
  by (simp add: continues_def split: prod.split)

lemma continues_inOrder [intro]: "(\<And>act. act \<in> set acts \<Longrightarrow> continues act) \<Longrightarrow> continues (inOrder acts)"
  by (induction acts) auto

lemma continues_orExit [intro]: "(\<And>p. fst (run_state act p) = None) \<Longrightarrow> continues (orExit act)"
  by (simp add: continues_def orExit_def split: prod.split option.split) (metis fst_conv option.discI)

lemma runProcess_starts:
  assumes ok: "\<And>h r. \<not> fails R h r"
    and parse: "parseCommandLine R args = Inr f" and run: "runProcess R grow P args = (code, p)"
    and none: "\<And>q. fst (run_state (proc_SetupWithManager P R) q) = None"
  shows "code = 0 \<and> StartManager \<in> set (process_Requests p)"
proof -
  have answers: "rt_AddToScheme R h g = None" "\<not> isl (rt_NewCertWatcher R h cert key)" "rt_GetConfig R h = None"
    "rt_NewManager R h options = None" "rt_AddCertWatcher R h w = None" "rt_AddHealthzCheck R h n = None"
    "rt_AddReadyzCheck R h n = None" "rt_Start R h = None" for h g cert key options w n
    using ok [of h "AddToScheme g"] ok [of h "NewCertWatcher cert key"] ok [of h GetConfigOrDie]
      ok [of h "NewManager options"] ok [of h "AddCertWatcher w"] ok [of h "AddHealthzCheck n"]
      ok [of h "AddReadyzCheck n"] ok [of h StartManager] by simp_all
  have "continues (initScheme R (proc_Groups P))"
    unfolding initScheme_def by (rule continues_inOrder) (auto simp: continues_def mustAdd_def answers)
  moreover have watch: "continues (watchCertificate R grow path name key opts)" for path name key opts
    using answers(2) by (auto simp: continues_def watchCertificate_def Let_def isl_def split: sum.split)
  moreover have "continues (metricsTLS R grow f opts)" for f opts
    unfolding metricsTLS_def Let_def using watch by (auto split: prod.split)
  moreover have "continues (newManager R options)" for options
    unfolding newManager_def by (rule continues_inOrder) (auto simp: answers)
  moreover have "continues (startManager R P v w)" for v w
    unfolding startManager_def addWatcher_def by (rule continues_inOrder) (auto simp: answers none intro!: continues_orExit continues_return split: option.split)
  ultimately have "continues (andThen (initScheme R (proc_Groups P)) (\<lambda>_. managerMain R grow P args))"
    unfolding managerMain_def webhookTLS_def parse
    by (auto intro!: continues_andThen continues_bind split: prod.split)
  then obtain u where r: "run_state (andThen (initScheme R (proc_Groups P)) (\<lambda>_. managerMain R grow P args)) process_init = (Inr u, p)"
    and "code = 0" using run unfolding continues_def runProcess_def
    by (auto split: prod.splits sum.splits) (metis fst_conv sum.disc(1))
  from r obtain q where "run_state (managerMain R grow P args) q = (Inr u, p)" by (rule andThen_return)
  with managerMain_returns \<open>code = 0\<close> show ?thesis by blast
qed

lemma processes_continue:
  assumes "(main, P, rs) \<in> set processes" and "\<And>h r. \<not> fails R h r"
  shows "fst (run_state (proc_SetupWithManager P R) q) = None"
proof -
  have "rt_IndexField R h k n = None" "rt_Complete R h s = None" for h k n s
    using assms(2) [of h "IndexField k n"] assms(2) [of h "CompleteController s"] by simp_all
  with assms(1) show ?thesis
    by (auto simp: processes_def sessionProcess_def gcProcess_def networkProcess_def
        session_SetupWithManager_def gc_SetupWithManager_def network_SetupWithManager_def SetupManagerFieldIndexer_def)
qed

end
