(* ===== verification/Permissions.thy ===== *)
theory Permissions
  imports Request_Logic Session_Controller GC_Controller Network Process_Main
begin

text \<open>
  What a controller may ask the API server: the roles that the \<open>+kubebuilder:rbac\<close> markers of the three
  controllers declare, the kinds of the objects, and the fields with an index.  The lemmas check every
  handler, call by call, in the logic of requests.
\<close>

section \<open>Roles\<close>

datatype verb = VGet | VList | VWatch | VCreate | VUpdate | VPatch | VDelete

text \<open>A rule: the API group, the resource and the verbs.\<close>

type_synonym role = "(string \<times> string \<times> verb list) list"

definition sessionRole :: role where
  "sessionRole =
     [(''core.mr.telepresence'', ''sessions'', [VGet, VList, VWatch, VCreate, VUpdate, VPatch, VDelete]),
      (''core.mr.telepresence'', ''sessions/status'', [VGet, VUpdate, VPatch]),
      (''core.mr.telepresence'', ''sessions/finalizers'', [VUpdate]),
      (''gc.mr.telepresence'', ''gcregistrations'', [VGet, VList, VWatch, VCreate, VUpdate, VPatch, VDelete]),
      (''core'', ''pods'', [VGet, VList, VWatch, VCreate, VUpdate, VPatch, VDelete]),
      (''core'', ''services'', [VGet, VList, VWatch, VCreate, VUpdate, VPatch, VDelete]),
      (''core'', ''namespaces'', [VGet, VList, VWatch, VCreate, VUpdate, VPatch, VDelete])]"

definition gcRole :: role where
  "gcRole =
     [(''gc.mr.telepresence'', ''gcregistrations'', [VGet, VList, VWatch, VCreate, VUpdate, VPatch, VDelete]),
      (''core.mr.telepresence'', ''sessions'', [VGet, VList, VWatch]),
      (''core'', ''pods'', [VGet, VList, VWatch, VDelete])]"

definition networkRole :: role where
  "networkRole =
     [(''core'', ''services'', [VGet, VList, VWatch, VCreate]),
      (''core'', ''pods'', [VGet, VList, VWatch]),
      (''networking.k8s.io'', ''ingresses'', [VGet, VList, VWatch, VCreate, VUpdate])]"

text \<open>
  What a request needs.  The client of the manager reads from a cache, which lists and watches the kind.
\<close>

fun request_needs :: "request \<Rightarrow> string \<times> string \<times> verb list" where
  "request_needs (GetSession _ _) = (gv_Group session_GroupVersion, ''sessions'', [VGet, VList, VWatch])"
| "request_needs (GetService _ _) = (''core'', ''services'', [VGet, VList, VWatch])"
| "request_needs (GetPod _ _) = (''core'', ''pods'', [VGet, VList, VWatch])"
| "request_needs (GetIngress _ _) = (''networking.k8s.io'', ''ingresses'', [VGet, VList, VWatch])"
| "request_needs (ListPods _ _) = (''core'', ''pods'', [VList, VWatch])"
| "request_needs (ListGCRegistrations _ _) = (gv_Group gc_GroupVersion, ''gcregistrations'', [VList, VWatch])"
| "request_needs (ListServices _ _) = (''core'', ''services'', [VList, VWatch])"
| "request_needs (CreateNamespace _) = (''core'', ''namespaces'', [VCreate])"
| "request_needs (CreateGCRegistration _) = (gv_Group gc_GroupVersion, ''gcregistrations'', [VCreate])"
| "request_needs (CreatePod _) = (''core'', ''pods'', [VCreate])"
| "request_needs (CreateService _) = (''core'', ''services'', [VCreate])"
| "request_needs (UpdateSessionStatus _) = (gv_Group session_GroupVersion, ''sessions/status'', [VUpdate])"
| "request_needs (UpdateSession _) = (gv_Group session_GroupVersion, ''sessions'', [VUpdate])"
| "request_needs (UpdateGCRegistration _) = (gv_Group gc_GroupVersion, ''gcregistrations'', [VUpdate])"
| "request_needs (UpdateIngress _) = (''networking.k8s.io'', ''ingresses'', [VUpdate])"
| "request_needs (DeleteGCRegistration _) = (gv_Group gc_GroupVersion, ''gcregistrations'', [VDelete])"
| "request_needs (DeletePod _) = (''core'', ''pods'', [VDelete])"

definition permits :: "role \<Rightarrow> request \<Rightarrow> bool" where
  "permits role r = (case request_needs r of (gr, resource, verbs) \<Rightarrow>
     list_ex (\<lambda>(g, s, vs). g = gr \<and> s = resource \<and> set verbs \<subseteq> set vs) role)"

text \<open>A controller lists and watches the kinds of its setup.\<close>

fun kind_resource :: "kind \<Rightarrow> string \<times> string" where
  "kind_resource SessionKind = (gv_Group session_GroupVersion, ''sessions'')"
| "kind_resource SessionListKind = (gv_Group session_GroupVersion, ''sessions'')"
| "kind_resource GCRegistrationKind = (gv_Group gc_GroupVersion, ''gcregistrations'')"
| "kind_resource GCRegistrationListKind = (gv_Group gc_GroupVersion, ''gcregistrations'')"
| "kind_resource PodKind = (''core'', ''pods'')"
| "kind_resource ServiceKind = (''core'', ''services'')"
| "kind_resource NamespaceKind = (''core'', ''namespaces'')"
| "kind_resource IngressKind = (''networking.k8s.io'', ''ingresses'')"
| "kind_resource (OtherKind k) = ([], k)"

definition watched_kinds :: "controllerSetup \<Rightarrow> kind list" where
  "watched_kinds s = (case setup_For s of None \<Rightarrow> [] | Some k \<Rightarrow> [k]) @ setup_Owns s @ setup_Watches s"

definition permits_watch :: "role \<Rightarrow> kind \<Rightarrow> bool" where
  "permits_watch role k \<longleftrightarrow> list_ex (\<lambda>(g, s, vs). (g, s) = kind_resource k \<and> {VList, VWatch} \<subseteq> set vs) role"

section \<open>Kinds and indexes\<close>

fun request_kind :: "request \<Rightarrow> kind" where
  "request_kind (GetSession _ _) = SessionKind"
| "request_kind (GetService _ _) = ServiceKind"
| "request_kind (GetPod _ _) = PodKind"
| "request_kind (GetIngress _ _) = IngressKind"
| "request_kind (ListPods _ _) = PodKind"
| "request_kind (ListGCRegistrations _ _) = GCRegistrationKind"
| "request_kind (ListServices _ _) = ServiceKind"
| "request_kind (CreateNamespace _) = NamespaceKind"
| "request_kind (CreateGCRegistration _) = GCRegistrationKind"
| "request_kind (CreatePod _) = PodKind"
| "request_kind (CreateService _) = ServiceKind"
| "request_kind (UpdateSessionStatus _) = SessionKind"
| "request_kind (UpdateSession _) = SessionKind"
| "request_kind (UpdateGCRegistration _) = GCRegistrationKind"
| "request_kind (UpdateIngress _) = IngressKind"
| "request_kind (DeleteGCRegistration _) = GCRegistrationKind"
| "request_kind (DeletePod _) = PodKind"

text \<open>
  The fields by which a request selects objects; the network controller selects by its label instead.
\<close>

fun request_fields :: "request \<Rightarrow> (kind \<times> string) list" where
  "request_fields (ListPods _ sel) = (if sel = telepresenceLabel then [] else map (\<lambda>(field, _). (PodKind, field)) sel)"
| "request_fields (ListGCRegistrations _ sel) = map (\<lambda>(field, _). (GCRegistrationKind, field)) sel"
| "request_fields _ = []"

definition indexedFields :: "(kind \<times> string) list" where
  "indexedFields = [(PodKind, podOwnerField), (PodKind, podTypeField), (GCRegistrationKind, gcRegistrationSessionField)]"

section \<open>The session controller\<close>

definition session_allowed :: "request \<Rightarrow> bool" where
  "session_allowed r \<longleftrightarrow> permits sessionRole r \<and>
     request_kind r \<in> {SessionKind, GCRegistrationKind, PodKind, ServiceKind, NamespaceKind} \<and>
     set (request_fields r) \<subseteq> set indexedFields"

lemma session_requests [makes_intros]:
  "session_allowed (GetSession ns n)" "session_allowed (GetService ns n)"
  "session_allowed (ListPods ns [(''ownerField'', x), (''podTypeField'', y)])"
  "session_allowed (ListGCRegistrations ns [(''gcRegistrationSessionField'', x)])"
  "session_allowed (CreateNamespace ns)" "session_allowed (CreateGCRegistration g)" "session_allowed (CreatePod p)"
  "session_allowed (UpdateSessionStatus s)" "session_allowed (UpdateSession s)"
  "session_allowed (DeleteGCRegistration g)"
  by (simp_all add: session_allowed_def permits_def sessionRole_def indexedFields_def podOwnerField_def
      podTypeField_def gcRegistrationSessionField_def)

lemma makes_loop_io [makes_intros]:
  "(\<And>x s. x \<in> set xs \<Longrightarrow> makes_io P (f x s)) \<Longrightarrow> makes_io P (loop_io f xs s)"
  by (induction xs arbitrary: s) (auto intro!: makes_intros)

lemma session_createGCRegistration [makes_intros]: "makes_io session_allowed (createGCRegistration K p s ns)"
  unfolding createGCRegistration_def by (intro makes_intros)

lemma session_deleteGCRegistration [makes_intros]: "makes_io session_allowed (deleteGCRegistration K g)"
  unfolding deleteGCRegistration_def by (intro makes_intros)

lemma session_manageGCRegistrations [makes_intros]:
  "makes_io session_allowed (manageGCRegistrations K ord session am ru gs)"
  unfolding manageGCRegistrations_def registerSparePod_def registerAllocatedPod_def by (intro makes_intros)

lemma session_ReconcileClientPods [makes_intros]:
  "makes_io session_allowed (ReconcileClientPods K ord u ns session gs ip)"
  unfolding ReconcileClientPods_def Let_def by (intro makes_intros)

lemma session_SpawnPod [makes_intros]: "makes_io session_allowed (SpawnPod K session pod)"
  unfolding SpawnPod_def Let_def by (intro makes_intros)

lemma session_ReconcileSessionPods [makes_intros]:
  "makes_io session_allowed (ReconcileSessionPods K ord ns session gs ip)"
  unfolding ReconcileSessionPods_def Let_def manageGCRegistrationsForSessionPods_def registerSessionPod_def
    restorePods_def restorePod_def setReady_def
  by (intro makes_intros)

lemma session_Reconcile: "makes_io session_allowed (Reconcile K H ord u ns name)"
  unfolding Reconcile_def reconcileClients_def updateStatusAndSpawn_def spawnClientPods_def
    getIngressServiceExternalIp_def Let_def
  by (intro makes_intros)

section \<open>The GC controller\<close>

definition gc_allowed :: "request \<Rightarrow> bool" where
  "gc_allowed r \<longleftrightarrow> permits gcRole r \<and> request_kind r \<in> {SessionKind, GCRegistrationKind, PodKind} \<and> request_fields r = []"

lemma gc_requests [makes_intros]:
  "gc_allowed (GetSession ns n)" "gc_allowed (GetPod ns n)" "gc_allowed (ListGCRegistrations ns [])"
  "gc_allowed (UpdateGCRegistration g)" "gc_allowed (DeleteGCRegistration g)" "gc_allowed (DeletePod p)"
  by (simp_all add: gc_allowed_def permits_def gcRole_def)

lemma gc_Reconcile: "makes_io gc_allowed (ReconcileGC K)"
  unfolding ReconcileGC_def reconcileRegistration_def handleExpiredRegistration_def deleteRegistration_def Let_def
  by (intro makes_intros)

section \<open>The network controller\<close>

definition network_allowed :: "request \<Rightarrow> bool" where
  "network_allowed r \<longleftrightarrow> permits networkRole r \<and> request_kind r \<in> {PodKind, ServiceKind, IngressKind} \<and>
     request_fields r = []"

lemma network_requests [makes_intros]:
  "network_allowed (GetIngress ns n)" "network_allowed (ListPods ns telepresenceLabel)" "network_allowed (ListServices ns sel)"
  "network_allowed (CreateService s)" "network_allowed (UpdateIngress i)"
  by (simp_all add: network_allowed_def permits_def networkRole_def)

lemma network_spawnServices [makes_intros]: "makes_io network_allowed (spawnServices K ns pods services)"
proof (induction pods arbitrary: services)
  case Nil
  then show ?case by (auto intro!: makes_intros)
next
  case (Cons pod pods)
  then show ?case unfolding spawnServices.simps Let_def spawnService_def by (intro makes_intros)
qed

lemma network_Reconcile: "makes_io network_allowed (ReconcileNetwork K ord ns)"
  unfolding ReconcileNetwork_def reconcileIngress_def by (intro makes_intros)

section \<open>The setups\<close>

lemma setups_permitted:
  "list_all (permits_watch sessionRole) (watched_kinds sessionSetup)"
  "list_all (permits_watch gcRole) (watched_kinds gcSetup)"
  "list_all (permits_watch networkRole) (watched_kinds networkSetup)"
  by (simp_all add: permits_watch_def watched_kinds_def sessionSetup_def gcSetup_def networkSetup_def
      sessionRole_def gcRole_def networkRole_def)

lemma makes_permits:
  assumes "makes_io allowed act" and "run_state act h = (x, h @ t)" and "\<And>r. allowed r \<Longrightarrow> permits role r"
  shows "list_all (permits role) t"
  using makesD [OF assms(1, 2)] assms(3) by (auto simp: list_all_iff)

end
