(* ===== verification/Process_Properties.thy ===== *)
theory Process_Properties
  imports Process_Order Permissions GC_Properties
begin

text \<open>
  The properties of the three processes: the command line, the TLS options of the servers, the order of
  the start and its errors, and what the started controllers may ask the API server.
\<close>

section \<open>A runtime for the witnesses\<close>

text \<open>Every request succeeds; a watcher gets the number of requests before it.\<close>

definition demo_runtime :: "unit runtime" where
  "demo_runtime = \<lparr>rt_Flags = [], rt_FlagDefaults = (),
     rt_ClientGoKinds = [PodKind, ServiceKind, NamespaceKind, IngressKind],
     rt_AddToScheme = (\<lambda>_ _. None), rt_NewCertWatcher = (\<lambda>h _ _. Inr (length h)),
     rt_GetConfig = (\<lambda>_. None), rt_NewManager = (\<lambda>_ _. None), rt_IndexField = (\<lambda>_ _ _. None),
     rt_Complete = (\<lambda>_ _. None), rt_AddCertWatcher = (\<lambda>_ _. None), rt_AddHealthzCheck = (\<lambda>_ _. None),
     rt_AddReadyzCheck = (\<lambda>_ _. None), rt_Start = (\<lambda>_. None)\<rparr>"

definition demo_grow :: "nat \<Rightarrow> nat \<Rightarrow> nat" where
  "demo_grow c n = n"

definition demo_flags :: managerFlags where
  "demo_flags = flagDefaults\<lparr>enableLeaderElection := True, webhookCertPath := ''/w'', metricsCertPath := ''/m''\<rparr>"

lemma demo_flag_names: "distinct (map_keys (managerFlagVars @ libraryFlagVars demo_runtime))"
  by (simp add: managerFlagVars_def libraryFlagVars_def demo_runtime_def map_keys_def)

lemma demo_parse: "parseCommandLine demo_runtime (renderFlags demo_flags) = Inr demo_flags"
  using demo_flag_names by (rule parseCommandLine_rendered)

lemma demo_succeeds: "\<not> fails demo_runtime h r"
  by (cases r) (simp_all add: demo_runtime_def)

definition demo_start :: "nat \<times> process" where
  "demo_start = session_main demo_runtime demo_grow (renderFlags demo_flags)"

section \<open>The command line\<close>

text \<open>
  C31. The flags are read as they are written.  A command line of settings \<open>--name=value\<close> of the eleven flags
  of the program, in any order, repeated or left out, gives each flag the last value written for it, or its
  default if there is none; in particular a line that sets every flag gives exactly those values and the
  empty line the defaults.  An argument that is no flag ends the flags.  A name that neither the program nor
  its libraries define ends the process with code 2, except \<open>help\<close> and \<open>h\<close>, which end it with code 0, and so
  does a boolean flag with a value that is not a boolean, with code 2; whatever follows them.
\<close>

theorem flags_round_trip:
  assumes "distinct (map_keys (managerFlagVars @ libraryFlagVars R))" and "settings_ok ss"
  defines "line \<equiv> map (\<lambda>(name, v). renderFlag name v) ss"
  shows "parseCommandLine R line = Inr (flags_of ss) \<and>
    parseCommandLine R (renderFlags f) = Inr f \<and> parseCommandLine R [] = Inr flagDefaults \<and>
    (\<forall>arg args. \<not> isFlag arg \<longrightarrow> parseCommandLine R (line @ arg # args) = Inr (flags_of ss)) \<and>
    (\<forall>name args. flag_name_ok name \<and> name \<notin> set (map_keys (managerFlagVars @ libraryFlagVars R)) \<longrightarrow>
       parseCommandLine R (line @ (''--'' @ name) # args) = Inl (if name \<in> {''help'', ''h''} then 0 else 2)) \<and>
    (\<forall>name v args. name \<in> set bool_flags \<and> parseBool v = None \<longrightarrow>
       parseCommandLine R (line @ renderFlag name v # args) = Inl 2)"
proof (intro conjI allI impI; (elim conjE)?)
  let ?vars = "managerFlagVars @ libraryFlagVars R"
  note parse = parse_settings [OF assms(2), of "libraryFlagVars R" "rt_FlagDefaults R", folded line_def]
  have run: "parseCommandLine R args = (case parseArgs ?vars (flagDefaults, rt_FlagDefaults R) args of
      Inl HelpRequested \<Rightarrow> Inl 0 | Inl _ \<Rightarrow> Inl 2 | Inr ((f, z), rest) \<Rightarrow> Inr f)" for args
    using assms(1) by (simp add: parseCommandLine_def Let_def)
  show "parseCommandLine R line = Inr (flags_of ss)" using parse [of "[]"] by (simp add: run)
  show "parseCommandLine R (renderFlags f) = Inr f" using assms(1) by (rule parseCommandLine_rendered)
  show "parseCommandLine R [] = Inr flagDefaults" by (simp add: run)
  show "parseCommandLine R (line @ arg # args) = Inr (flags_of ss)" if "\<not> isFlag arg" for arg args
    by (simp add: run parse that)
  show "parseCommandLine R (line @ (''--'' @ name) # args) = Inl (if name \<in> {''help'', ''h''} then 0 else 2)"
    if "flag_name_ok name" "name \<notin> set (map_keys ?vars)" for name args
  proof -
    have "map_of ?vars name = None" using that(2) by (simp only: map_of_eq_None_iff map_keys_def set_map not_False_eq_True)
    from parse_undefined [OF that(1) this] show ?thesis unfolding run parse by simp
  qed
  show "parseCommandLine R (line @ renderFlag name v # args) = Inl 2"
    if "name \<in> set bool_flags" "parseBool v = None" for name v args
    unfolding run parse parse_bad_bool [OF that] by simp
qed

text \<open>Two flags, one of them twice; the others have their defaults.\<close>

lemma flags_round_trip_witness:
  "parseCommandLine demo_runtime [''--leader-elect=true'', ''--webhook-cert-path=/v'', ''--webhook-cert-path=/w''] =
     Inr (flagDefaults\<lparr>enableLeaderElection := True, webhookCertPath := ''/w''\<rparr>) \<and>
   parseCommandLine demo_runtime [''--leader-elect=maybe''] = Inl 2 \<and>
   parseCommandLine demo_runtime [''--leader-elect=true'', ''--help''] = Inl 0"
proof -
  have "settings_ok [(''leader-elect'', ''true''), (''webhook-cert-path'', ''/v''), (''webhook-cert-path'', ''/w'')]"
    by code_simp
  from flags_round_trip [OF demo_flag_names this]
  have "parseCommandLine demo_runtime [''--leader-elect=true'', ''--webhook-cert-path=/v'', ''--webhook-cert-path=/w''] =
      Inr (flags_of [(''leader-elect'', ''true''), (''webhook-cert-path'', ''/v''), (''webhook-cert-path'', ''/w'')])"
    by (simp add: renderFlag_def)
  moreover have "flags_of [(''leader-elect'', ''true''), (''webhook-cert-path'', ''/v''), (''webhook-cert-path'', ''/w'')] =
      flagDefaults\<lparr>enableLeaderElection := True, webhookCertPath := ''/w''\<rparr>" by code_simp
  moreover have "settings_ok []" "settings_ok [(''leader-elect'', ''true'')]" by code_simp+
  note flags_round_trip [OF demo_flag_names this(1)] flags_round_trip [OF demo_flag_names this(2)]
  then have bad: "\<forall>name v args. name \<in> set bool_flags \<and> parseBool v = None \<longrightarrow>
        parseCommandLine demo_runtime (renderFlag name v # args) = Inl 2"
    and undefined: "\<forall>name args. flag_name_ok name \<and> name \<notin> set (map_keys (managerFlagVars @ libraryFlagVars demo_runtime)) \<longrightarrow>
       parseCommandLine demo_runtime (renderFlag ''leader-elect'' ''true'' # (''--'' @ name) # args) =
         Inl (if name \<in> {''help'', ''h''} then 0 else 2)" by auto
  have "''leader-elect'' \<in> set bool_flags" "parseBool ''maybe'' = None" "flag_name_ok ''help''"
    "''help'' \<notin> set (map_keys (managerFlagVars @ libraryFlagVars demo_runtime))"
    by (simp_all add: bool_flags_def parseBool_def flag_name_ok_def managerFlagVars_def libraryFlagVars_def demo_runtime_def map_keys_def)
  with bad undefined have "parseCommandLine demo_runtime (renderFlag ''leader-elect'' ''maybe'' # []) = Inl 2"
    "parseCommandLine demo_runtime (renderFlag ''leader-elect'' ''true'' # (''--'' @ ''help'') # []) =
      Inl (if ''help'' \<in> {''help'', ''h''} then 0 else 2)" by blast+
  ultimately show ?thesis by (simp add: renderFlag_def)
qed

section \<open>The start\<close>

text \<open>
  C28. The start of each of the three processes: it starts its manager only after the schemes, the
  certificate watchers of the given paths, the configuration, the manager with the options of the
  command line, all requests of its own \<open>SetupWithManager\<close>, the watchers and both health checks, in this
  order and without another request, and its exit code is then that of the manager; a process that does
  not start its manager ends with code 0 only after a request for help.
\<close>

theorem start_sequence:
  assumes "(main, P, rs) \<in> set processes" and "main R grow args = (code, p)"
  shows "if StartManager \<in> set (process_Requests p)
    then \<exists>f webhook metrics. parseCommandLine R args = Inr f \<and>
      process_Requests p = startRequests R P f (managerOptionsOf R P f webhook metrics) rs \<and>
      code = (case rt_Start R (butlast (process_Requests p)) of None \<Rightarrow> 0 | Some _ \<Rightarrow> 1)
    else code = 0 \<longrightarrow> parseCommandLine R args = Inl 0"
  using process_outcome [OF assms(1) assms(1), of R grow args code p] assms(2) processes_main [OF assms(1), of R grow args]
  by (simp split: if_splits) (metis startedE)

lemma demo_process: "(session_main, sessionProcess,
    [IndexField PodKind podOwnerField, IndexField PodKind podTypeField,
     IndexField GCRegistrationKind gcRegistrationSessionField, CompleteController sessionSetup]) \<in> set processes"
  by (simp add: processes_def)

lemma demo_started: "fst demo_start = 0 \<and> StartManager \<in> set (process_Requests (snd demo_start))"
proof (rule runProcess_starts [OF demo_succeeds demo_parse])
  show "runProcess demo_runtime demo_grow sessionProcess (renderFlags demo_flags) = (fst demo_start, snd demo_start)"
    by (simp add: demo_start_def session_main_def)
qed (rule processes_continue [OF demo_process demo_succeeds])

lemma demo_start_run: "session_main demo_runtime demo_grow (renderFlags demo_flags) = (fst demo_start, snd demo_start)"
  by (simp add: demo_start_def)

lemma demo_paths: "filepathJoin ''/w'' ''tls.crt'' = ''/w/tls.crt''" "filepathJoin ''/w'' ''tls.key'' = ''/w/tls.key''"
    "filepathJoin ''/m'' ''tls.crt'' = ''/m/tls.crt''" "filepathJoin ''/m'' ''tls.key'' = ''/m/tls.key''"
  using join_simple [of "''w''"] join_simple [of "''m''"] by simp_all

lemma start_sequence_witness:
  "\<exists>options. process_Requests (snd demo_start) =
     [AddToScheme ClientGoGroup, AddToScheme SessionGroup, AddToScheme GCGroup,
      NewCertWatcher ''/w/tls.crt'' ''/w/tls.key'', NewCertWatcher ''/m/tls.crt'' ''/m/tls.key'',
      GetConfigOrDie, NewManager options,
      IndexField PodKind podOwnerField, IndexField PodKind podTypeField,
      IndexField GCRegistrationKind gcRegistrationSessionField, CompleteController sessionSetup,
      AddCertWatcher 4, AddCertWatcher 3, AddHealthzCheck ''healthz'', AddReadyzCheck ''readyz'', StartManager]"
proof -
  from demo_started have "StartManager \<in> set (process_Requests (snd demo_start))" by (rule conjunct2)
  from start_sequence [OF demo_process, OF demo_start_run, unfolded if_P [OF this]] obtain f webhook metrics where
    f: "parseCommandLine demo_runtime (renderFlags demo_flags) = Inr f" and
    p: "process_Requests (snd demo_start) = startRequests demo_runtime sessionProcess f
       (managerOptionsOf demo_runtime sessionProcess f webhook metrics)
       [IndexField PodKind podOwnerField, IndexField PodKind podTypeField,
        IndexField GCRegistrationKind gcRegistrationSessionField, CompleteController sessionSetup]"
    by (elim exE conjE)
  from f have "f = demo_flags" unfolding demo_parse by (rule sum.inject(2) [THEN iffD1, symmetric])
  with p have "process_Requests (snd demo_start) = startRequests demo_runtime sessionProcess demo_flags
       (managerOptionsOf demo_runtime sessionProcess demo_flags webhook metrics)
       [IndexField PodKind podOwnerField, IndexField PodKind podTypeField,
        IndexField GCRegistrationKind gcRegistrationSessionField, CompleteController sessionSetup]" by (simp only:)
  then show ?thesis
    by (simp add: startRequests_def schemeRequests_def sessionProcess_def certRequests_def webhookWatcher_def
        metricsWatcher_def watcherOf_def demo_flags_def flagDefaults_def demo_paths demo_runtime_def)
qed

text \<open>
  C29. An error ends the start: in each of the three processes a request that fails is the last one, and
  the process ends with a code other than 0; when no request fails and the command line is accepted, the
  manager is started and the code is 0.
\<close>

theorem start_stops_at_first_error:
  assumes "(main, P, rs) \<in> set processes" and "main R grow args = (code, p)"
  shows "(process_Requests p = u @ r # v \<and> fails R u r \<longrightarrow> v = [] \<and> code \<noteq> 0) \<and>
    ((\<forall>h r. \<not> fails R h r) \<and> parseCommandLine R args = Inr f \<longrightarrow> code = 0 \<and> StartManager \<in> set (process_Requests p))"
proof (intro conjI impI; (elim conjE)?)
  note run = assms(2) [unfolded processes_main [OF assms(1)]]
  show "code = 0" "StartManager \<in> set (process_Requests p)"
    if "\<forall>h r. \<not> fails R h r" "parseCommandLine R args = Inr f"
    using runProcess_starts [OF _ that(2) run] processes_continue [OF assms(1)] that(1) by blast+
  show "v = []" "code \<noteq> 0" if "process_Requests p = u @ r # v" "fails R u r"
    using runProcess_checked [OF processes_checked [OF assms(1)] run] that by (auto simp: checked_run_def)
qed

lemma start_stops_at_first_error_witness:
  "fst demo_start = 0 \<and> StartManager \<in> set (process_Requests (snd demo_start)) \<and>
   fst (session_main (demo_runtime\<lparr>rt_AddToScheme := \<lambda>_ _. Some ''broken''\<rparr>) demo_grow []) \<noteq> 0"
proof -
  let ?R = "demo_runtime\<lparr>rt_AddToScheme := \<lambda>_ _. Some ''broken''\<rparr>"
  let ?run = "session_main ?R demo_grow []"
  have run: "session_main ?R demo_grow [] = (fst ?run, snd ?run)" by simp
  have log: "process_Requests (snd ?run) = [] @ AddToScheme ClientGoGroup # []"
    by (simp add: session_main_def runProcess_def sessionProcess_def initScheme_def mustAdd_def andThen_def process_init_def)
  have "fails ?R [] (AddToScheme ClientGoGroup)" by simp
  with log have "fst ?run \<noteq> 0" using conjunct1 [OF start_stops_at_first_error [OF demo_process, OF run]] by blast
  moreover have "fst demo_start = 0 \<and> StartManager \<in> set (process_Requests (snd demo_start))"
    using conjunct2 [OF start_stops_at_first_error [OF demo_process, OF demo_start_run]] demo_succeeds demo_parse by blast
  ultimately show ?thesis by blast
qed

section \<open>The servers\<close>

text \<open>
  C30. The servers get their own TLS settings: with the options of the started manager the metrics server
  serves the certificate of the metrics files and the webhook server that of the webhook files, each only
  when its path was given, and both disable HTTP/2 unless the flag enables it.  The two lists start as one
  slice: were the first append to leave room behind its element, then with both paths given the webhook
  server would serve the certificate of the metrics.
\<close>

theorem servers_own_certificates:
  assumes "(main, P, rs) \<in> set processes" and "main R grow args = (code, p)"
    and "StartManager \<in> set (process_Requests p)" and "NewManager options \<in> set (process_Requests p)"
    and "parseCommandLine R args = Inr f" and "grows_enough grow"
  shows "let webhook = fold applyOption (tlsOptions (process_Memory p) (manager_WebhookTLSOpts options));
      metrics = fold applyOption (tlsOptions (process_Memory p) (metrics_TLSOpts (manager_Metrics options)));
      http2 = enableHTTP2 f; w = webhookWatcher R P f; v = metricsWatcher R P f
    in metrics = ownConfig http2 v \<and>
      webhook = ownConfig http2 (if \<not> http2 \<and> 1 < grow 0 1 \<and> w \<noteq> None \<and> v \<noteq> None then v else w)"
proof -
  from process_outcome [OF assms(1), OF assms(1), of R grow args code p] assms(2, 3, 5) processes_main [OF assms(1), of R grow args]
  have "started R grow P rs f code p" by simp
  from started_manager [OF assms(1) this assms(4)] obtain webhook metrics where
    o: "options = managerOptionsOf R P f webhook metrics" and
    run: "run_state (serverOptions grow (enableHTTP2 f) (webhookWatcher R P f) (metricsWatcher R P f)) emptyMemory
      = ((webhook, metrics), process_Memory p)" by blast
  show ?thesis unfolding o
    unfolding Let_def managerOptionsOf_def managerOptions.simps metricsOptions.simps serverOptions_exact [OF assms(6) run]
    by (simp only: fold_ownOptions fun_eq_iff simp_thms)
qed

lemma demo_server_options: "\<exists>options. NewManager options \<in> set (process_Requests (snd demo_start))"
proof -
  have "\<exists>f. parseCommandLine demo_runtime (renderFlags demo_flags) = Inr f \<and>
      started demo_runtime demo_grow sessionProcess [IndexField PodKind podOwnerField, IndexField PodKind podTypeField,
        IndexField GCRegistrationKind gcRegistrationSessionField, CompleteController sessionSetup] f (fst demo_start) (snd demo_start)"
    using process_outcome [OF demo_process, OF demo_process, of demo_runtime demo_grow "renderFlags demo_flags" "fst demo_start" "snd demo_start"]
      demo_started by (simp add: demo_start_def session_main_def)
  then show ?thesis using started_prefix [OF demo_process, of demo_runtime demo_grow] by (metis UnI1 set_append)
qed

lemma servers_own_certificates_witness:
  "\<exists>options. NewManager options \<in> set (process_Requests (snd demo_start)) \<and>
     fold applyOption (tlsOptions (process_Memory (snd demo_start)) (manager_WebhookTLSOpts options))
       \<lparr>tls_NextProtos = [''h2''], tls_GetCertificate = None\<rparr>
     = \<lparr>tls_NextProtos = [''http/1.1''], tls_GetCertificate = Some 3\<rparr>"
proof -
  obtain options where o: "NewManager options \<in> set (process_Requests (snd demo_start))" using demo_server_options by blast
  have grow: "grows_enough demo_grow" by (simp add: grows_enough_def demo_grow_def)
  have w: "webhookWatcher demo_runtime sessionProcess demo_flags = Some 3"
    by (simp add: webhookWatcher_def watcherOf_def schemeRequests_def sessionProcess_def demo_flags_def demo_runtime_def)
  have "fold applyOption (tlsOptions (process_Memory (snd demo_start)) (manager_WebhookTLSOpts options)) =
      ownConfig False (Some 3)"
    using servers_own_certificates [OF demo_process, OF demo_start_run, OF conjunct2 [OF demo_started] o demo_parse grow] w
    by (simp add: demo_grow_def demo_flags_def flagDefaults_def Let_def)
  with o show ?thesis by (intro exI [of _ options]) (simp add: ownConfig_def)
qed

section \<open>What the controllers ask\<close>

text \<open>
  C16. The manager of a started process can serve every request of its controller: the scheme it was
  created with knows the kind of each object that a run of the controller asks for, and each field by
  which a run selects objects got its index before the manager started.
\<close>

theorem manager_serves_requests:
  assumes "session_main R grow args = (code, p) \<and> run_state (Reconcile K H ord u ns name) h = (x, h @ t) \<or>
      gc_main R grow args = (code, p) \<and> run_state (ReconcileGC K) h = (y, h @ t) \<or>
      network_main R grow args = (code, p) \<and> run_state (ReconcileNetwork K visits ns) h = (z, h @ t)"
    and "{PodKind, ServiceKind, NamespaceKind, IngressKind} \<subseteq> set (rt_ClientGoKinds R)"
    and "StartManager \<in> set (process_Requests p)" and "r \<in> set t"
  shows "\<exists>before options. process_Requests p = before @ [StartManager] \<and> NewManager options \<in> set before \<and>
    request_kind r \<in> set (manager_Scheme options) \<and>
    (\<forall>(k, field) \<in> set (request_fields r). IndexField k field \<in> set before)"
proof -
  have "\<exists>main P rs. (main, P, rs) \<in> set processes \<and> main R grow args = (code, p) \<and>
      request_kind r \<in> set (schemeKinds R (proc_Groups P)) \<and>
      (\<forall>(k, field) \<in> set (request_fields r). IndexField k field \<in> set rs)"
    using assms(1)
  proof (elim disjE conjE)
    assume main: "session_main R grow args = (code, p)" and run: "run_state (Reconcile K H ord u ns name) h = (x, h @ t)"
    have "session_allowed r" using makesD [OF session_Reconcile run] assms(4) by (auto simp: list_all_iff)
    with main assms(2) demo_process show ?thesis
      by (intro exI [of _ session_main] exI [of _ sessionProcess] exI [of _ "[IndexField PodKind podOwnerField,
          IndexField PodKind podTypeField, IndexField GCRegistrationKind gcRegistrationSessionField, CompleteController sessionSetup]"])
        (auto simp: processes_def session_allowed_def sessionProcess_def schemeKinds_def groupKinds_def sessionGroupKinds_def gcGroupKinds_def
          indexedFields_def)
  next
    assume main: "gc_main R grow args = (code, p)" and run: "run_state (ReconcileGC K) h = (y, h @ t)"
    have "gc_allowed r" using makesD [OF gc_Reconcile run] assms(4) by (auto simp: list_all_iff)
    with main assms(2) show ?thesis
      by (intro exI [of _ gc_main] exI [of _ gcProcess] exI [of _ "[CompleteController gcSetup]"])
        (auto simp: processes_def gc_allowed_def gcProcess_def schemeKinds_def groupKinds_def sessionGroupKinds_def gcGroupKinds_def)
  next
    assume main: "network_main R grow args = (code, p)" and run: "run_state (ReconcileNetwork K visits ns) h = (z, h @ t)"
    have "network_allowed r" using makesD [OF network_Reconcile run] assms(4) by (auto simp: list_all_iff)
    with main assms(2) show ?thesis
      by (intro exI [of _ network_main] exI [of _ networkProcess] exI [of _ "[CompleteController networkSetup]"])
        (auto simp: processes_def network_allowed_def networkProcess_def schemeKinds_def groupKinds_def)
  qed
  then obtain main P rs where P: "(main, P, rs) \<in> set processes" and main: "main R grow args = (code, p)" and
    ok: "request_kind r \<in> set (schemeKinds R (proc_Groups P))" "\<forall>(k, field) \<in> set (request_fields r). IndexField k field \<in> set rs"
    by blast
  from process_outcome [OF P, OF P, of R grow args code p] assms(3) main processes_main [OF P, of R grow args]
  obtain f where "started R grow P rs f code p" by auto
  from started_prefix [OF P this] ok show ?thesis by fastforce
qed

definition demo_gc_start :: "nat \<times> process" where
  "demo_gc_start = gc_main demo_runtime demo_grow (renderFlags demo_flags)"

lemma demo_gc_process: "(gc_main, gcProcess, [CompleteController gcSetup]) \<in> set processes"
  by (simp add: processes_def)

lemma demo_gc_started: "StartManager \<in> set (process_Requests (snd demo_gc_start))"
proof -
  have "runProcess demo_runtime demo_grow gcProcess (renderFlags demo_flags) = (fst demo_gc_start, snd demo_gc_start)"
    by (simp add: demo_gc_start_def gc_main_def)
  from runProcess_starts [OF demo_succeeds demo_parse this] processes_continue [OF demo_gc_process demo_succeeds]
  show ?thesis by blast
qed

lemma manager_serves_requests_witness:
  "\<exists>before options. process_Requests (snd demo_gc_start) = before @ [StartManager] \<and> NewManager options \<in> set before \<and>
     request_kind (DeletePod demo_spare_pod) \<in> set (manager_Scheme options)"
proof -
  have start: "gc_main demo_runtime demo_grow (renderFlags demo_flags) = (fst demo_gc_start, snd demo_gc_start)"
    by (simp add: demo_gc_start_def)
  have kinds: "{PodKind, ServiceKind, NamespaceKind, IngressKind} \<subseteq> set (rt_ClientGoKinds demo_runtime)"
    by (simp add: demo_runtime_def)
  show ?thesis
    using manager_serves_requests [OF disjI2 [OF disjI1 [OF conjI [OF start demo_gc_run_append]]] kinds demo_gc_started,
        of "DeletePod demo_spare_pod"] by auto
qed

text \<open>
  C15. The controllers stay within their roles: every request of a run of the session, GC or network
  controller, whatever the API server answers, is permitted by the role that the controller declares,
  together with the list and watch permissions of the cache behind a read, and each role lets the
  controller list and watch every kind its setup asks for.
\<close>

theorem requests_permitted:
  assumes "run_state (Reconcile K H ord u ns name) h = (x, h @ t) \<and> role = sessionRole \<and> own = sessionSetup \<or>
    run_state (ReconcileGC K) h = (y, h @ t) \<and> role = gcRole \<and> own = gcSetup \<or>
    run_state (ReconcileNetwork K visits ns) h = (z, h @ t) \<and> role = networkRole \<and> own = networkSetup"
  shows "list_all (permits role) t \<and> list_all (permits_watch role) (watched_kinds own)"
  using assms
proof (elim disjE conjE)
  assume "run_state (Reconcile K H ord u ns name) h = (x, h @ t)" "role = sessionRole" "own = sessionSetup"
  then show ?thesis using makes_permits [OF session_Reconcile] setups_permitted by (auto simp: session_allowed_def)
next
  assume "run_state (ReconcileGC K) h = (y, h @ t)" "role = gcRole" "own = gcSetup"
  then show ?thesis using makes_permits [OF gc_Reconcile] setups_permitted by (auto simp: gc_allowed_def)
next
  assume "run_state (ReconcileNetwork K visits ns) h = (z, h @ t)" "role = networkRole" "own = networkSetup"
  then show ?thesis using makes_permits [OF network_Reconcile] setups_permitted by (auto simp: network_allowed_def)
qed

lemma requests_permitted_witness:
  "permits gcRole (DeletePod demo_spare_pod) \<and> \<not> permits networkRole (DeletePod demo_spare_pod)"
proof
  show "permits gcRole (DeletePod demo_spare_pod)"
    using requests_permitted [OF disjI2 [OF disjI1 [OF conjI [OF demo_gc_run_append conjI [OF refl refl]]]]] by simp
  show "\<not> permits networkRole (DeletePod demo_spare_pod)" by (simp add: permits_def networkRole_def)
qed

end
