(* ===== verification/Client_Seating.thy ===== *)
theory Client_Seating
  imports Client_Total_Properties
begin

text \<open>
  How the status seats the clients: the clients that name a pod, which no call of
  \<open>ReconcileClientPods\<close> lets grow over the capacity of the template, and the pods of a client, one for each
  template.
\<close>

section \<open>Seating\<close>

definition occupants :: "(string, clientStatus) gomap \<Rightarrow> string \<Rightarrow> string set" where
  "occupants st n = {c. \<exists>v. map_of st c = Some v \<and> n \<in> dom (map_of (clientStatus_PodStatus v))}"

text \<open>A client has one pod of each template and no other pod.\<close>

definition seated :: "string set \<Rightarrow> clientStatus \<Rightarrow> bool" where
  "seated ts v \<longleftrightarrow> map_ok (clientStatus_PodStatus v) \<and>
     (\<exists>f. dom (map_of (clientStatus_PodStatus v)) = f ` ts \<and> (\<forall>t \<in> ts. templateNameOf (f t) = Some t))"

lemma seated_pods:
  assumes "seated ts v"
  shows "(\<forall>t \<in> ts. \<exists>!n. n \<in> dom (map_of (clientStatus_PodStatus v)) \<and> templateNameOf n = Some t) \<and>
    (\<forall>n \<in> dom (map_of (clientStatus_PodStatus v)). \<exists>t \<in> ts. templateNameOf n = Some t)"
proof -
  from assms obtain f where f: "dom (map_of (clientStatus_PodStatus v)) = f ` ts"
    "\<And>t. t \<in> ts \<Longrightarrow> templateNameOf (f t) = Some t"
    unfolding seated_def by blast
  have "\<exists>!n. n \<in> f ` ts \<and> templateNameOf n = Some t" if "t \<in> ts" for t
    using f(2) that by (intro ex1I [of _ "f t"]) auto
  with f(2) show ?thesis unfolding f(1) by blast
qed

definition all_seated :: "string set \<Rightarrow> (string, clientStatus) gomap \<Rightarrow> bool" where
  "all_seated ts st \<longleftrightarrow> (\<forall>c v. map_of st c = Some v \<longrightarrow> seated ts v)"

text \<open>The capacity of the template that a pod belongs to; at least one client is always let in.\<close>

definition within :: "(string \<Rightarrow> int) \<Rightarrow> (string, clientStatus) gomap \<Rightarrow> bool" where
  "within cap st \<longleftrightarrow> (\<forall>n t. templateNameOf n = Some t \<longrightarrow> int (card (occupants st n)) \<le> max 1 (cap t))"

lemma occupants_finite [simp]: "finite (occupants st n)"
proof (rule finite_subset)
  show "occupants st n \<subseteq> dom (map_of st)" by (auto simp: occupants_def)
qed (simp add: finite_dom_map_of)

lemma within_less:
  assumes "within cap st" and "\<And>n. occupants st' n \<subseteq> occupants st n"
  shows "within cap st'"
  unfolding within_def
proof (intro allI impI)
  fix n t
  assume "templateNameOf n = Some t"
  then have "int (card (occupants st n)) \<le> max 1 (cap t)" using assms(1) by (simp add: within_def)
  moreover have "card (occupants st' n) \<le> card (occupants st n)" using assms(2) by (intro card_mono) simp_all
  ultimately show "int (card (occupants st' n)) \<le> max 1 (cap t)" by simp
qed

text \<open>A status with fewer clients, each with the pods it had.\<close>

definition fewer :: "(string, clientStatus) gomap \<Rightarrow> (string, clientStatus) gomap \<Rightarrow> bool" where
  "fewer st' st \<longleftrightarrow> (\<forall>c v. map_of st' c = Some v \<longrightarrow>
     (\<exists>w. map_of st c = Some w \<and> clientStatus_PodStatus v = clientStatus_PodStatus w))"

lemma fewer_occupants: "fewer st' st \<Longrightarrow> occupants st' n \<subseteq> occupants st n"
  unfolding fewer_def occupants_def by fastforce

lemma fewer_within: "fewer st' st \<Longrightarrow> within cap st \<Longrightarrow> within cap st'"
  using within_less fewer_occupants by metis

lemma fewer_seated: "fewer st' st \<Longrightarrow> all_seated ts st \<Longrightarrow> all_seated ts st'"
  unfolding fewer_def all_seated_def seated_def by metis

section \<open>No client sits twice in a pod\<close>

definition once :: "pod list \<Rightarrow> bool" where
  "once ps \<longleftrightarrow> (\<forall>p \<in> set ps. distinct (map podClient_Id (pod_Clients p)))"

lemma once_join:
  assumes "once ps" and "\<And>y. (n, y) \<in> seats_in ps \<Longrightarrow> podClient_Id y \<noteq> podClient_Id c"
  shows "once (join_pod n c ps)"
proof (rule join_pod_cases [of n ps c])
  assume "join_pod n c ps = ps @ [\<lparr>pod_Name = n, pod_Clients = [c]\<rparr>]"
  with assms(1) show ?thesis by (auto simp: once_def)
next
  fix as p bs
  assume ps: "ps = as @ p # bs" "pod_Name p = n"
    and join: "join_pod n c ps = as @ p\<lparr>pod_Clients := pod_Clients p @ [c]\<rparr> # bs"
  have "podClient_Id c \<notin> podClient_Id ` set (pod_Clients p)" using assms(2) ps by fastforce
  moreover have "\<forall>q \<in> set (as @ p # bs). distinct (map podClient_Id (pod_Clients q))"
    using assms(1) unfolding once_def ps(1) .
  ultimately show ?thesis unfolding join once_def by auto
qed

lemma once_build:
  assumes "fold_opt (buildAllocationPod c) ns (am, ru) = Some (am', ru')" and "distinct ns"
    and "\<And>t. once (pods_of am t)" and "\<And>n y. n \<in> set ns \<Longrightarrow> (n, y) \<in> seats am \<Longrightarrow> podClient_Id y \<noteq> podClient_Id c"
  shows "once (pods_of am' t)"
  using assms
proof (induction ns arbitrary: am ru)
  case (Cons n ns)
  then obtain am1 ru1 where step: "buildAllocationPod c n (am, ru) = Some (am1, ru1)"
    and rest: "fold_opt (buildAllocationPod c) ns (am1, ru1) = Some (am', ru')"
    by (auto split: Option.bind_splits)
  have "once (pods_of am1 u)" for u
    using step
  proof (cases rule: buildAllocationPod_step)
    case (1 v)
    have "(n, y) \<in> seats am" if "(n, y) \<in> seats_in (pods_of am v)" for y using that by (auto simp: seats_def)
    with once_join [of "pods_of am v" n c] Cons.prems(3,4) 1(2) show ?thesis by auto
  qed
  moreover have "podClient_Id y \<noteq> podClient_Id c" if "m \<in> set ns" "(m, y) \<in> seats am1" for m y
    using that Cons.prems(2,4) unfolding buildAllocationPod_seats [OF step] by auto
  ultimately show ?case using Cons.IH [OF rest] Cons.prems(2) by simp
qed simp

lemma once_status_loop:
  assumes ord: "permutes_keys ord" and "fold_opt (reconcileStatusClient ord spec) cs (st, am, ru) = Some (st', am', ru')"
    and "distinct cs" and "\<And>t. once (pods_of am t)" and "\<And>n y. (n, y) \<in> seats am \<Longrightarrow> podClient_Id y \<notin> set cs"
    and "all_seated ts st"
  shows "once (pods_of am' t)"
  using assms(2-)
proof (induction cs arbitrary: st am ru)
  case (Cons c cs)
  then obtain st1 am1 ru1 where step: "reconcileStatusClient ord spec c (st, am, ru) = Some (st1, am1, ru1)"
    and rest: "fold_opt (reconcileStatusClient ord spec) cs (st1, am1, ru1) = Some (st', am', ru')"
    by (auto split: Option.bind_splits)
  note rel = reconcileStatusClient_rel [OF ord step, unfolded status_rel_def]
  have seats: "seats am1 = seats am \<union> named_all spec st {c}" using rel by blast
  have "once (pods_of am1 u)" for u
  proof (cases "map_of st c = None \<or> map_of spec c = None")
    case True
    with step Cons.prems(3) show ?thesis by (auto simp: reconcileStatusClient_def split: option.splits if_splits)
  next
    case False
    then obtain v where v: "map_of st c = Some v" "map_of spec c \<noteq> None" by (cases "map_of st c") auto
    with step have build: "buildAllocationMap ord c v (isClientConnected v) (am, ru) = Some (am1, ru1)"
      by (auto simp: reconcileStatusClient_def split: Option.bind_splits)
    have "map_ok (clientStatus_PodStatus v)" using Cons.prems(5) v(1) by (simp add: all_seated_def seated_def)
    then have "distinct (ord (RangePodStatus c) (map_keys (clientStatus_PodStatus v)))"
      using ord by (simp add: go_order_simps map_ok_keys)
    from once_build [OF build [unfolded buildAllocationMap_def] this Cons.prems(3)] Cons.prems(4) show ?thesis by force
  qed
  moreover have "podClient_Id y \<notin> set cs" if "(n, y) \<in> seats am1" for n y
    using that Cons.prems(2,4) unfolding seats by (fastforce simp: named_all_def named_pods_def)
  moreover have "all_seated ts st1" using rel Cons.prems(5) by (auto simp: all_seated_def split: if_splits)
  ultimately show ?case using Cons.IH [OF rest] Cons.prems(2) by simp
qed simp

section \<open>From the allocation map to the status and back\<close>

lemma seat_template:
  assumes "home am" and "p \<in> set (pods_of am t)"
  shows "templateNameOf (pod_Name p) = Some t"
  using assms unfolding home_def by (auto simp: pod_names_def)

lemma agree_seat: "agree st am \<Longrightarrow> (n, y) \<in> seats am \<Longrightarrow> podClient_Id y \<in> occupants st n"
  unfolding agree_def occupants_def by auto

lemma agree_occupant: "agree st am \<Longrightarrow> c \<in> occupants st n \<Longrightarrow> \<exists>y. podClient_Id y = c \<and> (n, y) \<in> seats am"
proof -
  assume agree: "agree st am" and "c \<in> occupants st n"
  then obtain v where "map_of st c = Some v" "n \<in> dom (map_of (clientStatus_PodStatus v))"
    unfolding occupants_def by blast
  with agree have "(n, seat_of c v) \<in> seats am" unfolding agree_def by blast
  moreover have "podClient_Id (seat_of c v) = c" by simp
  ultimately show ?thesis by blast
qed

lemma room_from_status:
  assumes "agree st am" and "home am" and "once (pods_of am t)" and "within cap st"
  shows "room_in (cap t) (pods_of am t)"
  unfolding room_in_def
proof
  fix p
  assume p: "p \<in> set (pods_of am t)"
  have "podClient_Id ` set (pod_Clients p) \<subseteq> occupants st (pod_Name p)"
  proof (rule image_subsetI)
    fix y
    assume "y \<in> set (pod_Clients p)"
    with p have "(pod_Name p, y) \<in> seats am" by (auto simp: seats_def seats_in_def)
    with assms(1) show "podClient_Id y \<in> occupants st (pod_Name p)" by (rule agree_seat)
  qed
  then have "card (podClient_Id ` set (pod_Clients p)) \<le> card (occupants st (pod_Name p))" by (intro card_mono) simp_all
  moreover have "card (podClient_Id ` set (pod_Clients p)) = length (pod_Clients p)"
    using assms(3) p distinct_card [of "map podClient_Id (pod_Clients p)"] by (simp add: once_def)
  moreover have "int (card (occupants st (pod_Name p))) \<le> max 1 (cap t)"
    using assms(4) seat_template [OF assms(2) p] by (simp add: within_def)
  ultimately show "client_count p \<le> max 1 (cap t)" by simp
qed

lemma status_from_room:
  assumes "agree st am" and "home am" and "pods_inv am ru" and room: "\<And>t. room_in (cap t) (pods_of am t)"
  shows "within cap st"
  unfolding within_def
proof (intro allI impI)
  fix n t
  assume t: "templateNameOf n = Some t"
  have pod: "p \<in> set (pods_of am t)" if "p \<in> set (pods_of am u)" "pod_Name p = n" for p u
    using seat_template [OF assms(2) that(1)] that t by simp
  show "int (card (occupants st n)) \<le> max 1 (cap t)"
  proof (cases "n \<in> set (pod_names am t)")
    case True
    then obtain p where p: "p \<in> set (pods_of am t)" "pod_Name p = n" by (auto simp: pod_names_def)
    have "occupants st n \<subseteq> podClient_Id ` set (pod_Clients p)"
    proof
      fix c
      assume "c \<in> occupants st n"
      with assms(1) obtain y where y: "podClient_Id y = c" "(n, y) \<in> seats am" using agree_occupant by metis
      then obtain q u where q: "q \<in> set (pods_of am u)" "pod_Name q = n" "y \<in> set (pod_Clients q)"
        by (auto simp: seats_def seats_in_def)
      have "inj_on pod_Name (set (pods_of am t))"
        using assms(3) by (simp add: pods_inv_def pod_names_def distinct_map)
      with pod [OF q(1,2)] p q(2) have "q = p" by (auto dest: inj_onD)
      with q(3) y(1) show "c \<in> podClient_Id ` set (pod_Clients p)" by blast
    qed
    then have "card (occupants st n) \<le> card (podClient_Id ` set (pod_Clients p))" by (rule card_mono [rotated]) simp
    also have "\<dots> \<le> card (set (pod_Clients p))" by (rule card_image_le) simp
    also have "\<dots> \<le> length (pod_Clients p)" by (rule card_length)
    finally have "card (occupants st n) \<le> length (pod_Clients p)" .
    with room [of t] p(1) show ?thesis by (fastforce simp: room_in_def)
  next
    case False
    have "occupants st n = {}"
    proof (rule ccontr)
      assume "occupants st n \<noteq> {}"
      then obtain y where "(n, y) \<in> seats am" using assms(1) agree_occupant by fastforce
      then obtain q u where "q \<in> set (pods_of am u)" "pod_Name q = n" by (auto simp: seats_def seats_in_def)
      with pod [OF this] False show False by (auto simp: pod_names_def)
    qed
    then show ?thesis by simp
  qed
qed

section \<open>One call of the plan\<close>

lemma new_client_seated:
  assumes "new_client_status (f ` ts) v" and "\<And>t. t \<in> ts \<Longrightarrow> templateNameOf (f t) = Some t"
  shows "seated ts v"
  using assms unfolding seated_def new_client_status_def by blast

lemma allocate_room:
  assumes "permutes_keys ord" and "map_ok am" and "allocateClients ord u s new (am, ru, st) = (am', ru', st')"
    and "\<And>t. max_of am t = cap t" and "\<And>t. room_in (cap t) (pods_of am t)"
  shows "room_in (cap t) (pods_of am' t)" and "dom (map_of am') = dom (map_of am)"
proof -
  have "room_in (cap t) (pods_of am' t) \<and> map_keys am' = map_keys am \<and> template_of am' t = template_of am t" for t
    by (intro allocateClients_invariant [OF assms(1-3), where Q = "\<lambda>t. room_in (cap t)"])
      (use assms(4,5) placed_room in metis)+
  then show "room_in (cap t) (pods_of am' t)" and "dom (map_of am') = dom (map_of am)"
    by (auto simp flip: set_map_keys)
qed

lemma allocate_seated:
  assumes "permutes_keys ord" and "map_ok am" and "distinct new"
    and "allocateClients ord u s new (am, ru, st) = (am', ru', st')"
    and "home am'" and "dom (map_of am) = ts" and "all_seated ts st"
  shows "all_seated ts st'"
proof -
  from allocateClients_seats [OF assms(1-4)] obtain f where
    f: "\<forall>t. seats_in (pods_of am' t) = seats_in (pods_of am t) \<union>
        (if t \<in> dom (map_of am) then (\<lambda>c. (f c t, connected c)) ` set new else {})"
      "\<forall>c. c \<notin> set new \<longrightarrow> map_of st' c = map_of st c"
      "\<forall>c \<in> set new. \<exists>v. map_of st' c = Some v \<and> new_client_status (f c ` dom (map_of am)) v" by blast
  have "templateNameOf (f c t) = Some t" if "c \<in> set new" "t \<in> ts" for c t
  proof -
    have "(f c t, connected c) \<in> seats_in (pods_of am' t)" using f(1) that by (simp add: assms(6))
    then obtain p where "p \<in> set (pods_of am' t)" "pod_Name p = f c t" by (auto simp: seats_in_def)
    with seat_template [OF assms(5) this(1)] show ?thesis by simp
  qed
  then have "seated ts v" if "map_of st' c = Some v" for c v
    using that f(2,3) assms(7) new_client_seated [of "f c" ts v]
    by (cases "c \<in> set new") (auto simp: all_seated_def assms(6))
  then show ?thesis unfolding all_seated_def by blast
qed

lemma plan_seats:
  assumes ord: "permutes_keys ord" and ok: "session_ok session" and fresh: "uuid_fresh u session items"
    and plan: "planClientPods ord u now session items = Some (st, am, ru, tm)"
  defines "ts \<equiv> spec_ClientPodTemplates (session_Spec session)"
    and "st0 \<equiv> entries (status_Clients (session_Status session))"
  assumes "within (max_of (initAllocationMap ts)) st0" and "all_seated (template_Name ` set ts) st0"
  shows "within (max_of (initAllocationMap ts)) st \<and> all_seated (template_Name ` set ts) st"
  using plan
proof (cases rule: planClientPods_split)
  case (1 st1 new st2 am2 ru2)
  let ?cap = "max_of (initAllocationMap ts)" and ?T = "template_Name ` set ts"
  have maps: "session_maps_ok session" and names: "names_split session" "pods_of_templates session"
    using ok by (simp_all add: session_ok_def)
  note st1 = planStatus_spec [OF ord maps 1(1)]
  have "fewer st1 st0" unfolding fewer_def st0_def using st1(5) by blast
  with assms(7,8) have in1: "within ?cap st1" "all_seated ?T st1" using fewer_within fewer_seated by blast+
  note middle = plan_middle_status [OF ord maps 1(1,2,3)]
  have "fewer st2 st1" unfolding fewer_def using middle(2) by (auto split: if_splits)
  with in1 have in2: "within ?cap st2" "all_seated ?T st2" using fewer_within fewer_seated by blast+
  show ?thesis using 1(4)
  proof (elim disjE conjE exE)
    assume "st = st2"
    with in2 show ?thesis by simp
  next
    fix am3
    assume s: "sortAllocationMap am2 = Some am3"
      and a: "allocateClients ord u (session_Name session) new (am3, ru2, st2) = (am, ru, st)"
    have once: "once (pods_of am2 t)" for t
    proof (rule once_status_loop [OF ord 1(3) _ _ _ in1(2)])
      show "distinct (ord RangeStatusClients (map_keys st1))" using ord st1(1) by (simp add: go_order_simps map_ok_keys)
    qed (simp_all add: initAllocationMap_pods once_def)
    have m2: "agree st2 am2" "home am2" using middle(1) unfolding plan_middle_def by blast+
    have m3: "map_ok am3" "\<forall>t. max_of am3 t = ?cap t"
      using plan_middle_sort [OF middle(1) s] unfolding plan_middle_def ts_def by simp_all
    have "room_in (?cap t) (pods_of am3 t)" for t
      using room_from_status [OF m2 once in2(1), of t] unfolding room_in_def sort_sets(2) [OF s] .
    note room = allocate_room [OF ord m3(1) a, of ?cap, OF m3(2) [rule_format] this]
    have e: "agree st am" "pods_inv am ru"
      using plan_end_client_pods(1) [OF ord maps fresh plan] unfolding plan_end_def by blast+
    have n: "home am" "dom (map_of am) = ?T" using plan_end_names [OF ord maps names plan] unfolding ts_def by blast+
    have "all_seated ?T st" using allocate_seated [OF ord m3(1) st1(3) a n(1) _ in2(2)] room(2) n(2) by simp
    with status_from_room [OF e(1) n(1) e(2) room(1)] show ?thesis ..
  qed
qed

section \<open>The report keeps the seats\<close>

definition rows_ok :: "(string, clientStatus) gomap \<Rightarrow> bool" where
  "rows_ok st \<longleftrightarrow> (\<forall>c v. map_of st c = Some v \<longrightarrow> map_ok (clientStatus_PodStatus v))"

lemma rows_ok_turn:
  assumes "rows_ok st" and "seat_turn e st = Some st'"
  shows "rows_ok st'"
  using assms unfolding seat_turn_def setOneClientReadiness_def rows_ok_def
  by (auto simp: Let_def split: option.splits if_splits Option.bind_splits)

lemma reconcilePods_rows_ok:
  assumes "rows_ok st" and "reconcilePods ord am st tm ip = Some (st', out)"
  shows "rows_ok st'"
proof -
  from assms(2) have "fold_opt seat_turn
      (all_seats tm ip (map (map_get_zero zero_allocationValue am) (ord RangeAllocationSpawn (map_keys am)))) st = Some st'"
    by (auto simp: reconcilePods_flat Let_def)
  then show ?thesis by (rule fold_opt_invariant [where P = rows_ok]) (use rows_ok_turn assms(1) in blast)+
qed

lemma reconcilePods_seats:
  assumes run: "reconcilePods ord am st tm ip = Some (st', out)" and "within cap st" and "all_seated ts st"
  shows "within cap st' \<and> all_seated ts st'"
proof
  have row: "\<exists>w. map_of st c = Some w \<and> dom (map_of (clientStatus_PodStatus v)) = dom (map_of (clientStatus_PodStatus w))"
    if "map_of st' c = Some v" for c v
    using reconcilePods_names [OF run, of c] that by (cases "map_of st c") auto
  then have "occupants st' n \<subseteq> occupants st n" for n unfolding occupants_def by fast
  with assms(2) show "within cap st'" by (rule within_less)
  have "rows_ok st" using assms(3) by (auto simp: rows_ok_def all_seated_def seated_def)
  then have "rows_ok st'" using run by (rule reconcilePods_rows_ok)
  then show "all_seated ts st'"
    using row assms(3) unfolding rows_ok_def all_seated_def seated_def by metis
qed

end
