(* ===== verification/Session_Server.thy ===== *)
theory Session_Server
  imports Session_Controller_Properties Client_Seating
begin

text \<open>
  The API server as a state: the session and its client pods, what the requests of a call change in it,
  and what the client part of \<open>Reconcile\<close> leaves in it when it is cut off after any number of requests.
\<close>

section \<open>The effect of the requests\<close>

record world =
  world_Session :: session
  world_Pods :: "kpod list"

text \<open>
  A request that fails changes nothing.  A name has one pod, so a creation under a name that a pod of the
  session has adds nothing, whatever is answered.
\<close>

fun served :: "kube \<Rightarrow> history \<Rightarrow> request \<Rightarrow> world \<Rightarrow> world" where
  "served K h (CreatePod p) w =
     (if api_CreatePod K h p = None \<and> kpod_Name p \<notin> kpod_Name ` set (world_Pods w) then w\<lparr>world_Pods := world_Pods w @ [p]\<rparr> else w)"
| "served K h (UpdateSessionStatus s) w =
     (case api_UpdateSessionStatus K h s of Inl _ \<Rightarrow> w | Inr stored \<Rightarrow> w\<lparr>world_Session := stored\<rparr>)"
| "served K h (UpdateSession s) w =
     (case api_UpdateSession K h s of Inl _ \<Rightarrow> w | Inr stored \<Rightarrow> w\<lparr>world_Session := stored\<rparr>)"
| "served K h _ w = w"

fun served_all :: "kube \<Rightarrow> history \<Rightarrow> history \<Rightarrow> world \<Rightarrow> world" where
  "served_all K h [] w = w"
| "served_all K h (r # rs) w = served_all K (h @ [r]) rs (served K h r w)"

lemma served_all_append [simp]:
  "served_all K h (rs @ us) w = served_all K (h @ rs) us (served_all K h rs w)"
  by (induction rs arbitrary: h w) simp_all

text \<open>Requests that change neither the session nor its client pods.\<close>

definition elsewhere :: "request \<Rightarrow> bool" where
  "elsewhere r \<longleftrightarrow> (\<forall>K h w. served K h r w = w)"

lemma elsewhere_all: "\<forall>r \<in> set rs. elsewhere r \<Longrightarrow> served_all K h rs w = w"
  by (induction rs arbitrary: h) (simp_all add: elsewhere_def)

lemma gc_trace_elsewhere: "r \<in> set (gc_trace session m n b) \<Longrightarrow> elsewhere r"
  by (auto simp: gc_trace_def elsewhere_def split: option.splits if_splits)

lemma manage_trace_elsewhere: "\<forall>r \<in> set (manage_trace ord session am ru gs). elsewhere r"
  using gc_trace_elsewhere by (auto simp: manage_trace_def)

section \<open>The same session\<close>

text \<open>
  Two sessions that agree in what the client part reads, as far as an API server keeps it.  Objects travel
  as JSON: a \<open>metav1.Time\<close> is written in whole seconds, and a map has its keys, but no order, and no
  difference between empty and missing.
\<close>

definition same_map :: "('v \<Rightarrow> 'v \<Rightarrow> bool) \<Rightarrow> ('k, 'v) gomap \<Rightarrow> ('k, 'v) gomap \<Rightarrow> bool" where
  "same_map R m m' \<longleftrightarrow> (map_ok m \<longrightarrow> map_ok m') \<and> (\<forall>k. rel_option R (map_of m k) (map_of m' k))"

definition same_row :: "clientStatus \<Rightarrow> clientStatus \<Rightarrow> bool" where
  "same_row v v' \<longleftrightarrow> unix (clientStatus_LastSeenAt v') = unix (clientStatus_LastSeenAt v) \<and>
     clientStatus_Ready v' = clientStatus_Ready v \<and> same_map (=) (clientStatus_PodStatus v) (clientStatus_PodStatus v')"

definition same_session :: "session \<Rightarrow> session \<Rightarrow> bool" where
  "same_session s s' \<longleftrightarrow> session_Name s' = session_Name s \<and>
     spec_ClientPodTemplates (session_Spec s') = spec_ClientPodTemplates (session_Spec s) \<and>
     same_map (=) (entries (spec_Clients (session_Spec s))) (entries (spec_Clients (session_Spec s'))) \<and>
     same_map same_row (entries (status_Clients (session_Status s))) (entries (status_Clients (session_Status s')))"

lemma same_map_refl: "(\<And>v. R v v) \<Longrightarrow> same_map R m m"
  by (simp add: same_map_def option.rel_refl)

lemma same_map_trans: "(\<And>u v w. R u v \<Longrightarrow> R v w \<Longrightarrow> R u w) \<Longrightarrow> same_map R m n \<Longrightarrow> same_map R n l \<Longrightarrow> same_map R m l"
  unfolding same_map_def by (metis option.rel_transp transpE transpI)

lemma same_map_lookup: "same_map R m m' \<Longrightarrow> map_of m' k = Some v' \<Longrightarrow> \<exists>v. map_of m k = Some v \<and> R v v'"
  unfolding same_map_def by (metis option_rel_Some2)

lemma same_map_found: "same_map R m m' \<Longrightarrow> map_of m k = Some v \<Longrightarrow> \<exists>v'. map_of m' k = Some v' \<and> R v v'"
  unfolding same_map_def by (metis option_rel_Some1)

lemma same_map_eq: "same_map (=) m m' \<Longrightarrow> map_of m' = map_of m"
  by (simp add: same_map_def option.rel_eq fun_eq_iff)

lemma same_row_refl [simp]: "same_row v v"
  by (simp add: same_row_def same_map_refl)

lemma same_row_trans: "same_row u v \<Longrightarrow> same_row v w \<Longrightarrow> same_row u w"
  unfolding same_row_def by (auto intro: same_map_trans [of "(=)"])

lemma same_row_pods: "same_row v v' \<Longrightarrow> map_of (clientStatus_PodStatus v') = map_of (clientStatus_PodStatus v)"
  unfolding same_row_def by (blast dest: same_map_eq)

lemma same_session_refl [simp]: "same_session s s"
  by (simp add: same_session_def same_map_refl)

lemma same_session_trans [trans]: "same_session s t \<Longrightarrow> same_session t u \<Longrightarrow> same_session s u"
  unfolding same_session_def by (auto intro: same_map_trans [of "(=)"] same_map_trans [of same_row] same_row_trans)

lemma same_session_hash [simp]: "same_session s (SetStatusHashAnnotation h t) = same_session s t"
  "same_session (SetStatusHashAnnotation h s) t = same_session s t"
  by (simp_all add: same_session_def SetStatusHashAnnotation_def)

definition stores_sessions :: "kube \<Rightarrow> bool" where
  "stores_sessions K \<longleftrightarrow> (\<forall>h s s'. api_UpdateSessionStatus K h s = Inr s' \<or> api_UpdateSession K h s = Inr s' \<longrightarrow>
     same_session s s')"

text \<open>
  What a server does with a session in JSON, as a function: the times of the clients in whole seconds.
  (Whatever else it changes in a session, \<open>same_session\<close> allows.)
\<close>

definition in_seconds :: "instant \<Rightarrow> instant" where
  "in_seconds t = unix t * 1000000000"

definition stored_row :: "clientStatus \<Rightarrow> clientStatus" where
  "stored_row v = v\<lparr>clientStatus_LastSeenAt := in_seconds (clientStatus_LastSeenAt v)\<rparr>"

definition stored_session :: "session \<Rightarrow> session" where
  "stored_session s = s\<lparr>session_Status := (session_Status s)\<lparr>status_Clients :=
     map_option (map (\<lambda>(c, v). (c, stored_row v))) (status_Clients (session_Status s))\<rparr>\<rparr>"

lemma unix_in_seconds [simp]: "unix (in_seconds t) = unix t"
  by (simp add: in_seconds_def unix_def)

lemma same_session_stored: "same_session s (stored_session s)"
proof -
  have "same_row v (stored_row v)" for v by (simp add: same_row_def stored_row_def same_map_refl)
  moreover have "map_of (map (\<lambda>(c, v). (c, stored_row v)) m) k = map_option stored_row (map_of m k)"
    for k and m :: "(string, clientStatus) gomap"
    by (induction m) auto
  ultimately have "same_map same_row m (map (\<lambda>(c, v). (c, stored_row v)) m)" for m :: "(string, clientStatus) gomap"
    by (auto simp: same_map_def map_ok_def map_keys_def option.rel_map intro!: option.rel_refl_strong)
      (simp add: comp_def case_prod_beta)
  then show ?thesis
    by (cases "status_Clients (session_Status s)") (simp_all add: same_session_def stored_session_def same_map_refl)
qed

text \<open>
  The controller reads from a cache, so that a session may be out of date; an update of it then conflicts,
  as the server compares the resource versions.
\<close>

definition refuses :: "kube \<Rightarrow> bool" where
  "refuses K \<longleftrightarrow> (\<forall>h s. isl (api_UpdateSessionStatus K h s) \<and> isl (api_UpdateSession K h s))"

lemma refused_session:
  assumes "refuses K"
  shows "world_Session (served_all K h rs w) = world_Session w"
proof -
  have "world_Session (served K h r w) = world_Session w" for h r w
    using assms [unfolded refuses_def, rule_format, of h "case r of UpdateSessionStatus s \<Rightarrow> s | UpdateSession s \<Rightarrow> s"]
    by (cases "(K, h, r, w)" rule: served.cases) (auto simp: isl_def)
  then show ?thesis by (induction rs arbitrary: h w) simp_all
qed

lemma served_distinct: "distinct (map kpod_Name (world_Pods w)) \<Longrightarrow> distinct (map kpod_Name (world_Pods (served_all K h rs w)))"
proof (induction rs arbitrary: h w)
  case (Cons r rs)
  have "distinct (map kpod_Name (world_Pods (served K h r w)))"
    using Cons.prems by (cases "(K, h, r, w)" rule: served.cases) (auto split: sum.splits)
  then show ?case by (simp add: Cons.IH)
qed simp

section \<open>Spawning\<close>

text \<open>
  What a call that asked for \<open>pods\<close> and computed the session \<open>s\<close> may have changed: the stored session is
  the old one or \<open>s\<close>, and the new pods are some of those asked for.
\<close>

definition moved :: "session \<Rightarrow> kpod list \<Rightarrow> world \<Rightarrow> world \<Rightarrow> bool" where
  "moved s pods w w' \<longleftrightarrow>
     (same_session (world_Session w) (world_Session w') \<or> same_session s (world_Session w')) \<and>
     (\<exists>ps. world_Pods w' = world_Pods w @ ps \<and> subseq (map kpod_Name ps) (map kpod_Name pods))"

lemma moved_refl [simp]: "moved s pods w w"
  by (simp add: moved_def)

text \<open>Only pods were added, some of those asked for.\<close>

definition grown :: "kpod list \<Rightarrow> world \<Rightarrow> world \<Rightarrow> bool" where
  "grown pods w w' \<longleftrightarrow> (\<exists>ps. w' = w\<lparr>world_Pods := world_Pods w @ ps\<rparr> \<and>
     subseq (map kpod_Name ps) (map kpod_Name pods))"

lemma grown_refl [simp]: "grown pods w w"
  unfolding grown_def by (intro exI [of _ "[]"]) simp

lemma grown_trans:
  assumes "grown ps w w1" and "grown qs w1 w2"
  shows "grown (ps @ qs) w w2"
proof -
  from assms obtain as bs where "w1 = w\<lparr>world_Pods := world_Pods w @ as\<rparr>" "w2 = w1\<lparr>world_Pods := world_Pods w1 @ bs\<rparr>"
    "subseq (map kpod_Name as) (map kpod_Name ps)" "subseq (map kpod_Name bs) (map kpod_Name qs)"
    unfolding grown_def by blast
  then show ?thesis unfolding grown_def
    by (intro exI [of _ "as @ bs"]) (simp add: list_emb_append_mono)
qed

lemma grown_moved: "grown pods w w' \<Longrightarrow> moved s pods w w'"
  by (auto simp: moved_def grown_def)

lemma SpawnPod_served:
  assumes "sets_owner K" and "kpod_Labels pod \<noteq> None" and "run_state (SpawnPod K session pod) h = (r, h')"
  shows "\<exists>rs. h' = h @ rs \<and> (\<forall>k. grown [pod] w (served_all K h (take k rs) w))"
proof -
  obtain l where l: "kpod_Labels pod = Some l" using assms(2) by blast
  let ?labelled = "pod\<lparr>kpod_Labels := Some (map_put ''svc'' (kpod_Name pod)
         (map_put ''telepresence'' ''true'' l)), kpod_Namespace := ''default''\<rparr>"
  show ?thesis
  proof (cases "api_SetPodController K session ?labelled")
    case (Inl err)
    with assms(3) show ?thesis by (intro exI [of _ "[]"]) (simp add: SpawnPod_run [OF l])
  next
    case (Inr p)
    with assms(1) have "kpod_Name p = kpod_Name pod" unfolding sets_owner_def by fastforce
    then have "grown [pod] w (w\<lparr>world_Pods := world_Pods w @ [p]\<rparr>)"
      unfolding grown_def by (intro exI [of _ "[p]"]) simp
    then have "grown [pod] w (served_all K h (take k [CreatePod p]) w)" for k by (cases k) auto
    moreover have "h' = h @ [CreatePod p]" using assms(3) Inr by (simp add: SpawnPod_run [OF l])
    ultimately show ?thesis by blast
  qed
qed

text \<open>Two runs, one after the other, cut off in the first or in the second.\<close>

lemma grown_append:
  assumes "\<And>k. grown ps w (served_all K h (take k rs) w)"
    and "\<And>k. grown qs (served_all K h rs w) (served_all K (h @ rs) (take k us) (served_all K h rs w))"
  shows "grown (ps @ qs) w (served_all K h (take k (rs @ us)) w)"
proof (cases "k < length rs")
  case True
  with grown_trans [OF assms(1) [of k] grown_refl] show ?thesis by simp
next
  case False
  have "grown ps w (served_all K h rs w)" using assms(1) [of "length rs"] by simp
  from grown_trans [OF this assms(2) [of "k - length rs"]] False show ?thesis by simp
qed

lemma spawn_loop_served:
  assumes "sets_owner K" and "\<forall>pod \<in> set pods. kpod_Labels pod \<noteq> None"
    and "run_state (loop_io (\<lambda>pod s. do { r \<leftarrow> SpawnPod K session pod; ret (map_option (\<lambda>err. (err, s)) r) }) pods ()) h
      = (r, h')"
  shows "\<exists>rs. h' = h @ rs \<and> (\<forall>k. grown pods w (served_all K h (take k rs) w))"
  using assms(2,3)
proof (induction pods arbitrary: h w)
  case Nil
  then show ?case by simp
next
  case (Cons pod pods)
  obtain r1 h1 where one: "run_state (SpawnPod K session pod) h = (r1, h1)" by force
  have "kpod_Labels pod \<noteq> None" using Cons.prems(1) by simp
  from SpawnPod_served [OF assms(1) this one, of w] obtain rs where
    rs: "h1 = h @ rs" "\<And>k. grown [pod] w (served_all K h (take k rs) w)" by blast
  show ?case
  proof (cases "r1 = Some None")
    case False
    then have "h' = h @ rs" using Cons.prems(2) one rs(1) by (auto split: option.splits)
    with grown_trans [OF rs(2) grown_refl [of pods]] show ?thesis by auto
  next
    case True
    then have "run_state (loop_io (\<lambda>pod s. do { r \<leftarrow> SpawnPod K session pod;
        ret (map_option (\<lambda>err. (err, s)) r) }) pods ()) h1 = (r, h')" using Cons.prems(2) one by simp
    with Cons.IH [of h1 "served_all K h rs w"] Cons.prems(1) obtain us where
      us: "h' = h1 @ us" "\<And>k. grown pods (served_all K h rs w) (served_all K (h @ rs) (take k us) (served_all K h rs w))"
      by (auto simp: rs(1))
    from grown_append [OF rs(2) us(2)] us(1) rs(1) show ?thesis by (intro exI [of _ "rs @ us"]) simp
  qed
qed

lemma spawnClientPods_served:
  assumes "sets_owner K" and "\<forall>pod \<in> set pods. kpod_Labels pod \<noteq> None"
    and "run_state (spawnClientPods K session pods) h = (r, h')"
  shows "\<exists>rs. h' = h @ rs \<and> (\<forall>k. moved s pods w (served_all K h (take k rs) w))"
proof -
  obtain r1 h1 where "run_state (loop_io (\<lambda>pod s. do { r \<leftarrow> SpawnPod K session pod;
      ret (map_option (\<lambda>err. (err, s)) r) }) pods ()) h = (r1, h1)" by force
  with spawn_loop_served [OF assms(1,2) this, of w] assms(3) show ?thesis
    by (auto simp: spawnClientPods_def intro: grown_moved)
qed

text \<open>An update, and what follows when it succeeds.\<close>

lemma update_then_moved:
  assumes served: "served K h r w = (case a of Inl _ \<Rightarrow> w | Inr t \<Rightarrow> w\<lparr>world_Session := t\<rparr>)"
    and same: "\<And>t. a = Inr t \<Longrightarrow> same_session (world_Session w) t \<or> same_session s t"
    and failed: "\<And>err. a = Inl err \<Longrightarrow> h' = h @ [r]"
    and stored: "\<And>t. a = Inr t \<Longrightarrow> \<exists>rs. h' = (h @ [r]) @ rs \<and>
      (\<forall>k. moved s pods (w\<lparr>world_Session := t\<rparr>) (served_all K (h @ [r]) (take k rs) (w\<lparr>world_Session := t\<rparr>)))"
  shows "\<exists>rs. h' = h @ rs \<and> (\<forall>k. moved s pods w (served_all K h (take k rs) w))"
proof (cases a)
  case (Inl err)
  have "moved s pods w (served_all K h (take k [r]) w)" for k using Inl served by (cases k) simp_all
  with failed [OF Inl] show ?thesis by blast
next
  case (Inr t)
  from stored [OF Inr] obtain rs where rs: "h' = (h @ [r]) @ rs"
    "\<And>k. moved s pods (w\<lparr>world_Session := t\<rparr>) (served_all K (h @ [r]) (take k rs) (w\<lparr>world_Session := t\<rparr>))" by blast
  have "moved s pods w (served_all K h (take k (r # rs)) w)" for k
  proof (cases k)
    case (Suc j)
    from rs(2) [of j] same [OF Inr] have "moved s pods w (served_all K (h @ [r]) (take j rs) (w\<lparr>world_Session := t\<rparr>))"
      unfolding moved_def by (auto intro: same_session_trans)
    with Suc served Inr show ?thesis by simp
  qed simp
  with rs(1) show ?thesis by (intro exI [of _ "r # rs"]) simp
qed

text \<open>The update of the status and the creation of the pods, cut off after \<open>k\<close> requests.\<close>

lemma updateStatusAndSpawn_served:
  assumes owner: "sets_owner K" and stores: "stores_sessions K" and labels: "\<forall>pod \<in> set pods. kpod_Labels pod \<noteq> None"
    and run: "run_state (updateStatusAndSpawn K H s pods) h = (r, h')"
  shows "\<exists>rs. h' = h @ rs \<and> (\<forall>k. moved s pods w (served_all K h (take k rs) w))"
proof -
  note spawn = spawnClientPods_served [OF owner labels]
  let ?hash = "HashStatus H (session_Status s)"
  let ?h1 = "h @ [UpdateSessionStatus s]" and ?s = "SetStatusHashAnnotation ?hash"
  show ?thesis
  proof (cases "StatusHasChanged (map_get_zero [] (entries (session_Annotations s)) ''statusHash'') ?hash")
    case False
    with run spawn show ?thesis by (simp add: updateStatusAndSpawn_def Let_def)
  next
    case changed: True
    show ?thesis
    proof (rule update_then_moved [where r = "UpdateSessionStatus s" and a = "api_UpdateSessionStatus K h s"])
      fix t
      assume t: "api_UpdateSessionStatus K h s = Inr t"
      with stores show "same_session (world_Session w) t \<or> same_session s t" unfolding stores_sessions_def by blast
      let ?w1 = "w\<lparr>world_Session := t\<rparr>"
      show "\<exists>rs. h' = ?h1 @ rs \<and> (\<forall>k. moved s pods ?w1 (served_all K ?h1 (take k rs) ?w1))"
      proof (rule update_then_moved [where r = "UpdateSession (?s t)" and a = "api_UpdateSession K ?h1 (?s t)"])
        fix t'
        assume t': "api_UpdateSession K ?h1 (?s t) = Inr t'"
        with stores have "same_session (?s t) t'" unfolding stores_sessions_def by blast
        then show "same_session (world_Session ?w1) t' \<or> same_session s t'"
          by (simp add: same_session_def SetStatusHashAnnotation_def)
        from changed run t t' have "run_state (spawnClientPods K t' pods) (?h1 @ [UpdateSession (?s t)]) = (r, h')"
          by (simp add: updateStatusAndSpawn_def Let_def)
        then show "\<exists>rs. h' = (?h1 @ [UpdateSession (?s t)]) @ rs \<and> (\<forall>k. moved s pods (?w1\<lparr>world_Session := t'\<rparr>)
            (served_all K (?h1 @ [UpdateSession (?s t)]) (take k rs) (?w1\<lparr>world_Session := t'\<rparr>)))" by (rule spawn)
      qed (use changed run t in \<open>simp_all add: updateStatusAndSpawn_def Let_def\<close>)
    qed (use changed run in \<open>simp_all add: updateStatusAndSpawn_def Let_def\<close>)
  qed
qed

section \<open>The client part\<close>

text \<open>The client part itself changes neither the session nor its client pods.\<close>

lemma ReconcileClientPods_elsewhere:
  assumes "run_state (ReconcileClientPods K ord u ns session gs ip) h = (r, h')"
  shows "\<exists>rs. h' = h @ rs \<and> (\<forall>r \<in> set rs. elsewhere r)"
proof -
  have list: "elsewhere (ListPods ns f)" for f by (simp add: elsewhere_def)
  have "\<exists>rs. h' = (h @ [ListPods ns (ownedClientPods session)]) @ rs \<and> (\<forall>r \<in> set rs. elsewhere r)"
  proof (cases "api_ListPods K h ns (ownedClientPods session)")
    case (Inl err)
    with assms show ?thesis by (simp add: ReconcileClientPods_def Let_def)
  next
    case (Inr items)
    show ?thesis
    proof (cases "planClientPods ord u (api_Now K h) session items")
      case None
      with assms Inr show ?thesis by (simp add: ReconcileClientPods_def Let_def)
    next
      case (Some p)
      obtain st am ru tm where p: "p = (st, am, ru, tm)" by (metis prod.exhaust)
      obtain e h1 where m: "run_state (manageGCRegistrations K ord session am ru gs)
          (h @ [ListPods ns (ownedClientPods session)]) = (e, h1)" by force
      with assms Inr Some p have "h1 = h'" by (simp add: ReconcileClientPods_def Let_def)
      with manageGCRegistrations_run(2) [OF m] obtain t where
        t: "h' = (h @ [ListPods ns (ownedClientPods session)]) @ t" "prefix t (manage_trace ord session am ru gs)" by blast
      with manage_trace_elsewhere set_mono_prefix [OF t(2)] show ?thesis by (intro exI [of _ t]) blast
    qed
  qed
  then obtain rs where "h' = (h @ [ListPods ns (ownedClientPods session)]) @ rs" "\<forall>r \<in> set rs. elsewhere r" by blast
  with list show ?thesis by (intro exI [of _ "ListPods ns (ownedClientPods session) # rs"]) auto
qed

text \<open>The last part of \<open>Reconcile\<close> returns.\<close>

lemma spawn_loop_returns:
  assumes "\<forall>pod \<in> set pods. kpod_Labels pod \<noteq> None"
  shows "fst (run_state (loop_io (\<lambda>pod s. do { r \<leftarrow> SpawnPod K session pod;
    ret (map_option (\<lambda>err. (err, s)) r) }) pods ()) h) \<noteq> None"
  using assms
proof (induction pods arbitrary: h)
  case (Cons pod pods)
  then obtain l where "kpod_Labels pod = Some l" by auto
  with Cons show ?case by (auto simp: SpawnPod_run split: sum.splits option.splits)
qed simp

lemma updateStatusAndSpawn_returns:
  assumes "\<forall>pod \<in> set pods. kpod_Labels pod \<noteq> None"
  shows "fst (run_state (updateStatusAndSpawn K H s pods) h) \<noteq> None"
proof -
  have "fst (run_state (spawnClientPods K t pods) h) \<noteq> None" for t h
    using spawn_loop_returns [OF assms, of K t h] by (auto simp: spawnClientPods_def split: prod.splits)
  then show ?thesis by (simp add: updateStatusAndSpawn_def Let_def split: sum.splits)
qed

section \<open>A call without an error\<close>

text \<open>A name that is taken is that of a pod of the session, not of another owner.\<close>

definition names_free :: "kube \<Rightarrow> world \<Rightarrow> bool" where
  "names_free K w \<longleftrightarrow> (\<forall>h p. api_CreatePod K h p = Some AlreadyExists \<longrightarrow> kpod_Name p \<in> kpod_Name ` set (world_Pods w))"

text \<open>After a creation without an error there is a pod of that name.\<close>

definition created_names :: "kpod list \<Rightarrow> world \<Rightarrow> world \<Rightarrow> bool" where
  "created_names pods w w' \<longleftrightarrow> world_Session w' = world_Session w \<and>
     kpod_Name ` set (world_Pods w') = kpod_Name ` set (world_Pods w) \<union> kpod_Name ` set pods"

lemma names_free_created: "names_free K w \<Longrightarrow> created_names pods w w' \<Longrightarrow> names_free K w'"
  unfolding names_free_def created_names_def by (metis UnI1)

lemma spawn_loop_creates:
  assumes "sets_owner K" and "names_free K w" and "\<forall>pod \<in> set pods. kpod_Labels pod \<noteq> None"
    and "run_state (loop_io (\<lambda>pod s. do { r \<leftarrow> SpawnPod K session pod; ret (map_option (\<lambda>err. (err, s)) r) }) pods ()) h
      = (Some (None, u), h')"
  shows "\<exists>rs. h' = h @ rs \<and> created_names pods w (served_all K h rs w)"
  using assms(2-)
proof (induction pods arbitrary: h w)
  case Nil
  then show ?case by (simp add: created_names_def)
next
  case (Cons pod pods)
  then obtain l where l: "kpod_Labels pod = Some l" by auto
  let ?labelled = "pod\<lparr>kpod_Labels := Some (map_put ''svc'' (kpod_Name pod)
         (map_put ''telepresence'' ''true'' l)), kpod_Namespace := ''default''\<rparr>"
  from Cons.prems(3) obtain p where p: "api_SetPodController K session ?labelled = Inr p"
    by (cases "api_SetPodController K session ?labelled") (simp_all add: SpawnPod_run [OF l])
  have one: "run_state (SpawnPod K session pod) h =
      (Some (let err = api_CreatePod K h p in if err \<noteq> None \<and> err \<noteq> Some AlreadyExists then err else None), h @ [CreatePod p])"
    unfolding SpawnPod_run [OF l] p by simp
  have taken: "api_CreatePod K h p = None \<or> api_CreatePod K h p = Some AlreadyExists"
  proof (rule ccontr)
    assume "\<not> ?thesis"
    with one obtain err where "run_state (SpawnPod K session pod) h = (Some (Some err), h @ [CreatePod p])" by auto
    with Cons.prems(3) show False by simp
  qed
  then have "run_state (SpawnPod K session pod) h = (Some None, h @ [CreatePod p])" using one by auto
  with Cons.prems(3) have rest: "run_state (loop_io (\<lambda>pod s. do { r \<leftarrow> SpawnPod K session pod;
        ret (map_option (\<lambda>err. (err, s)) r) }) pods ()) (h @ [CreatePod p]) = (Some (None, u), h')"
    by simp
  have name: "kpod_Name p = kpod_Name pod" using assms(1) p unfolding sets_owner_def by fastforce
  let ?w = "served K h (CreatePod p) w"
  have pod: "created_names [pod] w ?w"
    using taken Cons.prems(1) [unfolded names_free_def, rule_format, of h p]
    by (auto simp: created_names_def name)
  from Cons.IH [OF names_free_created [OF Cons.prems(1) pod] _ rest] Cons.prems(2) obtain rs where
    rs: "h' = (h @ [CreatePod p]) @ rs" "created_names pods ?w (served_all K (h @ [CreatePod p]) rs ?w)" by auto
  with pod show ?case by (intro exI [of _ "CreatePod p # rs"]) (auto simp: created_names_def)
qed

lemma spawnClientPods_creates:
  assumes "sets_owner K" and "names_free K w" and "\<forall>pod \<in> set pods. kpod_Labels pod \<noteq> None"
    and "run_state (spawnClientPods K session pods) h = (Some None, h')"
  shows "\<exists>rs. h' = h @ rs \<and> created_names pods w (served_all K h rs w)"
proof -
  let ?loop = "loop_io (\<lambda>pod s. do { r \<leftarrow> SpawnPod K session pod; ret (map_option (\<lambda>err. (err, s)) r) }) pods ()"
  obtain r h1 where r: "run_state ?loop h = (r, h1)" by force
  with assms(4) have "r = Some (None, ())" "h1 = h'" by (auto simp: spawnClientPods_def split: prod.splits)
  with r spawn_loop_creates [OF assms(1-3)] show ?thesis by blast
qed

lemma updateStatusAndSpawn_stores:
  assumes owner: "sets_owner K" and free: "names_free K w" and stores: "stores_sessions K"
    and labels: "\<forall>pod \<in> set pods. kpod_Labels pod \<noteq> None"
    and run: "run_state (updateStatusAndSpawn K H s pods) h = (Some None, h')"
  shows "\<exists>rs. h' = h @ rs \<and>
    kpod_Name ` set (world_Pods (served_all K h rs w)) = kpod_Name ` set (world_Pods w) \<union> kpod_Name ` set pods \<and>
    (if StatusHasChanged (map_get_zero [] (entries (session_Annotations s)) ''statusHash'') (HashStatus H (session_Status s))
     then same_session s (world_Session (served_all K h rs w))
     else world_Session (served_all K h rs w) = world_Session w)"
proof (cases "StatusHasChanged (map_get_zero [] (entries (session_Annotations s)) ''statusHash'')
    (HashStatus H (session_Status s))")
  case False
  with run have "run_state (spawnClientPods K s pods) h = (Some None, h')" by (simp add: updateStatusAndSpawn_def Let_def)
  from spawnClientPods_creates [OF owner free labels this] False show ?thesis by (auto simp: created_names_def)
next
  case True
  let ?h1 = "h @ [UpdateSessionStatus s]" and ?s = "SetStatusHashAnnotation (HashStatus H (session_Status s))"
  from True run obtain t where t: "api_UpdateSessionStatus K h s = Inr t"
    by (cases "api_UpdateSessionStatus K h s") (simp_all add: updateStatusAndSpawn_def Let_def)
  from True run t obtain t' where t': "api_UpdateSession K ?h1 (?s t) = Inr t'"
    by (cases "api_UpdateSession K ?h1 (?s t)") (simp_all add: updateStatusAndSpawn_def Let_def)
  have "same_session s t" "same_session (?s t) t'" using t t' stores unfolding stores_sessions_def by blast+
  then have same: "same_session s t'" unfolding same_session_hash by (rule same_session_trans)
  let ?w = "w\<lparr>world_Session := t'\<rparr>"
  have free': "names_free K ?w" using free by (simp add: names_free_def)
  from True run t t' have "run_state (spawnClientPods K t' pods) (?h1 @ [UpdateSession (?s t)]) = (Some None, h')"
    by (simp add: updateStatusAndSpawn_def Let_def)
  from spawnClientPods_creates [OF owner free' labels this] obtain rs where
    rs: "h' = (?h1 @ [UpdateSession (?s t)]) @ rs"
      "created_names pods ?w (served_all K (?h1 @ [UpdateSession (?s t)]) rs ?w)" by blast
  with True same t t' show ?thesis
    by (intro exI [of _ "UpdateSessionStatus s # UpdateSession (?s t) # rs"]) (simp add: created_names_def)
qed

section \<open>The whole client part\<close>

text \<open>
  What a call of the client part leaves after any number of its requests, in terms of the pods and the
  session that \<open>ReconcileClientPods\<close> answers, if it does.
\<close>

definition answer_of ::
    "kube \<Rightarrow> iteration \<Rightarrow> (string \<Rightarrow> string \<Rightarrow> string) \<Rightarrow> string \<Rightarrow> session \<Rightarrow> gcRegistration list \<Rightarrow> string option
       \<Rightarrow> history \<Rightarrow> kpod list \<Rightarrow> session \<Rightarrow> bool" where
  "answer_of K ord u ns session gs ip h pods s \<longleftrightarrow>
     (\<exists>h'. run_state (ReconcileClientPods K ord u ns session gs ip) h = (Some (Inr pods, s), h'))"

lemma reconcileClients_served:
  assumes owner: "sets_owner K" and stores: "stores_sessions K"
    and returns: "fst (run_state (ReconcileClientPods K ord u ns session gs ip) h) \<noteq> None"
    and labels: "\<And>pods s. answer_of K ord u ns session gs ip h pods s \<Longrightarrow> \<forall>pod \<in> set pods. kpod_Labels pod \<noteq> None"
    and run: "run_state (reconcileClients K H ord u ns session gs ip) h = (r, h')"
  obtains rs pods s where "r \<noteq> None" "h' = h @ rs"
    "pods = [] \<and> s = session \<or> answer_of K ord u ns session gs ip h pods s"
    "\<And>k. moved s pods w (served_all K h (take k rs) w)"
proof (cases "spec_ClientPodTemplates (session_Spec session) = []")
  case True
  with run have u: "run_state (updateStatusAndSpawn K H session []) h = (r, h')" by (simp add: reconcileClients_def)
  from updateStatusAndSpawn_served [OF owner stores _ u] updateStatusAndSpawn_returns [of "[]" K H session h] u that
  show thesis by auto
next
  case False
  obtain r1 h1 where one: "run_state (ReconcileClientPods K ord u ns session gs ip) h = (r1, h1)" by force
  with returns obtain a s where r1: "r1 = Some (a, s)" by auto
  from ReconcileClientPods_elsewhere [OF one] obtain ts where ts: "h1 = h @ ts" "\<forall>r \<in> set ts. elsewhere r" by blast
  have still: "served_all K h (take k ts) w = w" for k by (rule elsewhere_all) (use ts(2) in_set_takeD in fast)
  show thesis
  proof (cases a)
    case (Inl err)
    with False one r1 run have "r = Some (Some err)" "h' = h @ ts" by (auto simp: reconcileClients_def ts(1))
    with still show thesis by (intro that [of ts "[]" session]) simp_all
  next
    case (Inr pods)
    with one r1 have answer: "answer_of K ord u ns session gs ip h pods s" unfolding answer_of_def by blast
    from False one r1 run Inr have u: "run_state (updateStatusAndSpawn K H s pods) h1 = (r, h')"
      by (simp add: reconcileClients_def)
    from updateStatusAndSpawn_served [OF owner stores labels [OF answer] u] obtain us where
      us: "h' = h1 @ us" "\<And>k. moved s pods w (served_all K h1 (take k us) w)" by blast
    have "moved s pods w (served_all K h (take k (ts @ us)) w)" for k
      using still [of k] us(2) [of "k - length ts"] elsewhere_all [OF ts(2)]
      by (cases "k < length ts") (simp_all add: ts(1))
    moreover have "r \<noteq> None" using updateStatusAndSpawn_returns [OF labels [OF answer], of K H s h1] u by simp
    ultimately show thesis using us(1) ts(1) answer by (intro that [of "ts @ us" pods s]) simp_all
  qed
qed

end
