(* ===== verification/Session_Life.thy ===== *)
theory Session_Life
  imports Session_Server Session_Handlers
begin

text \<open>
  The life of a session on one cluster: created by the session manager, patched by its clients, and
  reconciled by the session controller again and again, while its pods come, report and go and any call
  may fail, be cut off or work on stale caches.  The life is the reachability of a step relation; its
  invariant is that calls return, that no pod gets too many clients, and that every client sits in one pod
  of each template.
\<close>

section \<open>The steps\<close>

text \<open>
  What a call of the client part gets, when the caches of the controller show \<open>view\<close>: the list is that of
  the pods in \<open>view\<close> if it succeeds, the new names are new as far as \<open>view\<close> tells, the ingress address has
  no slash, and the server stores the sessions it is given, as JSON does.
\<close>

definition life_call ::
    "kube \<Rightarrow> iteration \<Rightarrow> (string \<Rightarrow> string \<Rightarrow> string) \<Rightarrow> string \<Rightarrow> string option \<Rightarrow> world \<Rightarrow> history \<Rightarrow> bool" where
  "life_call K ord u ns ip view h \<longleftrightarrow> permutes_keys ord \<and> sets_owner K \<and> stores_sessions K \<and>
     (\<forall>items. api_ListPods K h ns (ownedClientPods (world_Session view)) = Inr items \<longrightarrow>
        mset items = mset (world_Pods view)) \<and>
     uuid_fresh u (world_Session view) (world_Pods view) \<and> (\<forall>a \<in> set_option ip. CHR ''/'' \<notin> set a)"

text \<open>
  \<open>clients_patched\<close>: the session manager patches the clients of the spec, in any way.  \<open>session_stored\<close>:
  another part of the system stores the session with the same clients.  \<open>pods_gone\<close>: pods are deleted, by
  the GC controller or by others.  \<open>pods_report\<close>: pods change, but not their names.
\<close>

inductive life_step :: "world \<Rightarrow> world \<Rightarrow> bool" where
  clients_patched: "map_ok m \<Longrightarrow> life_step w (w\<lparr>world_Session := (world_Session w)\<lparr>session_Spec :=
     (session_Spec (world_Session w))\<lparr>spec_Clients := Some m\<rparr>\<rparr>\<rparr>)"
| session_stored: "same_session (world_Session w) s \<Longrightarrow> life_step w (w\<lparr>world_Session := s\<rparr>)"
| pods_gone: "life_step w (w\<lparr>world_Pods := filter keep (world_Pods w)\<rparr>)"
| pods_report: "map kpod_Name ps = map kpod_Name (world_Pods w) \<Longrightarrow> life_step w (w\<lparr>world_Pods := ps\<rparr>)"

text \<open>
  \<open>reconciled\<close>: a call of the client part, whatever the server answers, cut off after \<open>k\<close> of its requests.
  The caches may be stale: the session is that of one state of the life and the list shows the pods of
  another; an update of a session that is not the current one is refused.
\<close>

definition cached :: "world \<Rightarrow> world \<Rightarrow> world" where
  "cached sessions pods = \<lparr>world_Session = world_Session sessions, world_Pods = world_Pods pods\<rparr>"

inductive life :: "hashing \<Rightarrow> session \<Rightarrow> world \<Rightarrow> bool" for H session where
  created: "life H session \<lparr>world_Session = session, world_Pods = []\<rparr>"
| lives: "life H session w \<Longrightarrow> life_step w w' \<Longrightarrow> life H session w'"
| reconciled: "life H session w \<Longrightarrow> life H session w1 \<Longrightarrow> life H session w2 \<Longrightarrow>
     world_Session w1 = world_Session w \<or> refuses K \<Longrightarrow> life_call K ord u ns ip (cached w1 w2) h \<Longrightarrow>
     run_state (reconcileClients K H ord u ns (world_Session w1) gs ip) h = (r, h @ rs) \<Longrightarrow>
     life H session (served_all K h (take k rs) w)"

lemma cached_simps [simp]: "world_Session (cached w1 w2) = world_Session w1" "world_Pods (cached w1 w2) = world_Pods w2"
  "cached w w = w"
  by (simp_all add: cached_def)

inductive_cases life_stepE: "life_step w w'"

section \<open>The invariant\<close>

definition session_seated :: "session \<Rightarrow> bool" where
  "session_seated s \<longleftrightarrow>
     (let ts = spec_ClientPodTemplates (session_Spec s); st = entries (status_Clients (session_Status s))
      in within (max_of (initAllocationMap ts)) st \<and> all_seated (template_Name ` set ts) st)"

definition life_ok :: "world \<Rightarrow> bool" where
  "life_ok w \<longleftrightarrow> session_ok (world_Session w) \<and> session_seated (world_Session w) \<and>
     distinct (map kpod_Name (world_Pods w)) \<and> (\<forall>n \<in> kpod_Name ` set (world_Pods w). templateNameOf n \<noteq> None)"

lemma same_session_row:
  assumes "same_session s s'" and "map_of (entries (status_Clients (session_Status s'))) c = Some v'"
  shows "\<exists>v. map_of (entries (status_Clients (session_Status s))) c = Some v \<and> same_row v v'"
  using assms unfolding same_session_def by (blast dest: same_map_lookup)

lemma same_session_ok:
  assumes "same_session s s'"
  shows "session_ok s \<Longrightarrow> session_ok s'" and "session_seated s \<Longrightarrow> session_seated s'"
proof -
  let ?st = "entries (status_Clients (session_Status s))" and ?st' = "entries (status_Clients (session_Status s'))"
  have row: "\<exists>v. map_of ?st c = Some v \<and> map_of (clientStatus_PodStatus v) = map_of (clientStatus_PodStatus v') \<and>
      (map_ok (clientStatus_PodStatus v) \<longrightarrow> map_ok (clientStatus_PodStatus v'))" if "map_of ?st' c = Some v'" for c v'
    using same_session_row [OF assms that] same_row_pods unfolding same_row_def same_map_def by metis
  have fields: "session_Name s' = session_Name s"
    "spec_ClientPodTemplates (session_Spec s') = spec_ClientPodTemplates (session_Spec s)"
    "session_maps_ok s \<Longrightarrow> session_maps_ok s'"
    using assms by (simp_all add: same_session_def session_maps_ok_def same_map_def)
  have names: "status_pod_names s' \<subseteq> status_pod_names s"
    unfolding status_pod_names_def using row by fastforce
  show "session_ok s'" if "session_ok s"
  proof -
    have "pods_ok ?st'"
      unfolding pods_ok_def
    proof (intro allI impI)
      fix c v' n p
      assume "map_of ?st' c = Some v'" "map_of (clientStatus_PodStatus v') n = Some p"
      with row obtain v where "map_of ?st c = Some v" "map_of (clientStatus_PodStatus v) n = Some p" by metis
      with that pods_okD show "templateNameOf n \<noteq> None \<and> paths_ok p" unfolding session_ok_def by blast
    qed
    with that fields names show ?thesis
      unfolding session_ok_def names_split_def pods_of_templates_def by auto
  qed
  show "session_seated s'" if "session_seated s"
  proof -
    have "occupants ?st' n \<subseteq> occupants ?st n" for n unfolding occupants_def using row by fastforce
    moreover have "all_seated ts ?st'" if "all_seated ts ?st" for ts
      using row that unfolding all_seated_def seated_def by metis
    ultimately show ?thesis using that within_less unfolding session_seated_def fields Let_def by blast
  qed
qed

lemma session_ok_patched:
  assumes "session_ok s" and "map_ok m"
  shows "session_ok (s\<lparr>session_Spec := (session_Spec s)\<lparr>spec_Clients := Some m\<rparr>\<rparr>)"
  using assms by (simp add: session_ok_def session_maps_ok_def names_split_def pods_of_templates_def status_pod_names_def)

lemma session_seated_patched:
  "session_seated (s\<lparr>session_Spec := (session_Spec s)\<lparr>spec_Clients := Some m\<rparr>\<rparr>) = session_seated s"
  by (simp add: session_seated_def)

section \<open>A call\<close>

lemma life_client_call:
  assumes "life_ok w" and "life_call K ord u ns ip w h"
    and "api_ListPods K h ns (ownedClientPods (world_Session w)) = Inr items"
  shows "client_call K ord u ns (world_Session w) items h" and "cluster_ok items ip"
    and "set (map kpod_Name items) = set (map kpod_Name (world_Pods w))"
proof -
  have items: "mset items = mset (world_Pods w)" using assms(2,3) unfolding life_call_def by blast
  then have "mset (map kpod_Name items) = mset (map kpod_Name (world_Pods w))" by simp
  then have names: "set (map kpod_Name items) = set (map kpod_Name (world_Pods w))"
    "distinct (map kpod_Name items)"
    using assms(1) mset_eq_setD mset_eq_imp_distinct_iff unfolding life_ok_def by (blast, metis)
  then show "set (map kpod_Name items) = set (map kpod_Name (world_Pods w))" by simp
  have "uuid_fresh u (world_Session w) items"
    using assms(2) names(1) unfolding life_call_def uuid_fresh_def by simp
  with assms names(2) show "client_call K ord u ns (world_Session w) items h"
    unfolding client_call_def life_call_def life_ok_def session_ok_def by simp
  show "cluster_ok items ip"
    using assms(1,2) names(1) unfolding cluster_ok_def life_call_def life_ok_def by (metis image_eqI set_map)
qed

lemma client_call_seats:
  assumes call: "client_call K ord u ns session items h" and ok: "session_ok session" "session_seated session"
    and run: "run_state (ReconcileClientPods K ord u ns session gs ip) h = (Some (Inr pods, session'), h')"
  shows "session_seated session'"
  using run
proof (rule ReconcileClientPods_run)
  fix items' st am ru tm st' e
  assume "api_ListPods K h ns (ownedClientPods session) = Inr items'"
    and p: "planClientPods ord u (api_Now K h) session items' = Some (st, am, ru, tm)"
    and r: "reconcilePods ord am st tm ip = Some (st', pods)" and s: "session' = with_status_clients st' session"
  then have "permutes_keys ord" "uuid_fresh u session items'" using call unfolding client_call_def by auto
  from plan_seats [OF this(1) ok(1) this(2) p] ok(2) have
    "within (max_of (initAllocationMap (spec_ClientPodTemplates (session_Spec session)))) st"
    "all_seated (template_Name ` set (spec_ClientPodTemplates (session_Spec session))) st"
    by (simp_all add: session_seated_def Let_def)
  from reconcilePods_seats [OF r this] show ?thesis by (simp add: s session_seated_def Let_def)
qed

text \<open>The session and the pods that a call answers.\<close>

definition asked_ok :: "session \<Rightarrow> kpod list \<Rightarrow> bool" where
  "asked_ok s pods \<longleftrightarrow> session_ok s \<and> session_seated s \<and>
     (\<forall>p \<in> set pods. templateNameOf (kpod_Name p) \<noteq> None \<and> kpod_Labels p \<noteq> None)"

lemma life_answer:
  assumes ok: "life_ok w" and call: "life_call K ord u ns ip w h"
    and answer: "answer_of K ord u ns (world_Session w) gs ip h pods s"
  shows "asked_ok s pods"
proof -
  from answer obtain h' where
    run: "run_state (ReconcileClientPods K ord u ns (world_Session w) gs ip) h = (Some (Inr pods, s), h')"
    unfolding answer_of_def by blast
  then obtain items where "api_ListPods K h ns (ownedClientPods (world_Session w)) = Inr items"
    by (rule ReconcileClientPods_run)
  note c = life_client_call [OF ok call this]
  have s: "session_ok (world_Session w)" "session_seated (world_Session w)" using ok by (simp_all add: life_ok_def)
  note out = spawned_pods_exact [OF c(1) run]
  have "templateNameOf (kpod_Name p) \<noteq> None \<and> kpod_Labels p \<noteq> None" if p: "p \<in> set pods" for p
  proof (intro conjI)
    from out p obtain t where t: "templateNameOf (kpod_Name p) = Some t"
      "p = clientPodObject (kpod_Name p) (template_Spec (template_of
         (initAllocationMap (spec_ClientPodTemplates (session_Spec (world_Session w)))) t))" by blast
    from t(1) show "templateNameOf (kpod_Name p) \<noteq> None" by simp
    show "kpod_Labels p \<noteq> None" by (subst t(2)) (simp add: clientPodObject_def)
  qed
  moreover have "session_ok s" using ReconcileClientPods_returns [OF c(1) s(1) c(2), of gs] run by auto
  ultimately show ?thesis using client_call_seats [OF c(1) s run] unfolding asked_ok_def by blast
qed

lemma life_call_answers:
  assumes ok: "life_ok w" and call: "life_call K ord u ns ip w h"
  shows "fst (run_state (ReconcileClientPods K ord u ns (world_Session w) gs ip) h) \<noteq> None"
proof (cases "api_ListPods K h ns (ownedClientPods (world_Session w))")
  case (Inl err)
  then show ?thesis by (simp add: ReconcileClientPods_def Let_def)
next
  case (Inr items)
  have "session_ok (world_Session w)" using ok by (simp add: life_ok_def)
  from ReconcileClientPods_returns [OF life_client_call(1) [OF ok call Inr] this life_client_call(2) [OF ok call Inr]]
  obtain r h' where "run_state (ReconcileClientPods K ord u ns (world_Session w) gs ip) h = (Some r, h')" by blast
  then show ?thesis by simp
qed

lemma life_ok_moved:
  assumes ok: "life_ok w" and asked: "asked_ok s pods" and moved: "moved s pods w w'"
    and distinct: "distinct (map kpod_Name (world_Pods w'))"
  shows "life_ok w'"
proof -
  from moved obtain ps where ps: "world_Pods w' = world_Pods w @ ps" "subseq (map kpod_Name ps) (map kpod_Name pods)"
    and same: "same_session (world_Session w) (world_Session w') \<or> same_session s (world_Session w')"
    unfolding moved_def by blast
  have "session_ok (world_Session w') \<and> session_seated (world_Session w')"
    using same ok asked same_session_ok unfolding life_ok_def asked_ok_def by blast
  moreover have "templateNameOf n \<noteq> None" if "n \<in> kpod_Name ` set ps" for n
  proof -
    have "n \<in> set (map kpod_Name pods)" using that list_emb_set [OF ps(2), of n] by auto
    with asked show ?thesis unfolding asked_ok_def by auto
  qed
  then have "\<forall>n \<in> kpod_Name ` set (world_Pods w'). templateNameOf n \<noteq> None"
    using ok unfolding life_ok_def ps(1) by (auto simp del: not_None_eq)
  ultimately show ?thesis using distinct unfolding life_ok_def by blast
qed

text \<open>A call on \<open>view\<close>, whatever the state is by now.\<close>

lemma life_reconciled:
  assumes ok: "life_ok view" and call: "life_call K ord u ns ip view h"
    and run: "run_state (reconcileClients K H ord u ns (world_Session view) gs ip) h = (r, h')"
  obtains rs where "r \<noteq> None" "h' = h @ rs" "\<And>k w. life_ok w \<Longrightarrow> life_ok (served_all K h (take k rs) w)"
proof -
  have "sets_owner K" "stores_sessions K" using call unfolding life_call_def by blast+
  note served = reconcileClients_served [OF this life_call_answers [OF ok call] _ run]
  have labels: "\<forall>pod \<in> set pods. kpod_Labels pod \<noteq> None"
    if "answer_of K ord u ns (world_Session view) gs ip h pods s" for pods s
    using life_answer [OF ok call that] unfolding asked_ok_def by blast
  have one: "\<exists>rs. r \<noteq> None \<and> h' = h @ rs \<and> (life_ok w \<longrightarrow> (\<forall>k. life_ok (served_all K h (take k rs) w)))" for w
  proof (rule served [OF labels, where w = w])
    fix rs pods s
    assume rs: "r \<noteq> None" "h' = h @ rs" "\<And>k. moved s pods w (served_all K h (take k rs) w)"
      and "pods = [] \<and> s = world_Session view \<or> answer_of K ord u ns (world_Session view) gs ip h pods s"
    moreover have "asked_ok (world_Session view) []" using ok by (simp add: asked_ok_def life_ok_def)
    ultimately have asked: "asked_ok s pods" using life_answer [OF ok call] by blast
    have "life_ok (served_all K h (take k rs) w)" if "life_ok w" for k
      using that by (intro life_ok_moved [OF that asked rs(3)] served_distinct) (simp add: life_ok_def)
    with rs(1,2) show ?thesis by blast
  qed
  then obtain rs where rs: "r \<noteq> None" "h' = h @ rs" by blast
  have "life_ok (served_all K h (take k rs) w)" if "life_ok w" for k w
    using one [of w] that rs(2) by auto
  with rs show thesis by (rule that)
qed

text \<open>A call without an error.\<close>

lemma life_success:
  assumes ok: "life_ok view" and call: "life_call K ord u ns ip view h" and free: "names_free K w"
    and session: "world_Session view = world_Session w"
    and pods: "kpod_Name ` set (world_Pods view) \<subseteq> kpod_Name ` set (world_Pods w)"
    and templates: "spec_ClientPodTemplates (session_Spec (world_Session w)) \<noteq> []"
    and run: "run_state (reconcileClients K H ord u ns (world_Session w) gs ip) h = (Some None, h @ rs)"
  obtains pods s items h1 where "client_call K ord u ns (world_Session w) items h"
    "run_state (ReconcileClientPods K ord u ns (world_Session w) gs ip) h = (Some (Inr pods, s), h1)"
    "status_pod_names s \<subseteq> kpod_Name ` set (world_Pods (served_all K h rs w))"
    "same_session s (world_Session (served_all K h rs w)) \<or>
      map_get_zero [] (entries (session_Annotations (world_Session w))) ''statusHash'' = HashStatus H (session_Status s) \<and>
      world_Session (served_all K h rs w) = world_Session w"
proof -
  obtain r1 h1 where one: "run_state (ReconcileClientPods K ord u ns (world_Session w) gs ip) h = (r1, h1)" by force
  obtain new s where r1: "r1 = Some (Inr new, s)"
    and rest: "run_state (updateStatusAndSpawn K H s new) h1 = (Some None, h @ rs)"
    using run templates one by (auto simp: reconcileClients_def split: option.splits sum.splits prod.splits)
  note one = one [unfolded r1]
  then obtain items where items: "api_ListPods K h ns (ownedClientPods (world_Session w)) = Inr items"
    by (rule ReconcileClientPods_run)
  note c = life_client_call [OF ok call, unfolded session, OF items]
  have asked: "asked_ok s new"
    by (rule life_answer [OF ok call, unfolded session]) (use one in \<open>auto simp: answer_of_def\<close>)
  then have labels: "\<forall>pod \<in> set new. kpod_Labels pod \<noteq> None" unfolding asked_ok_def by blast
  have K: "sets_owner K" "stores_sessions K" using call unfolding life_call_def by blast+
  from ReconcileClientPods_elsewhere [OF one] obtain ts where ts: "h1 = h @ ts" "\<forall>r \<in> set ts. elsewhere r" by blast
  from updateStatusAndSpawn_stores [OF K(1) free K(2) labels rest] obtain us where us: "h @ rs = h1 @ us"
    "kpod_Name ` set (world_Pods (served_all K h1 us w)) = kpod_Name ` set (world_Pods w) \<union> kpod_Name ` set new"
    "if StatusHasChanged (map_get_zero [] (entries (session_Annotations s)) ''statusHash'') (HashStatus H (session_Status s))
     then same_session s (world_Session (served_all K h1 us w))
     else world_Session (served_all K h1 us w) = world_Session w" by blast
  have w': "served_all K h rs w = served_all K h1 us w"
    using us(1) elsewhere_all [OF ts(2)] by (simp add: ts(1))
  have "kpod_Name ` set items \<union> kpod_Name ` set new \<subseteq> kpod_Name ` set (world_Pods (served_all K h rs w))"
    unfolding w' us(2) using c(3) pods by auto
  then have "status_pod_names s \<subseteq> kpod_Name ` set (world_Pods (served_all K h rs w))"
    using spawned_pods_exact [OF c(1) one] by auto
  moreover have "session_Annotations s = session_Annotations (world_Session w)" using one by (rule client_part_requests)
  ultimately show thesis using that [OF c(1) one] us(3) unfolding w' by (auto simp: StatusHasChanged_def split: if_splits)
qed

section \<open>The invariant holds in every life\<close>

lemma life_ok_step: "life_step w w' \<Longrightarrow> life_ok w \<Longrightarrow> life_ok w'"
proof (induction rule: life_step.induct)
  case (clients_patched m w)
  then show ?case using session_ok_patched session_seated_patched by (simp add: life_ok_def)
next
  case (session_stored w s)
  then show ?case using same_session_ok by (auto simp: life_ok_def)
next
  case (pods_gone w keep)
  then show ?case by (auto simp: life_ok_def distinct_map_filter)
next
  case (pods_report ps w)
  then have "kpod_Name ` set ps = kpod_Name ` set (world_Pods w)" by (metis set_map)
  with pods_report show ?case by (simp add: life_ok_def)
qed

lemma new_session_ok:
  assumes "same_session (newSession n template) session" and "names_split session"
  shows "session_ok session" and "session_seated session"
proof -
  have "names_split (newSession n template)" using assms unfolding same_session_def names_split_def by simp
  then have "session_ok (newSession n template)"
    by (simp add: session_ok_def session_maps_ok_def pods_of_templates_def status_pod_names_def pods_ok_def newSession_def)
  moreover have "session_seated (newSession n template)"
    by (simp add: session_seated_def newSession_def within_def occupants_def all_seated_def Let_def le_max_iff_disj)
  ultimately show "session_ok session" "session_seated session" using same_session_ok [OF assms(1)] by simp_all
qed

lemma life_ok_cached: "life_ok w1 \<Longrightarrow> life_ok w2 \<Longrightarrow> life_ok (cached w1 w2)"
  by (simp add: life_ok_def)

lemma life_invariant:
  assumes "life H session w" and "same_session (newSession n template) session" and "names_split session"
  shows "life_ok w"
  using assms(1)
proof (induction rule: life.induct)
  case created
  with new_session_ok [OF assms(2,3)] show ?case by (simp add: life_ok_def)
next
  case (lives w w')
  then show ?case using life_ok_step by blast
next
  case (reconciled w w1 w2 K ord u ns ip h gs r rs k)
  have "run_state (reconcileClients K H ord u ns (world_Session (cached w1 w2)) gs ip) h = (r, h @ rs)"
    using reconciled by simp
  from life_reconciled [OF life_ok_cached [OF reconciled.IH(2,3)] reconciled.hyps(5) this] obtain us where
    "h @ rs = h @ us" "\<And>k w. life_ok w \<Longrightarrow> life_ok (served_all K h (take k us) w)" by blast
  with reconciled.IH(1) show ?case by simp
qed

end
