(* ===== verification/Life_Demo.thy ===== *)
theory Life_Demo
  imports Session_Life GC_Controller
begin

text \<open>
  One concrete life of a session with one client, for the witnesses of the theorems about lives: the client
  connects, leaves while the update of the annotation meets a conflict, and connects again.
\<close>

section \<open>Servers\<close>

text \<open>
  A server that shows the pods and accepts everything, and one where an update of the session conflicts.
  They store times in whole seconds.
\<close>

definition calm :: "kpod list \<Rightarrow> instant \<Rightarrow> kube" where
  "calm ps now = demo_kube\<lparr>api_ListPods := \<lambda>_ _ _. Inr ps, api_Now := \<lambda>_. now,
     api_UpdateSessionStatus := \<lambda>_ s. Inr (stored_session s), api_UpdateSession := \<lambda>_ s. Inr (stored_session s)\<rparr>"

definition busy :: "kpod list \<Rightarrow> instant \<Rightarrow> kube" where
  "busy ps now = (calm ps now)\<lparr>api_UpdateSession := \<lambda>_ _. Inl (OtherError ''conflict'')\<rparr>"

text \<open>One that does not delete registrations.\<close>

definition deaf :: "kpod list \<Rightarrow> instant \<Rightarrow> kube" where
  "deaf ps now = (calm ps now)\<lparr>api_DeleteGCRegistration := \<lambda>_ _. Some (OtherError ''timeout'')\<rparr>"

definition digits :: "char \<Rightarrow> string \<Rightarrow> string \<Rightarrow> string" where
  "digits x = (\<lambda>_ _. replicate 8 x)"

lemma fresh_digits:
  assumes "dom (map_of (entries (spec_Clients (session_Spec s)))) \<subseteq> {c}"
    and "\<forall>n \<in> kpod_Name ` set ps \<union> status_pod_names s. last n \<noteq> x"
  shows "uuid_fresh (digits x) s ps"
  unfolding uuid_fresh_def digits_def
proof (intro allI conjI ballI)
  fix t d
  show "inj_on (\<lambda>c. newPodName (session_Name s) t (replicate 8 x)) (dom (map_of (entries (spec_Clients (session_Spec s)))))"
    using inj_on_subset [OF _ assms(1)] by simp
  have "last (newPodName (session_Name s) t (replicate 8 x)) = x" by (simp add: newPodName_def numeral_eq_Suc)
  with assms(2) show "newPodName (session_Name s) t (replicate 8 x) \<notin> kpod_Name ` set ps \<union> status_pod_names s" by blast
qed

lemma calm_call:
  assumes "uuid_fresh u s ps"
  defines "w \<equiv> \<lparr>world_Session = s, world_Pods = ps\<rparr>"
  shows "life_call (calm ps now) visit u ''default'' None w h"
    and "life_call (busy ps now) visit u ''default'' None w h"
    and "life_call (deaf ps now) visit u ''default'' None w h"
  using assms by (auto simp: life_call_def calm_def busy_def deaf_def sets_owner_def stores_sessions_def demo_kube_def
      same_session_stored)

lemma calm_creates: "api_CreatePod (calm ps now) h p = None"
  by (simp add: calm_def demo_kube_def)

lemma calm_names_free: "names_free (calm ps now) w"
  by (simp add: names_free_def calm_creates)

text \<open>A call that is not cut off is a step of the life.\<close>

lemma whole_call:
  assumes "life H s w" and "life_call K ord u ns ip w h"
    and "run_state (reconcileClients K H ord u ns (world_Session w) gs ip) h = (r, h @ rs)"
  shows "life H s (served_all K h rs w)"
  using reconciled [OF assms(1,1,1) disjI1 [OF refl], of K ord u ns ip h gs r rs "length rs"] assms(2,3) by simp

lemma life_turn:
  assumes "life H s w" and "life_call K ord u ns ip w []"
    and "\<exists>rs. run_state (reconcileClients K H ord u ns (world_Session w) gs ip) [] = (r, [] @ rs) \<and>
      served_all K [] rs w = w'"
  shows "life H s w'"
  using assms whole_call by metis

section \<open>The states\<close>

definition demo_template :: sessionTemplate where
  "demo_template = \<lparr>tmpl_Name = ''demo'', tmpl_SessionPodTemplates = [],
     tmpl_ClientPodTemplates = [\<lparr>template_Name = ''web'', template_Spec = demo_spec, template_MaxClients = 1\<rparr>],
     tmpl_TimeoutSeconds = 10, tmpl_ReutilizeTimeoutSeconds = 20\<rparr>"

definition demo_row :: "instant \<Rightarrow> (string, clientStatus) gomap" where
  "demo_row seen = [(''a'', \<lparr>clientStatus_LastSeenAt = seen, clientStatus_Ready = False,
     clientStatus_PodStatus = [(''demo-1-web-0000'', buildPodStatus ''demo-1-web-0000'' demo_spec)]\<rparr>)]"

definition demo_status :: "(string, clientStatus) nilmap \<Rightarrow> sessionStatus" where
  "demo_status status = \<lparr>status_SessionPods = \<lparr>podsStatus_Conditions = [], podsStatus_PodsStatus = None\<rparr>,
     status_Clients = status\<rparr>"

definition demo_state ::
    "(string, string) nilmap \<Rightarrow> (string, bool) gomap \<Rightarrow> (string, clientStatus) nilmap \<Rightarrow> session" where
  "demo_state annotations clients status = (newSession ''demo-1'' demo_template)
     \<lparr>session_Namespace := ''default'', session_Annotations := annotations,
      session_Spec := (session_Spec (newSession ''demo-1'' demo_template))\<lparr>spec_Clients := Some clients\<rparr>,
      session_Status := demo_status status\<rparr>"

abbreviation demo_start :: session where
  "demo_start \<equiv> demo_state None [] None"

abbreviation demo_hash :: "hashing \<Rightarrow> instant \<Rightarrow> string" where
  "demo_hash H seen \<equiv> HashStatus H (demo_status (Some (demo_row seen)))"

abbreviation hashed :: "string \<Rightarrow> (string, string) nilmap" where
  "hashed a \<equiv> Some [(''statusHash'', a)]"

definition demo_new :: kpod where
  "demo_new = clientPodObject ''demo-1-web-0000'' demo_spec"

definition demo_created :: kpod where
  "demo_created = demo_new\<lparr>kpod_Namespace := ''default'',
     kpod_Labels := Some [(''type'', ''client''), (''telepresence'', ''true''), (''svc'', ''demo-1-web-0000'')],
     kpod_Controller := Some \<lparr>owner_APIVersion = ''core.mr.telepresence/v1alpha1'', owner_Kind = ''Session'',
       owner_Name = ''demo-1''\<rparr>\<rparr>"

lemma demo_state_fields [simp]:
  "session_Status (demo_state a cs st) = demo_status st" "session_Annotations (demo_state a cs st) = a"
  "entries (spec_Clients (session_Spec (demo_state a cs st))) = cs"
  "spec_ClientPodTemplates (session_Spec (demo_state a cs st)) = tmpl_ClientPodTemplates demo_template"
  "tmpl_ClientPodTemplates demo_template \<noteq> []" "session_Name (demo_state a cs st) = ''demo-1''"
  "status_Clients (demo_status st) = st"
  "SetStatusHashAnnotation h (demo_state None cs st) = demo_state (hashed h) cs st"
  "SetStatusHashAnnotation h (demo_state (hashed g) cs st) = demo_state (hashed h) cs st"
  "(demo_state a cs st)\<lparr>session_Spec := (session_Spec (demo_state a cs st))\<lparr>spec_Clients := Some cs'\<rparr>\<rparr> = demo_state a cs' st"
  by (simp_all add: demo_state_def newSession_def demo_template_def demo_status_def SetStatusHashAnnotation_def map_put_def)

lemma demo_spawn [simp]:
  "run_state (SpawnPod (calm ps now) (demo_state a cs st) demo_new) h = (Some None, h @ [CreatePod demo_created])"
proof -
  have l: "kpod_Labels demo_new = Some [(''type'', ''client'')]" by (simp add: demo_new_def clientPodObject_def)
  show ?thesis unfolding SpawnPod_run [OF l]
    by (simp add: calm_def demo_kube_def demo_created_def demo_new_def clientPodObject_def map_put_def)
qed

text \<open>The time of a connected client as it is stored.\<close>

definition demo_online :: instant where
  "demo_online = in_seconds defaultTime"

definition demo_left :: instant where
  "demo_left = demo_now + 1000000000"

definition demo_again :: instant where
  "demo_again = demo_now + 2000000000"

lemma demo_stored [simp]:
  "stored_session (demo_state a cs (Some (demo_row defaultTime))) = demo_state a cs (Some (demo_row demo_online))"
  "stored_session (demo_state a cs (Some (demo_row demo_online))) = demo_state a cs (Some (demo_row demo_online))"
  "stored_session (demo_state a cs (Some (demo_row demo_left))) = demo_state a cs (Some (demo_row demo_left))"
proof -
  have "stored_session (demo_state a cs (Some (demo_row t))) = demo_state a cs (Some (demo_row (in_seconds t)))" for t
    by (simp add: stored_session_def stored_row_def demo_state_def demo_status_def demo_row_def)
  moreover have "in_seconds demo_online = demo_online" "in_seconds demo_left = demo_left" by code_simp+
  ultimately show "stored_session (demo_state a cs (Some (demo_row defaultTime))) = demo_state a cs (Some (demo_row demo_online))"
    "stored_session (demo_state a cs (Some (demo_row demo_online))) = demo_state a cs (Some (demo_row demo_online))"
    "stored_session (demo_state a cs (Some (demo_row demo_left))) = demo_state a cs (Some (demo_row demo_left))"
    by (simp_all add: demo_online_def)
qed

text \<open>The calls of the client part, whatever the annotation is.\<close>

lemma demo_connect: "run_state (ReconcileClientPods (calm [] demo_now) visit (digits CHR ''0'') ''default''
    (demo_state a [(''a'', True)] None) [] None) [] =
  (Some (Inr [demo_new], demo_state a [(''a'', True)] (Some (demo_row defaultTime))),
   [ListPods ''default'' (ownedClientPods demo_start)])"
  by code_simp

lemma demo_leave: "run_state (ReconcileClientPods (busy [demo_created] demo_left) visit (digits CHR ''1'') ''default''
    (demo_state a [(''a'', False)] (Some (demo_row demo_online))) [] None) [] =
  (Some (Inr [], demo_state a [(''a'', False)] (Some (demo_row demo_left))),
   [ListPods ''default'' (ownedClientPods demo_start), CreateNamespace gcNamespace,
    CreateGCRegistration (newGCRegistration ''demo-1-web-0000'' ''demo-1'' ''default'')])"
  by code_simp

lemma demo_return: "run_state (ReconcileClientPods (calm [demo_created] demo_again) visit (digits CHR ''2'') ''default''
    (demo_state a [(''a'', True)] (Some (demo_row demo_left))) [] None) [] =
  (Some (Inr [], demo_state a [(''a'', True)] (Some (demo_row defaultTime))),
   [ListPods ''default'' (ownedClientPods demo_start)])"
  by code_simp

lemma demo_unchanged: "run_state (ReconcileClientPods (calm [demo_created] demo_left) visit (digits CHR ''2'') ''default''
    (demo_state a [(''a'', True)] (Some (demo_row demo_online))) [] None) [] =
  (Some (Inr [], demo_state a [(''a'', True)] (Some (demo_row defaultTime))),
   [ListPods ''default'' (ownedClientPods demo_start)])"
  by code_simp

text \<open>The calls of the whole client part; a hash tells the two statuses apart and is not empty.\<close>

definition tells :: "hashing \<Rightarrow> bool" where
  "tells H \<longleftrightarrow> [] \<noteq> demo_hash H defaultTime \<and> demo_hash H defaultTime \<noteq> demo_hash H demo_left"

lemma calm_updates [simp]:
  "api_UpdateSessionStatus (calm ps now) h s = Inr (stored_session s)"
  "api_UpdateSession (calm ps now) h s = Inr (stored_session s)"
  "api_CreatePod (calm ps now) h p = None"
  "api_UpdateSessionStatus (busy ps now) h s = Inr (stored_session s)"
  "api_UpdateSession (busy ps now) h s = Inl (OtherError ''conflict'')"
  by (simp_all add: calm_def busy_def demo_kube_def)

abbreviation demo_list :: request where
  "demo_list \<equiv> ListPods ''default'' (ownedClientPods demo_start)"

lemma demo_connect_call:
  assumes "tells H"
  shows "\<exists>rs. run_state (reconcileClients (calm [] demo_now) H visit (digits CHR ''0'') ''default''
      (demo_state None [(''a'', True)] None) [] None) [] = (Some None, [] @ rs) \<and>
    served_all (calm [] demo_now) [] rs \<lparr>world_Session = demo_state None [(''a'', True)] None, world_Pods = []\<rparr> =
      \<lparr>world_Session = demo_state (hashed (demo_hash H defaultTime)) [(''a'', True)] (Some (demo_row demo_online)),
       world_Pods = [demo_created]\<rparr>"
  using assms
  by (simp add: reconcileClients_def demo_connect updateStatusAndSpawn_def spawnClientPods_def Let_def
      StatusHasChanged_def tells_def)

lemma demo_leave_call:
  assumes "tells H"
  shows "\<exists>rs. run_state (reconcileClients (busy [demo_created] demo_left) H visit (digits CHR ''1'') ''default''
      (demo_state (hashed (demo_hash H defaultTime)) [(''a'', False)] (Some (demo_row demo_online))) [] None) [] =
      (Some (Some (OtherError ''conflict'')), [] @ rs) \<and>
    served_all (busy [demo_created] demo_left) [] rs
      \<lparr>world_Session = demo_state (hashed (demo_hash H defaultTime)) [(''a'', False)] (Some (demo_row demo_online)),
       world_Pods = [demo_created]\<rparr> =
      \<lparr>world_Session = demo_state (hashed (demo_hash H defaultTime)) [(''a'', False)] (Some (demo_row demo_left)),
       world_Pods = [demo_created]\<rparr>"
  using assms
  by (simp add: reconcileClients_def demo_leave updateStatusAndSpawn_def spawnClientPods_def Let_def
      StatusHasChanged_def tells_def)

lemma demo_return_call:
  "run_state (reconcileClients (calm [demo_created] demo_again) H visit (digits CHR ''2'') ''default''
    (demo_state (hashed (demo_hash H defaultTime)) [(''a'', True)] (Some (demo_row demo_left))) [] None) [] =
    (Some None, [demo_list])"
  by (simp add: reconcileClients_def demo_return updateStatusAndSpawn_def spawnClientPods_def Let_def
      StatusHasChanged_def)

section \<open>The life\<close>

lemma demo_patch:
  assumes "map_ok cs'"
  shows "life_step \<lparr>world_Session = demo_state a cs st, world_Pods = ps\<rparr>
    \<lparr>world_Session = demo_state a cs' st, world_Pods = ps\<rparr>"
  using clients_patched [OF assms, of "\<lparr>world_Session = demo_state a cs st, world_Pods = ps\<rparr>"] by simp

lemmas demo_patched = lives [OF _ demo_patch]

lemma demo_patch_step: "life_step \<lparr>world_Session = demo_state a cs st, world_Pods = ps\<rparr>
    \<lparr>world_Session = demo_state a [(''a'', b)] st, world_Pods = ps\<rparr>"
  by (rule demo_patch) (simp add: map_ok_def map_keys_def)

lemma demo_pod_names: "status_pod_names (demo_state a cs (Some (demo_row seen))) = {''demo-1-web-0000''}"
  "status_pod_names (demo_state a cs None) = {}" "kpod_Name demo_created = ''demo-1-web-0000''"
  by (auto simp: status_pod_names_def demo_row_def demo_created_def demo_new_def clientPodObject_def)

lemma demo_fresh:
  assumes "x \<noteq> CHR ''0''"
  shows "uuid_fresh (digits x) (demo_state a [(''a'', b)] (Some (demo_row seen))) [demo_created]"
  by (rule fresh_digits) (use assms in \<open>auto simp: demo_pod_names\<close>)

lemma demo_connected: "life H demo_start \<lparr>world_Session = demo_state None [(''a'', True)] None, world_Pods = []\<rparr>"
  by (rule demo_patched [OF created]) (simp add: map_ok_def map_keys_def)

lemma demo_connected_call: "life_call (calm [] demo_now) visit (digits CHR ''0'') ''default'' None
    \<lparr>world_Session = demo_state None [(''a'', True)] None, world_Pods = []\<rparr> []"
  by (rule calm_call(1), rule fresh_digits) (auto simp: demo_pod_names)

lemma demo_served:
  assumes "tells H"
  shows "life H demo_start
    \<lparr>world_Session = demo_state (hashed (demo_hash H defaultTime)) [(''a'', True)] (Some (demo_row demo_online)),
     world_Pods = [demo_created]\<rparr>"
  using demo_connect_call [OF assms] by (intro life_turn [OF demo_connected demo_connected_call]) simp

lemma demo_gone:
  assumes "tells H"
  shows "life H demo_start
    \<lparr>world_Session = demo_state (hashed (demo_hash H defaultTime)) [(''a'', False)] (Some (demo_row demo_online)),
     world_Pods = [demo_created]\<rparr>"
  by (rule demo_patched [OF demo_served [OF assms]]) (simp add: map_ok_def map_keys_def)

lemmas demo_calls = calm_call [OF demo_fresh]

text \<open>The client is back, but the status that is stored says that it is away.\<close>

lemma demo_back:
  assumes "tells H"
  shows "life H demo_start
    \<lparr>world_Session = demo_state (hashed (demo_hash H defaultTime)) [(''a'', True)] (Some (demo_row demo_left)),
     world_Pods = [demo_created]\<rparr>"
  using demo_leave_call [OF assms]
  by (intro demo_patched [OF life_turn [OF demo_gone [OF assms] demo_calls(2) [of "CHR ''1''"]]])
    (auto simp: map_ok_def map_keys_def)

lemma demo_start_new: "same_session (newSession ''demo-1'' demo_template) demo_start" "names_split demo_start"
proof -
  show "same_session (newSession ''demo-1'' demo_template) demo_start"
    by (simp add: same_session_def same_map_refl demo_state_def demo_status_def newSession_def)
  show "names_split demo_start" unfolding names_split_def by code_simp
qed

text \<open>A hash that tells which clients are connected.\<close>

definition demo_hashing :: hashing where
  "demo_hashing = \<lparr>json_Marshal = \<lambda>status. map (\<lambda>(c, v). if isClientConnected v then 1 else 0)
     (entries (status_Clients status)), sha256_Sum = \<lambda>bs. bs\<rparr>"

lemma demo_tells: "tells demo_hashing"
  unfolding tells_def by code_simp

lemma demo_hash_empty: "HashStatus demo_hashing status = [] \<longleftrightarrow> entries (status_Clients status) = []"
  by (cases "entries (status_Clients status)") (auto simp: HashStatus_def demo_hashing_def hex_encode_def)

section \<open>A lost error\<close>

text \<open>
  The client leaves and the session controller registers its pod; the client comes back, and a server that
  does not delete registrations answers the call.
\<close>

definition demo_registration :: gcRegistration where
  "demo_registration = (newGCRegistration ''demo-1-web-0000'' ''demo-1'' ''default'')\<lparr>gc_CreationTimestamp := demo_left\<rparr>"

lemma deaf_updates [simp]:
  "api_UpdateSessionStatus (deaf ps now) h s = Inr (stored_session s)"
  "api_UpdateSession (deaf ps now) h s = Inr (stored_session s)"
  by (simp_all add: deaf_def)

lemma demo_leave_calm: "run_state (ReconcileClientPods (calm [demo_created] demo_left) visit (digits CHR ''1'') ''default''
    (demo_state a [(''a'', False)] (Some (demo_row demo_online))) [] None) [] =
  (Some (Inr [], demo_state a [(''a'', False)] (Some (demo_row demo_left))),
   [demo_list, CreateNamespace gcNamespace,
    CreateGCRegistration (newGCRegistration ''demo-1-web-0000'' ''demo-1'' ''default'')])"
  by code_simp

lemma demo_return_deaf: "run_state (ReconcileClientPods (deaf [demo_created] demo_again) visit (digits CHR ''2'') ''default''
    (demo_state a [(''a'', True)] (Some (demo_row demo_left))) [demo_registration] None) [] =
  (Some (Inr [], demo_state a [(''a'', True)] (Some (demo_row defaultTime))),
   [demo_list, DeleteGCRegistration demo_registration])"
  by code_simp

lemma demo_left_call:
  assumes "tells H"
  shows "\<exists>rs. run_state (reconcileClients (calm [demo_created] demo_left) H visit (digits CHR ''1'') ''default''
      (demo_state (hashed (demo_hash H defaultTime)) [(''a'', False)] (Some (demo_row demo_online))) [] None) [] =
      (Some None, [] @ rs) \<and>
    served_all (calm [demo_created] demo_left) [] rs
      \<lparr>world_Session = demo_state (hashed (demo_hash H defaultTime)) [(''a'', False)] (Some (demo_row demo_online)),
       world_Pods = [demo_created]\<rparr> =
      \<lparr>world_Session = demo_state (hashed (demo_hash H demo_left)) [(''a'', False)] (Some (demo_row demo_left)),
       world_Pods = [demo_created]\<rparr> \<and>
    CreateGCRegistration (demo_registration\<lparr>gc_CreationTimestamp := zero_time\<rparr>) \<in> set rs"
  using assms
  by (simp add: reconcileClients_def demo_leave_calm updateStatusAndSpawn_def spawnClientPods_def Let_def
      StatusHasChanged_def tells_def demo_registration_def newGCRegistration_def)

lemma demo_unchanged_call:
  "run_state (reconcileClients (calm [demo_created] demo_left) H visit (digits CHR ''2'') ''default''
    (demo_state (hashed (demo_hash H defaultTime)) [(''a'', True)] (Some (demo_row demo_online))) [] None) [] =
    (Some None, [demo_list])"
  by (simp add: reconcileClients_def demo_unchanged updateStatusAndSpawn_def spawnClientPods_def Let_def
      StatusHasChanged_def)

lemma demo_same_rows: "same_map same_row (demo_row defaultTime) (demo_row demo_online)"
  by (simp add: same_map_def map_ok_def map_keys_def demo_row_def same_row_def same_map_refl demo_online_def)

lemma demo_return_stored:
  assumes "tells H"
  shows "\<exists>rs. run_state (reconcileClients (calm [demo_created] demo_again) H visit (digits CHR ''2'') ''default''
      (demo_state (hashed (demo_hash H demo_left)) [(''a'', True)] (Some (demo_row demo_left))) [] None) [] =
      (Some None, [] @ rs)"
  using assms [unfolded tells_def, THEN conjunct2, THEN not_sym]
  by (simp add: reconcileClients_def demo_return updateStatusAndSpawn_def spawnClientPods_def Let_def
      StatusHasChanged_def)

lemma demo_deaf_call:
  assumes "tells H"
  shows "\<exists>rs. run_state (reconcileClients (deaf [demo_created] demo_again) H visit (digits CHR ''2'') ''default''
      (demo_state (hashed (demo_hash H demo_left)) [(''a'', True)] (Some (demo_row demo_left))) [demo_registration] None) [] =
      (Some None, [] @ rs) \<and>
    served_all (deaf [demo_created] demo_again) [] rs
      \<lparr>world_Session = demo_state (hashed (demo_hash H demo_left)) [(''a'', True)] (Some (demo_row demo_left)),
       world_Pods = [demo_created]\<rparr> =
      \<lparr>world_Session = demo_state (hashed (demo_hash H defaultTime)) [(''a'', True)] (Some (demo_row demo_online)),
       world_Pods = [demo_created]\<rparr>"
  using assms [unfolded tells_def, THEN conjunct2, THEN not_sym]
  by (simp add: reconcileClients_def demo_return_deaf updateStatusAndSpawn_def spawnClientPods_def Let_def
      StatusHasChanged_def)

lemma demo_away:
  assumes "tells H"
  shows "life H demo_start
    \<lparr>world_Session = demo_state (hashed (demo_hash H demo_left)) [(''a'', True)] (Some (demo_row demo_left)),
     world_Pods = [demo_created]\<rparr>"
  using demo_left_call [OF assms]
  by (intro demo_patched [OF life_turn [OF demo_gone [OF assms] demo_calls(1) [of "CHR ''1''"]]])
    (auto simp: map_ok_def map_keys_def)

text \<open>The server of the GC controller, with what the world holds and a list of registrations.\<close>

definition collector :: "world \<Rightarrow> gcRegistration list \<Rightarrow> instant \<Rightarrow> kube" where
  "collector w gs now = demo_kube\<lparr>api_GetSession := \<lambda>_ _ _. Inr (world_Session w),
     api_GetPod := \<lambda>_ _ n. (case find (\<lambda>p. kpod_Name p = n) (world_Pods w) of None \<Rightarrow> Inl NotFound | Some p \<Rightarrow> Inr p),
     api_ListGCRegistrations := \<lambda>_ _ _. Inr gs, api_Now := \<lambda>_. now\<rparr>"

definition demo_reusable :: gcRegistration where
  "demo_reusable = demo_registration\<lparr>gc_Type := ReutilizeTimeout\<rparr>"

text \<open>Eleven and thirty-one seconds after the registration.\<close>

lemma demo_collect:
  fixes a :: "(string, string) nilmap" and cs st
  defines "w \<equiv> \<lparr>world_Session = demo_state a cs st, world_Pods = [demo_created]\<rparr>"
  shows "UpdateGCRegistration demo_reusable
      \<in> set (snd (run_state (ReconcileGC (collector w [demo_registration] (demo_left + 11000000000))) []))"
    and "DeletePod demo_created
      \<in> set (snd (run_state (ReconcileGC (collector w [demo_reusable] (demo_left + 31000000000))) []))"
  unfolding w_def by code_simp+

end
