(* ===== verification/Life_Properties.thy ===== *)
theory Life_Properties
  imports Life_Demo
begin

text \<open>
  The theorems about the life of a session: every call returns, the pods keep their capacity, every client
  sits in one pod of each template, and a call without an error serves the connected clients.
\<close>

section \<open>Calls return\<close>

text \<open>
  C5. Every call of the client part of \<open>Reconcile\<close> returns without a panic, also on stale caches: for a
  session created by the session manager, whose name and templates split, the session may be that of any
  state \<open>w1\<close> that can be reached, the list may show the pods of any other, \<open>w2\<close>, and every request, the list
  included, may fail with any error.  What the server answers otherwise is limited by \<open>life_call\<close>: sessions
  are stored as JSON keeps them, new names are new as far as the caches tell, the address has no slash.
\<close>

theorem life_calls_return:
  assumes "life H session w1" and "life H session w2"
    and "same_session (newSession n template) session" and "names_split session"
    and "life_call K ord u ns ip (cached w1 w2) h"
  shows "\<exists>e h'. run_state (reconcileClients K H ord u ns (world_Session w1) gs ip) h = (Some e, h')"
proof -
  obtain r h' where run: "run_state (reconcileClients K H ord u ns (world_Session (cached w1 w2)) gs ip) h = (r, h')"
    by force
  have "life_ok (cached w1 w2)" using life_invariant assms(1-4) life_ok_cached by blast
  from life_reconciled [OF this assms(5) run] have "r \<noteq> None" .
  with run show ?thesis by auto
qed

text \<open>A call on a session without a client, while the list shows a pod that was created later.\<close>

lemma life_calls_return_witness:
  "\<exists>e h. run_state (reconcileClients (calm [demo_created] demo_now) demo_hashing visit (digits CHR ''2'') ''default''
     (demo_state None [(''a'', True)] None) [] None) [] = (Some e, h)"
proof -
  let ?w2 = "\<lparr>world_Session = demo_state (hashed (demo_hash demo_hashing defaultTime)) [(''a'', True)]
      (Some (demo_row demo_online)), world_Pods = [demo_created]\<rparr>"
  have "uuid_fresh (digits CHR ''2'') (demo_state None [(''a'', True)] None) [demo_created]"
    by (rule fresh_digits) (auto simp: demo_pod_names)
  from calm_call(1) [OF this] have "life_call (calm [demo_created] demo_now) visit (digits CHR ''2'') ''default'' None
      (cached \<lparr>world_Session = demo_state None [(''a'', True)] None, world_Pods = []\<rparr> ?w2) []"
    by (simp add: cached_def)
  from life_calls_return [OF demo_connected demo_served [OF demo_tells] demo_start_new this, of "[]"]
  show ?thesis by simp
qed

section \<open>Seats\<close>

text \<open>
  C3. In every state that a session created by the session manager can reach, through any number of calls,
  failed ones, ones that were cut off and ones on stale caches included, no pod of a template is in the
  status of more clients than \<open>MaxClients\<close> of the template.  The code seats one client in each pod even if
  \<open>MaxClients\<close> is below one, which the schema allows; then no pod is in the status of a second one.
\<close>

theorem life_capacity:
  assumes "life H session w" and "same_session (newSession n template) session" and "names_split session"
    and "templateNameOf pod = Some t"
    and "max_of (initAllocationMap (spec_ClientPodTemplates (session_Spec (world_Session w)))) t = MaxClients"
  shows "int (card (occupants (entries (status_Clients (session_Status (world_Session w)))) pod)) \<le>
    (if 1 \<le> MaxClients then MaxClients else 1)"
proof -
  have "int (card (occupants (entries (status_Clients (session_Status (world_Session w)))) pod)) \<le> max 1 MaxClients"
    using life_invariant [OF assms(1-3)] assms(4,5) unfolding life_ok_def session_seated_def within_def Let_def by blast
  then show ?thesis by (simp add: max_def split: if_splits)
qed

lemma life_capacity_witness:
  "int (card (occupants (demo_row demo_online) ''demo-1-web-0000'')) \<le> 1"
proof -
  have "templateNameOf ''demo-1-web-0000'' = Some ''web''" by code_simp
  moreover have "max_of (initAllocationMap (tmpl_ClientPodTemplates demo_template)) ''web'' = 1" by code_simp
  ultimately show ?thesis using life_capacity [OF demo_served [OF demo_tells] demo_start_new, of _ _ 1] by fastforce
qed

text \<open>
  C4. In every state that a session created by the session manager can reach, each client in the status
  has exactly one pod of every template of the session, and every pod of the client belongs to a template
  of the session.
\<close>

theorem life_seating:
  assumes "life H session w" and "same_session (newSession n template) session" and "names_split session"
    and "map_of (entries (status_Clients (session_Status (world_Session w)))) c = Some v"
  shows "(\<forall>t \<in> template_Name ` set (spec_ClientPodTemplates (session_Spec (world_Session w))).
      \<exists>!pod. pod \<in> dom (map_of (clientStatus_PodStatus v)) \<and> templateNameOf pod = Some t) \<and>
    (\<forall>pod \<in> dom (map_of (clientStatus_PodStatus v)).
      \<exists>t \<in> template_Name ` set (spec_ClientPodTemplates (session_Spec (world_Session w))). templateNameOf pod = Some t)"
proof -
  let ?T = "template_Name ` set (spec_ClientPodTemplates (session_Spec (world_Session w)))"
  have "seated ?T v"
    using life_invariant [OF assms(1-3)] assms(4)
    unfolding life_ok_def session_seated_def all_seated_def Let_def by blast
  then show ?thesis by (rule seated_pods)
qed

lemma life_seating_witness:
  "\<exists>v. map_of (demo_row demo_online) ''a'' = Some v \<and>
     (\<exists>!pod. pod \<in> dom (map_of (clientStatus_PodStatus v)) \<and> templateNameOf pod = Some ''web'')"
proof -
  let ?s = "demo_state (hashed (demo_hash demo_hashing defaultTime)) [(''a'', True)] (Some (demo_row demo_online))"
  obtain v where v: "map_of (demo_row demo_online) ''a'' = Some v" by (simp add: demo_row_def)
  then have "map_of (entries (status_Clients (session_Status (world_Session
      \<lparr>world_Session = ?s, world_Pods = [demo_created]\<rparr>)))) ''a'' = Some v" by simp
  note seats = life_seating [OF demo_served [OF demo_tells] demo_start_new this, THEN conjunct1]
  have "''web'' \<in> template_Name ` set (spec_ClientPodTemplates (session_Spec (world_Session
      \<lparr>world_Session = ?s, world_Pods = [demo_created]\<rparr>)))" by (simp add: demo_template_def)
  with seats v show ?thesis by blast
qed

section \<open>Service\<close>

text \<open>
  C2. A call without an error serves the clients: afterwards every client that the spec has connected is
  connected in the stored status and has, for every template, exactly one pod, which exists.  The call
  reads the current session, and the list shows no pod that is gone, though it may miss new ones.  The
  annotation must not be the hash of the status that the call computes while another one is stored
  (\<open>stale_status_kept\<close> shows what happens otherwise); statuses are compared as the server keeps them,
  with times in whole seconds.
\<close>

theorem life_serves:
  assumes "life H session w" and "life H session w2"
    and "same_session (newSession n template) session" and "names_split session"
    and "life_call K ord u ns ip (cached w w2) h"
    and "kpod_Name ` set (world_Pods w2) \<subseteq> kpod_Name ` set (world_Pods w)" and "names_free K w"
    and "unix (api_Now K h) \<noteq> unix defaultTime"
    and "spec_ClientPodTemplates (session_Spec (world_Session w)) \<noteq> []"
    and "\<And>pods s h'. run_state (ReconcileClientPods K ord u ns (world_Session w) gs ip) h = (Some (Inr pods, s), h') \<Longrightarrow>
      map_get_zero [] (entries (session_Annotations (world_Session w))) ''statusHash'' = HashStatus H (session_Status s) \<Longrightarrow>
      same_map same_row (entries (status_Clients (session_Status s)))
        (entries (status_Clients (session_Status (world_Session w))))"
    and "run_state (reconcileClients K H ord u ns (world_Session w) gs ip) h = (Some None, h @ rs)"
    and "map_of (entries (spec_Clients (session_Spec (world_Session w)))) c = Some True"
  defines "w' \<equiv> served_all K h rs w"
  shows "\<exists>v. map_of (entries (status_Clients (session_Status (world_Session w')))) c = Some v \<and> isClientConnected v \<and>
    (\<forall>t \<in> template_Name ` set (spec_ClientPodTemplates (session_Spec (world_Session w'))).
      \<exists>!pod. pod \<in> dom (map_of (clientStatus_PodStatus v)) \<and> templateNameOf pod = Some t) \<and>
    dom (map_of (clientStatus_PodStatus v)) \<subseteq> kpod_Name ` set (world_Pods w')"
proof -
  note ok = life_invariant [OF assms(1,3,4)]
  have view: "life_ok (cached w w2)" using ok life_invariant [OF assms(2-4)] by (rule life_ok_cached)
  obtain pods s items h1 where
    call: "client_call K ord u ns (world_Session w) items h" and
    run: "run_state (ReconcileClientPods K ord u ns (world_Session w) gs ip) h = (Some (Inr pods, s), h1)" and
    names: "status_pod_names s \<subseteq> kpod_Name ` set (world_Pods w')" and
    stored: "same_session s (world_Session w') \<or>
      map_get_zero [] (entries (session_Annotations (world_Session w))) ''statusHash'' = HashStatus H (session_Status s) \<and>
      world_Session w' = world_Session w"
    by (rule life_success [OF view assms(5,7) _ _ assms(9,11), folded w'_def]) (use assms(6) in auto)
  from run obtain st where s: "s = with_status_clients st (world_Session w)" by (rule ReconcileClientPods_run)
  have status: "same_map same_row (entries (status_Clients (session_Status s)))
      (entries (status_Clients (session_Status (world_Session w'))))"
    using stored assms(10) [OF run] by (auto simp: same_session_def)
  have templates: "spec_ClientPodTemplates (session_Spec (world_Session w')) = spec_ClientPodTemplates (session_Spec s)"
    using stored by (auto simp: same_session_def s)
  have "map_of (entries (spec_Clients (session_Spec s))) c = Some True" using assms(12) by (simp add: s)
  from online_after_call [OF call assms(8) run this] obtain v where
    v: "map_of (entries (status_Clients (session_Status s))) c = Some v" "isClientConnected v"
    by (cases "map_of (entries (status_Clients (session_Status s))) c")
      (auto simp: isClientConnected_def split: if_splits)
  from same_map_found [OF status v(1)] obtain v' where
    v': "map_of (entries (status_Clients (session_Status (world_Session w')))) c = Some v'" "same_row v v'" by blast
  have online: "isClientConnected v'" using v(2) v'(2) by (simp add: isClientConnected_def same_row_def)
  have "session_ok (world_Session w)" "session_seated (world_Session w)" using ok by (simp_all add: life_ok_def)
  from client_call_seats [OF call this run] v(1) have
    "seated (template_Name ` set (spec_ClientPodTemplates (session_Spec s))) v"
    unfolding session_seated_def all_seated_def Let_def by blast
  note seats = seated_pods [OF this]
  have "dom (map_of (clientStatus_PodStatus v)) \<subseteq> status_pod_names s"
    using v(1) unfolding status_pod_names_def by blast
  note exist = subset_trans [OF this names]
  show ?thesis unfolding templates
    by (intro exI [of _ v'] conjI v' online; unfold same_row_pods [OF v'(2)]; intro exist seats [THEN conjunct1])
qed

text \<open>
  Two calls on a server that keeps whole seconds: the client comes back, and the new status is stored;
  a call on a session that has not changed, whose annotation is the hash of the status that is computed.
\<close>

lemma life_serves_witness:
  "(\<exists>w v. life demo_hashing demo_start w \<and> map_of (entries (status_Clients (session_Status (world_Session w)))) ''a'' = Some v \<and>
     isClientConnected v \<and> dom (map_of (clientStatus_PodStatus v)) \<subseteq> kpod_Name ` set (world_Pods w)) \<and>
   (\<exists>v. map_of (demo_row demo_online) ''a'' = Some v \<and> isClientConnected v \<and>
     dom (map_of (clientStatus_PodStatus v)) \<subseteq> {kpod_Name demo_created})"
proof
  let ?H = demo_hashing
  let ?w = "\<lparr>world_Session = demo_state (hashed (demo_hash ?H demo_left)) [(''a'', True)] (Some (demo_row demo_left)),
     world_Pods = [demo_created]\<rparr>"
  have life: "life ?H demo_start ?w" by (rule demo_away [OF demo_tells])
  have call: "life_call (calm [demo_created] demo_again) visit (digits CHR ''2'') ''default'' None (cached ?w ?w) []"
    unfolding cached_simps by (rule demo_calls(1)) simp
  from demo_return_stored [OF demo_tells] obtain rs where
    run: "run_state (reconcileClients (calm [demo_created] demo_again) ?H visit (digits CHR ''2'') ''default''
      (world_Session ?w) [] None) [] = (Some None, [] @ rs)" by auto
  have now: "unix (api_Now (calm [demo_created] demo_again) []) \<noteq> unix defaultTime" by code_simp
  let ?w' = "served_all (calm [demo_created] demo_again) [] rs ?w"
  have "\<exists>v. map_of (entries (status_Clients (session_Status (world_Session ?w')))) ''a'' = Some v \<and> isClientConnected v \<and>
      dom (map_of (clientStatus_PodStatus v)) \<subseteq> kpod_Name ` set (world_Pods ?w')"
  proof -
    have "\<exists>v. map_of (entries (status_Clients (session_Status (world_Session ?w')))) ''a'' = Some v \<and> isClientConnected v \<and>
        (\<forall>t \<in> template_Name ` set (spec_ClientPodTemplates (session_Spec (world_Session ?w'))).
          \<exists>!pod. pod \<in> dom (map_of (clientStatus_PodStatus v)) \<and> templateNameOf pod = Some t) \<and>
        dom (map_of (clientStatus_PodStatus v)) \<subseteq> kpod_Name ` set (world_Pods ?w')"
    proof (rule life_serves [OF life life demo_start_new call _ calm_names_free now _ _ run])
      fix pods s h'
      assume "run_state (ReconcileClientPods (calm [demo_created] demo_again) visit (digits CHR ''2'') ''default''
          (world_Session ?w) [] None) [] = (Some (Inr pods, s), h')"
      then have "session_Status s = demo_status (Some (demo_row defaultTime))" by (auto simp: demo_return)
      moreover assume "map_get_zero [] (entries (session_Annotations (world_Session ?w))) ''statusHash'' =
          HashStatus ?H (session_Status s)"
      ultimately show "same_map same_row (entries (status_Clients (session_Status s)))
          (entries (status_Clients (session_Status (world_Session ?w))))"
        using demo_tells unfolding tells_def by simp
    qed simp_all
    then show ?thesis by blast
  qed
  moreover have "life ?H demo_start ?w'" by (rule whole_call [OF life _ run]) (use call in simp)
  ultimately show "\<exists>w v. life ?H demo_start w \<and>
     map_of (entries (status_Clients (session_Status (world_Session w)))) ''a'' = Some v \<and>
     isClientConnected v \<and> dom (map_of (clientStatus_PodStatus v)) \<subseteq> kpod_Name ` set (world_Pods w)" by blast
next
  let ?H = demo_hashing
  let ?w = "\<lparr>world_Session = demo_state (hashed (demo_hash ?H defaultTime)) [(''a'', True)] (Some (demo_row demo_online)),
     world_Pods = [demo_created]\<rparr>"
  have life: "life ?H demo_start ?w" by (rule demo_served [OF demo_tells])
  have call: "life_call (calm [demo_created] demo_left) visit (digits CHR ''2'') ''default'' None (cached ?w ?w) []"
    unfolding cached_simps by (rule demo_calls(1)) simp
  have run: "run_state (reconcileClients (calm [demo_created] demo_left) ?H visit (digits CHR ''2'') ''default''
      (world_Session ?w) [] None) [] = (Some None, [] @ [demo_list])" by (simp add: demo_unchanged_call)
  have now: "unix (api_Now (calm [demo_created] demo_left) []) \<noteq> unix defaultTime" by code_simp
  have "served_all (calm [demo_created] demo_left) [] [demo_list] ?w = ?w" by simp
  moreover have "\<exists>v. map_of (entries (status_Clients (session_Status (world_Session
        (served_all (calm [demo_created] demo_left) [] [demo_list] ?w))))) ''a'' = Some v \<and> isClientConnected v \<and>
      (\<forall>t \<in> template_Name ` set (spec_ClientPodTemplates (session_Spec (world_Session
          (served_all (calm [demo_created] demo_left) [] [demo_list] ?w)))).
        \<exists>!pod. pod \<in> dom (map_of (clientStatus_PodStatus v)) \<and> templateNameOf pod = Some t) \<and>
      dom (map_of (clientStatus_PodStatus v)) \<subseteq> kpod_Name ` set (world_Pods
        (served_all (calm [demo_created] demo_left) [] [demo_list] ?w))"
  proof (rule life_serves [OF life life demo_start_new call _ calm_names_free now _ _ run])
    fix pods s h'
    assume "run_state (ReconcileClientPods (calm [demo_created] demo_left) visit (digits CHR ''2'') ''default''
        (world_Session ?w) [] None) [] = (Some (Inr pods, s), h')"
    then have "session_Status s = demo_status (Some (demo_row defaultTime))" by (auto simp: demo_unchanged)
    then show "same_map same_row (entries (status_Clients (session_Status s)))
        (entries (status_Clients (session_Status (world_Session ?w))))" by (simp add: demo_same_rows)
  qed simp_all
  ultimately show "\<exists>v. map_of (demo_row demo_online) ''a'' = Some v \<and> isClientConnected v \<and>
     dom (map_of (clientStatus_PodStatus v)) \<subseteq> {kpod_Name demo_created}" by auto
qed

section \<open>A status that is not stored\<close>

text \<open>
  C35. The annotation can keep a status from being stored: a session created by the session manager reaches
  a state in which a client is connected in the spec and away in the status, and in which a call on a server
  that accepts every request ends without an error and without a write.  The update of the status and that
  of the annotation are two requests; a conflict of the second leaves the hash of the status before the
  last, and a client that comes back takes the status back to that one.
\<close>

theorem stale_status_kept:
  assumes "tells H"
  shows "\<exists>w K. life H demo_start w \<and> life_call K visit (digits CHR ''2'') ''default'' None w [] \<and>
    (\<forall>h p. api_CreatePod K h p = None) \<and>
    (\<forall>h s. api_UpdateSessionStatus K h s = Inr (stored_session s) \<and> api_UpdateSession K h s = Inr (stored_session s)) \<and>
    map_of (entries (spec_Clients (session_Spec (world_Session w)))) ''a'' = Some True \<and>
    (\<exists>v. map_of (entries (status_Clients (session_Status (world_Session w)))) ''a'' = Some v \<and> \<not> isClientConnected v) \<and>
    run_state (reconcileClients K H visit (digits CHR ''2'') ''default'' (world_Session w) [] None) [] =
      (Some None, [ListPods ''default'' (ownedClientPods (world_Session w))])"
proof -
  let ?w = "\<lparr>world_Session = demo_state (hashed (demo_hash H defaultTime)) [(''a'', True)] (Some (demo_row demo_left)),
     world_Pods = [demo_created]\<rparr>"
  have call: "life_call (calm [demo_created] demo_again) visit (digits CHR ''2'') ''default'' None ?w []"
    by (rule demo_calls(1)) simp
  have "unix defaultTime \<noteq> unix demo_left" by code_simp
  then have "\<exists>v. map_of (demo_row demo_left) ''a'' = Some v \<and> \<not> isClientConnected v"
    by (simp add: demo_row_def isClientConnected_def)
  with demo_back [OF assms] call calm_creates demo_return_call [of H] show ?thesis
    by (intro exI [of _ ?w] exI [of _ "calm [demo_created] demo_again"]) simp
qed

lemma stale_status_kept_witness: "\<exists>w. life demo_hashing demo_start w \<and>
    map_of (entries (spec_Clients (session_Spec (world_Session w)))) ''a'' = Some True \<and>
    (\<exists>v. map_of (entries (status_Clients (session_Status (world_Session w)))) ''a'' = Some v \<and> \<not> isClientConnected v)"
  using stale_status_kept [OF demo_tells] by blast

section \<open>A pod in use that is collected\<close>

text \<open>
  C21. \<open>ReconcileClientPods\<close> drops the error of a registration that could not be deleted.  A session created
  by the session manager reaches a state \<open>w\<close> from a call that registered the idle pod of a client, by a patch
  that connects the client again.  The next call cannot delete the registration, but ends without an error
  and stores the connected client with its pod.  Then the GC controller turns the registration into one for
  reuse and, when that has expired too, deletes the pod, while the client is connected.
\<close>

theorem dropped_error_collects_pod:
  assumes "tells H"
  shows "\<exists>w0 rs0 w rs w' v. life H demo_start w \<and>
    run_state (reconcileClients (calm (world_Pods w0) demo_left) H visit (digits CHR ''1'') ''default'' (world_Session w0)
      [] None) [] = (Some None, rs0) \<and>
    CreateGCRegistration (demo_registration\<lparr>gc_CreationTimestamp := zero_time\<rparr>) \<in> set rs0 \<and>
    life_step (served_all (calm (world_Pods w0) demo_left) [] rs0 w0) w \<and>
    life_call (deaf (world_Pods w) demo_again) visit (digits CHR ''2'') ''default'' None w [] \<and>
    run_state (reconcileClients (deaf (world_Pods w) demo_again) H visit (digits CHR ''2'') ''default'' (world_Session w)
      [demo_registration] None) [] = (Some None, rs) \<and>
    w' = served_all (deaf (world_Pods w) demo_again) [] rs w \<and>
    map_of (entries (spec_Clients (session_Spec (world_Session w')))) ''a'' = Some True \<and>
    map_of (entries (status_Clients (session_Status (world_Session w')))) ''a'' = Some v \<and> isClientConnected v \<and>
    kpod_Name demo_created \<in> dom (map_of (clientStatus_PodStatus v)) \<and>
    UpdateGCRegistration demo_reusable
      \<in> set (snd (run_state (ReconcileGC (collector w' [demo_registration] (demo_left + 11000000000))) [])) \<and>
    DeletePod demo_created
      \<in> set (snd (run_state (ReconcileGC (collector w' [demo_reusable] (demo_left + 31000000000))) []))"
proof -
  let ?old = "\<lparr>world_Session = demo_state (hashed (demo_hash H defaultTime)) [(''a'', False)] (Some (demo_row demo_online)),
     world_Pods = [demo_created]\<rparr>"
  let ?w = "\<lparr>world_Session = demo_state (hashed (demo_hash H demo_left)) [(''a'', True)] (Some (demo_row demo_left)),
     world_Pods = [demo_created]\<rparr>"
  from demo_left_call [OF assms] obtain rs0 where
    run0: "run_state (reconcileClients (calm (world_Pods ?old) demo_left) H visit (digits CHR ''1'') ''default''
      (world_Session ?old) [] None) [] = (Some None, rs0)"
      "CreateGCRegistration (demo_registration\<lparr>gc_CreationTimestamp := zero_time\<rparr>) \<in> set rs0" and
    w0: "served_all (calm (world_Pods ?old) demo_left) [] rs0 ?old =
      \<lparr>world_Session = demo_state (hashed (demo_hash H demo_left)) [(''a'', False)] (Some (demo_row demo_left)),
       world_Pods = [demo_created]\<rparr>" by auto
  have step: "life_step (served_all (calm (world_Pods ?old) demo_left) [] rs0 ?old) ?w"
    unfolding w0 by (rule demo_patch_step)
  let ?w' = "\<lparr>world_Session = demo_state (hashed (demo_hash H defaultTime)) [(''a'', True)] (Some (demo_row demo_online)),
     world_Pods = [demo_created]\<rparr>"
  have call: "life_call (deaf [demo_created] demo_again) visit (digits CHR ''2'') ''default'' None ?w []"
    by (rule demo_calls(3)) simp
  have "\<exists>v. map_of (demo_row demo_online) ''a'' = Some v \<and> isClientConnected v \<and>
      kpod_Name demo_created \<in> dom (map_of (clientStatus_PodStatus v))"
    by (simp add: demo_row_def isClientConnected_def demo_pod_names demo_online_def)
  then obtain v where v: "map_of (demo_row demo_online) ''a'' = Some v" "isClientConnected v"
    "kpod_Name demo_created \<in> dom (map_of (clientStatus_PodStatus v))" by blast
  from demo_deaf_call [OF assms] obtain rs where
    run: "run_state (reconcileClients (deaf (world_Pods ?w) demo_again) H visit (digits CHR ''2'') ''default''
      (world_Session ?w) [demo_registration] None) [] = (Some None, rs)" and
    w': "?w' = served_all (deaf (world_Pods ?w) demo_again) [] rs ?w" by auto
  show ?thesis
    by (rule exI [of _ ?old], rule exI [of _ rs0], rule exI [of _ ?w], rule exI [of _ rs], rule exI [of _ ?w'], rule exI [of _ v])
      (intro conjI demo_away [OF assms] run0 step run w' demo_collect; use call v in simp)
qed

lemma dropped_error_collects_pod_witness: "\<exists>w'. DeletePod demo_created
    \<in> set (snd (run_state (ReconcileGC (collector w' [demo_reusable] (demo_left + 31000000000))) [])) \<and>
    map_of (entries (spec_Clients (session_Spec (world_Session w')))) ''a'' = Some True"
  using dropped_error_collects_pod [OF demo_tells] by blast

end
