(* ===== verification/Spec2Isabelle.thy ===== *)
theory Spec2Isabelle
  imports Client_Properties Client_Total_Properties Allocation_Properties Session_Pod_Properties
    Session_Controller_Properties GC_Properties Network_Properties Manager_Properties
    Deep_Copy_Properties Process_Properties Life_Properties
begin

text \<open>
  A verification library of xr-telepresence-k8s, a set of Kubernetes controllers that run the pods
  of telepresence sessions, and the HTTP service in front of them.

  \<^bold>\<open>The program.\<close>  A \<open>Session\<close> resource holds the clients that should be connected
  (\<open>spec.clients\<close>) and, in its status, the pods each client uses.
  \<^item> The session controller (\<open>controllers/session\<close>) turns the clients of the spec into pods: it follows
    connections and expiries, places clients in pods of limited capacity, reuses spare pods, spawns
    missing ones and registers idle pods for collection.
  \<^item> The GC controller (\<open>controllers/gc\<close>) deletes pods whose \<open>GCRegistration\<close> has expired, in two phases.
  \<^item> The network controller (\<open>controllers/network\<close>) gives every pod a service and publishes the ports
    as paths of one ingress.
  \<^item> The session manager (\<open>session-manager\<close>) creates sessions in several clusters and changes their
    clients on behalf of HTTP requests.
  Each controller is a process of its own (\<open>cmd/main.go\<close>), which reads its flags, creates a manager of the
  controller runtime and hands its controller over to it.  The parts share no memory: they meet in the resources of the API server, in the names of pods and
  services, and in the paths of the ingress.

  \<^bold>\<open>Conventions.\<close>  A Go map is an association list with distinct keys (\<open>gomap\<close>; \<open>nilmap\<close> where it may
  be nil), and every \<open>range\<close> over a map takes its order from an argument \<open>ord\<close>; a theorem for every
  \<open>ord\<close> with \<open>permutes_keys ord\<close> holds for every run.  A panic is \<open>None\<close>.  The API server and the
  clock are a record of functions of the history of requests (\<open>kube\<close>, and \<open>clusters\<close> for the session
  manager), so that its answers are arbitrary and may change between two calls; a handler is an
  action of the state monad over that history and its effect is the list of the requests it makes.
  Instants are integers in nanoseconds, durations and timeouts 64-bit words that wrap around.  The
  texts of \<open>uuid.New()\<close> are an argument.  A session that a function changes through its pointer is
  returned.  Where sharing is the point, in the deep copies and in the TLS options of the processes, a
  memory of cells (\<open>Go_Memory\<close>) holds the arrays, maps and variables, and a slice is an array with an
  offset, a length and a capacity.

  \<^bold>\<open>Theories, bottom up.\<close>
  \<^item> \<open>Go_Base\<close>, \<open>Go_Text\<close>, \<open>Go_Sort\<close>: maps with their contract (locale \<open>go_map\<close>), iteration orders,
    loops that may panic, strings, time, \<open>sort.Slice\<close>.
  \<^item> \<open>Api_Types\<close>: the resources, field by field.  \<open>Group_Versions\<close>: their API groups and kinds
    (\<open>groupversion_info.go\<close>, \<open>register.go\<close>).  \<open>Kube\<close>: requests, the server, loops that stop at the
    first error, with the contracts \<open>api_step\<close> (a step makes only allowed requests) and \<open>exact_step\<close>
    (its requests are known), which the loops of all controllers interpret.
  \<^item> \<open>Pod_Names\<close>, \<open>Client_Lifecycle\<close>, \<open>Allocation\<close>, \<open>Readiness\<close>, \<open>Client_Pods\<close>: the model of
    \<open>client_pods.go\<close>, in the order of its functions.  \<open>Allocation_Build\<close>, \<open>Allocation_Place\<close>,
    \<open>Allocation_All\<close>, \<open>Client_Plan\<close>, \<open>Client_Invariants\<close>, \<open>Client_Results\<close> and \<open>GC_Registrations\<close> are
    its lemmas: the seats of the allocation map, the placement of a client, the agreement of the map
    with the status, and the effect of the registrations.  \<open>Client_Totality\<close>: the invariant
    \<open>session_ok\<close>, under which no slice, index or name of the function is out of range.
  \<^item> \<open>Client_Properties\<close>: the theorems about a whole \<open>ReconcileClientPods\<close>; the status follows the
    state machine \<open>client_next\<close>, readiness, pods to spawn, registrations.  \<open>Allocation_Properties\<close>:
    capacity, best fit, one pod per template, soundness, paths.  \<open>Client_Total_Properties\<close>: a call
    returns and keeps \<open>session_ok\<close>, and repeated calls settle.
  \<^item> \<open>Session_Pods\<close> (\<open>session_pods.go\<close>, \<open>utils/conditions.go\<close>, \<open>SpawnPod\<close>), \<open>Session_Pods_Spec\<close>,
    \<open>Session_Pod_Properties\<close>: the pods a session has once, their Ready condition and its panic.
  \<^item> \<open>Session_Controller\<close> (\<open>session_controller.go\<close>, the other \<open>utils\<close>) and its \<open>_Properties\<close>: events,
    indexes, the status hash, the whole \<open>Reconcile\<close>.
  \<^item> \<open>Client_Seating\<close>, \<open>Session_Server\<close>, \<open>Session_Life\<close>, \<open>Life_Demo\<close>, \<open>Life_Properties\<close>: the life of a session
    on one cluster.  \<open>Session_Server\<close> computes from the requests of a call what the server holds afterwards
    (\<open>served_all\<close>), also when the call is cut off between two requests.  \<open>life_step\<close> is the step relation:
    patches of the clients, sessions stored again, pods that report and go; \<open>life\<close> is reachability from the
    session that \<open>CreateSession\<close> posts, by these steps and by calls of the client part of \<open>Reconcile\<close> on what the
    caches show (\<open>cached\<close>), and \<open>life_ok\<close> the invariant, by rule induction:
    \<open>session_ok\<close>, readable and distinct pod names, and the seats of \<open>Client_Seating\<close>.
  \<^item> \<open>GC_Controller\<close> (\<open>gc_controller.go\<close>) and \<open>GC_Properties\<close>: no pod is deleted early, no registration
    is dropped while it guards a pod, and what the visit of each registration asks for, by the answers at that visit.
  \<^item> \<open>Network\<close> (\<open>network_controller.go\<close>, \<open>ingress.go\<close>), \<open>Network_Spec\<close>, \<open>Network_Properties\<close>: the index
    loop over the paths is a filter, what the ingress routes, its fixed point, its panics, the
    services.
  \<^item> \<open>Session_Manager\<close> (\<open>k8s-client\<close>), \<open>Session_Handlers\<close>, \<open>Client_Handlers\<close>, \<open>Manager_Config\<close>
    (\<open>handlers\<close>, \<open>main.go\<close>), \<open>Manager_Spec\<close>, \<open>Manager_Properties\<close>: the handlers as operations on the
    clients of a session, the sum of the sessions of all clusters, creation and deletion everywhere.
  \<^item> \<open>Go_Memory\<close>, \<open>Go_Copy\<close>, \<open>Go_Append\<close>: the memory and the copies and appends of Go.  The contract of a
    deep copy is the locale \<open>copier\<close>: the copy has the value of the original, changes no old cell and
    reaches only new ones; copies of slices, maps, structs and pointers are built from copiers, and their
    loops from the locale \<open>copy_loop\<close> over arrays and maps (\<open>slots\<close>).  \<open>Deep_Copy\<close> is
    \<open>zz_generated.deepcopy.go\<close> of both API packages, function by function, \<open>Deep_Copy_Spec\<close> shows that
    each is a copier, and \<open>Deep_Copy_Properties\<close> what that means for sessions and lists.
  \<^item> \<open>Go_Flags\<close> (\<open>flag.Parse\<close>, \<open>filepath.Join\<close>), \<open>Process_Start\<close> (the requests to the controller runtime,
    \<open>SetupWithManager\<close>, \<open>SetupManagerFieldIndexer\<close>), \<open>Process_Main\<close> (\<open>cmd/main.go\<close>): a process is a
    sequence of requests that ends with an exit code, and the runtime answers from the history.
    \<open>Process_Spec\<close>: flags, TLS options, and the logic \<open>checked\<close> of steps that stop at an error.
    \<open>Process_Order\<close>: the requests of a process that starts its manager.  \<open>Request_Logic\<close> and
    \<open>Permissions\<close>: which requests a handler can make at all, checked call by call, and the roles of the
    \<open>+kubebuilder:rbac\<close> markers.  \<open>Process_Properties\<close>: the theorems about the processes.
  \<^item> \<open>Demo\<close>: one concrete session and server on which the witnesses are evaluated.
  \<^item> This theory: the properties that span components.  The paths the session controller reports are
    those the network controller routes, the pods in use are not among those that the GC controller
    deletes, and which template the session controller reads from the name of a pod in a session of the
    session manager.

  \<^bold>\<open>Bounds.\<close>  No definition uses fuel: the recursion is structural except for the index loop
  \<open>ingressGCLoop\<close>, whose measure is the number of paths behind the index.  \<open>Go_Sort\<close> is the insertion
  sort that Go uses up to twelve elements; beyond that the result is the same wherever the order is
  total on the pods.  Timeouts are exact up to 9223372036 seconds (\<open>timeouts_ok\<close>), and
  \<open>timeout_wraps_around\<close> shows what happens beyond.

  \<^bold>\<open>Hypotheses about code that is not part of the program.\<close>  \<open>sets_owner\<close>, \<open>sets_session_owner\<close> and
  \<open>owns_services\<close>: \<open>SetControllerReference\<close> changes only the owner.  \<open>uuid_fresh\<close>: the four characters
  taken of a UUID give a new name.  \<open>merge_patch\<close>: the JSON merge patch of RFC 7386.  \<open>stored_maps\<close>,
  \<open>bound_ok\<close>: what the schema of the resource and the JSON binding validate.  \<open>foreign_copies\<close>: the deep
  copies of the Kubernetes structs are copiers.  \<open>stores_sessions\<close>: an update that succeeds answers with the
  session as JSON keeps it (\<open>same_session\<close>: times in whole seconds, maps without order, empty as missing);
  \<open>life_call\<close>: the list of a call shows what the cache shows; \<open>refuses\<close>: an update of a session that is out of
  date conflicts; \<open>names_free\<close>: a pod name that is taken is that of a pod of the session; \<open>clients_ok\<close>: the maps
  of a session that is read have no key twice; \<open>tells\<close>: the hashes of two statuses differ.
  \<open>grows_enough\<close>: an append gets the capacity it needs.  Each is met in a witness; the servers of the
  witnesses about lives keep whole seconds (\<open>stored_session\<close>).

  \<^bold>\<open>Not modelled.\<close>  Logging, the scheme builders of the API packages, which are library code, and the
  scaffolded tests.  \<open>json.Marshal\<close>, SHA-256, YAML, the REST client, the web framework and the
  controller runtime are parameters.  The work queue of the controller runtime, which serialises the calls
  for one resource, is not modelled: the theorems are about single calls, and the lives of \<open>Session_Life\<close> about
  sequences of calls that do not overlap, but whose reads may be stale: the session may be that of one state
  of the life and the list that of another.  A change between two requests of a call
  has no step of its own: a later update of the session then conflicts, as in a call that is cut off there or
  works on a stale session, and the creation of a pod does not depend on it.
\<close>

section \<open>Paths in the status and paths of the ingress\<close>

text \<open>The run of \<open>ReconcileNetwork\<close> after its two lists.\<close>

lemma ReconcileNetwork_run:
  assumes "api_ListPods K h ns telepresenceLabel = Inr pods"
    and "api_ListServices K (h @ [ListPods ns telepresenceLabel]) ns telepresenceLabel = Inr listed"
    and "run_state (ReconcileNetwork K ord ns) h = (Some None, h')"
  shows "\<exists>services h1. run_state (spawnServices K ns pods (servicesByName listed))
      (h @ [ListPods ns telepresenceLabel, ListServices ns telepresenceLabel]) = ((None, services), h1) \<and>
    run_state (reconcileIngress K ord services) h1 = (Some None, h')"
  using assms by (auto simp: ReconcileNetwork_def split: prod.splits option.splits)

lemma status_paths_ports:
  assumes "path \<in> set (podStatus_Paths (buildPodStatus (kpod_Name pod) (kpod_Spec pod)))"
  shows "\<exists>port \<in> set (servicePorts pod). routePath (kpod_Name pod) (svcPort_Name port) = path @ ''(/|$)(.*)''"
proof -
  from assms obtain container port where c: "container \<in> set (podSpec_Containers (kpod_Spec pod))"
    "port \<in> set (container_Ports container)" and path: "path = ''/'' @ kpod_Name pod @ ''/'' @ port_Name port"
    by (auto simp: buildPodStatus_def)
  let ?port = "\<lparr>svcPort_Protocol = port_Protocol port, svcPort_Port = port_ContainerPort port, svcPort_Name = port_Name port\<rparr>"
  from c have "?port \<in> set (servicePorts pod)" by (auto simp: servicePorts_def Let_def)
  moreover have "routePath (kpod_Name pod) (svcPort_Name ?port) = path @ ''(/|$)(.*)''"
    by (simp add: path routePath_def)
  ultimately show ?thesis by blast
qed

text \<open>
  C22. The two controllers agree on the paths: for a new pod without a service and without a path, a run
  of the network controller without an error writes an ingress in which every path that the session
  controller reports for the pod (\<open>buildPodStatus\<close>, before the address is put in front) has a rule
  that routes it to the service of the pod, provided the server stores the service as asked.
\<close>

theorem status_paths_routed:
  assumes ord: "permutes_keys ord" and owns: "owns_services K" and "distinct (map kpod_Name pods)"
    and lists: "api_ListPods K h ns telepresenceLabel = Inr pods"
      "api_ListServices K (h @ [ListPods ns telepresenceLabel]) ns telepresenceLabel = Inr listed"
    and names: "well_named (servicesByName listed)" "\<forall>pod \<in> set pods. CHR ''/'' \<notin> set (kpod_Name pod)"
    and pod: "pod \<in> set pods" "serviceKey (kpod_Name pod) \<notin> dom (map_of (servicesByName listed))"
    and stored: "\<And>h. api_CreateService K h (newService ns pod) = Inr (newService ns pod)"
    and ing: "\<And>h. api_GetIngress K h ''default'' ''ingress'' = Inr ingress" "ingressPaths ingress = Some ps"
    and fresh: "kpod_Name pod \<notin> pods_in ps"
    and run: "run_state (ReconcileNetwork K ord ns) h = (Some None, h @ t)"
  shows "\<exists>ps'. UpdateIngress (setIngressPaths ps' ingress) \<in> set t \<and>
    (\<forall>path \<in> set (podStatus_Paths (buildPodStatus (kpod_Name pod) (kpod_Spec pod))).
       \<exists>r \<in> set ps'. path_Path r = path @ ''(/|$)(.*)'' \<and> path_ServiceName r = kpod_Name pod @ ''-svc'')"
proof -
  from ReconcileNetwork_run [OF lists run] obtain services h1 where
    spawn: "run_state (spawnServices K ns pods (servicesByName listed))
      (h @ [ListPods ns telepresenceLabel, ListServices ns telepresenceLabel]) = ((None, services), h1)"
    and last: "run_state (reconcileIngress K ord services) h1 = (Some None, h @ t)" by blast
  note spawned = spawnServices_done [OF owns spawn, unfolded unserved_filter [OF assms(3)]]
  from spawned obtain u where h1: "h1 = h @ u" by simp
  from spawned pod obtain v where
    v: "map_of services (serviceKey (kpod_Name pod)) = Some v" "service_entry K ns pod v" by auto
  with stored have entry: "map_of services (serviceKey (kpod_Name pod)) = Some (Some (newService ns pod))"
    by (auto simp: service_entry_def split: option.splits)
  have "dom (map_of services) = dom (map_of (servicesByName listed)) \<union> serviceKey ` kpod_Name ` set pods"
    using spawned by blast
  then have named: "well_named services" using names unfolding well_named_def by auto
  from reconcileIngress_routes [OF ord named ing last] obtain ps' where
    ps': "set ps' = {p \<in> set ps. live services p} \<union> routes services (pods_in ps)"
    and t: "h @ t = h1 @ asked_ingress # (if ps' = ps then [] else [UpdateIngress (setIngressPaths ps' ingress)])" by blast
  have routed: "route (kpod_Name pod) (newService ns pod) port \<in> set ps'" if "port \<in> set (servicePorts pod)" for port
    unfolding ps' using routesI [OF entry fresh, of port] that by (simp add: newService_def)
  have "servicePorts pod \<noteq> []" by (simp add: servicePorts_def Let_def)
  then obtain port where "port \<in> set (servicePorts pod)" by (meson last_in_set)
  from routed [OF this] have "ps' \<noteq> ps"
    using fresh well_named_key [OF named entry] by (force simp: pods_in_def)
  with t h1 have "UpdateIngress (setIngressPaths ps' ingress) \<in> set t" by auto
  moreover have "\<exists>r \<in> set ps'. path_Path r = path @ ''(/|$)(.*)'' \<and> path_ServiceName r = kpod_Name pod @ ''-svc''"
    if "path \<in> set (podStatus_Paths (buildPodStatus (kpod_Name pod) (kpod_Spec pod)))" for path
    using status_paths_ports [OF that] routed by (force simp: route_def newService_def serviceKey_def)
  ultimately show ?thesis by blast
qed

text \<open>Three new pods and an ingress that routes the session manager only.\<close>

abbreviation demo_new_network :: kube where
  "demo_new_network \<equiv> demo_network_kube (demo_ingress [demo_manager_path])"

lemma demo_new_network_run:
  "run_state (ReconcileNetwork demo_new_network visit ''default'') [] =
     (Some None, [] @ snd (run_state (ReconcileNetwork demo_new_network visit ''default'') []))"
proof -
  have "fst (run_state (ReconcileNetwork demo_new_network visit ''default'') []) = Some None" by code_simp
  then show ?thesis by (metis append_Nil prod.collapse)
qed

lemma status_paths_routed_witness:
  "\<exists>ps'. UpdateIngress (setIngressPaths ps' (demo_ingress [demo_manager_path]))
      \<in> set (snd (run_state (ReconcileNetwork demo_new_network visit ''default'') [])) \<and>
    (\<forall>path \<in> set (podStatus_Paths (buildPodStatus ''demo-1-web-aaaa'' demo_spec)).
       \<exists>r \<in> set ps'. path_Path r = path @ ''(/|$)(.*)'' \<and> path_ServiceName r = ''demo-1-web-aaaa'' @ ''-svc'')"
proof -
  let ?pod = "demo_pod ''demo-1-web-aaaa'' ''True''"
  have server: "owns_services demo_new_network"
    "api_ListPods demo_new_network [] ''default'' telepresenceLabel = Inr demo_items"
    "api_ListServices demo_new_network h ''default'' telepresenceLabel = Inr []"
    "api_CreateService demo_new_network h s = Inr s" for h s
    by (simp_all add: owns_services_def demo_network_kube_def demo_kube_def)
  have pods: "?pod \<in> set demo_items" "\<forall>pod \<in> set demo_items. CHR ''/'' \<notin> set (kpod_Name pod)"
    by (simp_all add: demo_items_def demo_pod_def)
  have none: "servicesByName [] = []" "pod_of_path demo_manager_path = None"
    by (simp_all add: servicesByName_def demo_manager_path_def pod_of_path_def)
  have name: "kpod_Name ?pod = ''demo-1-web-aaaa''" "kpod_Spec ?pod = demo_spec" by (simp_all add: demo_pod_def)
  show ?thesis
    by (rule status_paths_routed [OF _ server(1) demo_names(2) server(2) _ _ pods(2) pods(1) _ server(4) _ _ _
        demo_new_network_run, of "[]" "demo_ingress [demo_manager_path]" "[demo_manager_path]", unfolded name])
      (simp_all add: server none well_named_def)
qed

section \<open>Registrations of the session controller\<close>

text \<open>
  C12. The session and the GC controllers together never delete a pod in use: when the registrations that
  the GC controller lists are those which \<open>manageGCRegistrations\<close> left without an error (or fewer), a
  pod it deletes has no connected client in the status that the session controller planned.
\<close>

theorem pods_in_use_survive_gc:
  assumes "client_call K ord u ns session items h0"
    and "planClientPods ord u now session items = Some (st, am, ru, tm)"
    and "run_state (manageGCRegistrations K ord session am ru gs) h = (None, h @ t)"
    and names: "\<And>h ns n pod. api_GetPod K' h ns n = Inr pod \<Longrightarrow> kpod_Name pod = n"
    and list: "api_ListGCRegistrations K' h1 ''mr-telepresence-gc'' [] = Inr gs'"
      "gc_Name ` set gs' \<subseteq> registered_after t (gc_Name ` set gs)"
    and "run_state (ReconcileGC K') h1 = (r, h1 @ t')" and "DeletePod pod \<in> set t'"
  shows "\<not> in_use st (kpod_Name pod)"
proof -
  from ReconcileGC_requests [OF assms(7,8)] list(1) obtain g where g: "g \<in> set gs'" "may_collect K' g pod" by auto
  from g(2) have "kpod_Name pod = gc_Name g" unfolding may_collect_def using names by blast
  with g(1) list(2) have "kpod_Name pod \<in> registered_after t (gc_Name ` set gs)" by auto
  then have "kpod_Name pod \<in> {n. if n \<in> kpod_Name ` set items \<or> has_pod st n then \<not> in_use st n
      else n \<in> gc_Name ` set gs}"
    using registered_iff_idle [OF assms(1,2,3)] by simp
  then show ?thesis by (auto simp: in_use_def has_pod_def split: if_splits)
qed

text \<open>The pod of the client that has gone away, long after.\<close>

abbreviation demo_away_kube :: kube where
  "demo_away_kube \<equiv> demo_gc_kube [demo_old_registration\<lparr>gc_Name := ''demo-1-web-dddd''\<rparr>]"

lemma pods_in_use_survive_gc_witness:
  "\<exists>st am ru tm. planClientPods visit demo_uuid demo_now demo_session demo_items = Some (st, am, ru, tm) \<and>
     DeletePod (demo_pod ''demo-1-web-dddd'' ''True'') \<in> set (snd (run_state (ReconcileGC demo_away_kube) [])) \<and>
     \<not> in_use st ''demo-1-web-dddd''"
proof -
  let ?manage = "\<lambda>am ru. run_state (manageGCRegistrations demo_kube visit demo_session am ru []) []"
  let ?gc = "run_state (ReconcileGC demo_away_kube) []"
  have "case planClientPods visit demo_uuid demo_now demo_session demo_items of None \<Rightarrow> False
    | Some (st, am, ru, tm) \<Rightarrow> fst (?manage am ru) = None \<and>
        ''demo-1-web-dddd'' \<in> registered_after (snd (?manage am ru)) {}" by code_simp
  then obtain st am ru tm where
    plan: "planClientPods visit demo_uuid demo_now demo_session demo_items = Some (st, am, ru, tm)" and
    m: "fst (?manage am ru) = None" "''demo-1-web-dddd'' \<in> registered_after (snd (?manage am ru)) {}"
    by (auto split: option.splits)
  from m(1) have run: "?manage am ru = (None, [] @ snd (?manage am ru))" by (metis append_Nil prod.collapse)
  have gc: "?gc = (fst ?gc, [] @ snd ?gc)" by simp
  have deleted: "DeletePod (demo_pod ''demo-1-web-dddd'' ''True'') \<in> set (snd ?gc)" by code_simp
  have names: "kpod_Name pod = n" if "api_GetPod demo_kube h ns n = Inr pod" for h ns n pod
    using that by (auto simp: demo_kube_def find_Some_iff split: option.splits)
  have listed: "gc_Name ` set [demo_old_registration\<lparr>gc_Name := ''demo-1-web-dddd''\<rparr>]
      \<subseteq> registered_after (snd (?manage am ru)) (gc_Name ` set [])" using m(2) by simp
  have "\<not> in_use st (kpod_Name (demo_pod ''demo-1-web-dddd'' ''True''))"
  proof (rule pods_in_use_survive_gc [OF demo_call plan run _ _ listed gc deleted])
    show "kpod_Name pod = n" if "api_GetPod demo_away_kube h ns n = Inr pod" for h ns n pod
      using that by (simp add: names)
  qed simp
  then show ?thesis using plan deleted by (auto simp: demo_pod_def)
qed

section \<open>Sessions of the session manager\<close>

lemma created_session_name:
  assumes "run_state (CreateSession C H ord u path (Inr body)) h = (resp, h @ t)" and "resp_Status resp = 201"
    and "RestPost c ns session \<in> set t"
  shows "session_Name session = body_TemplateName body @ ''-'' @ take 4 u"
proof -
  from CreateSession_done [OF assms(1,2)] obtain tmpl s where
    s: "s = newSession (body_TemplateName body @ ''-'' @ take 4 u) tmpl"
    and t: "t = (if spec_SessionPodTemplates (session_Spec s) \<noteq> []
        then [RestPost (the (map_of (clusterClientMap H) (body_SessionPodsCluster body))) ''default'' s] else []) @
      map (\<lambda>c. RestPost c ''default'' (withoutSessionPods s)) (rangeClients ord RangeCreate (clusterClientMap H))" by auto
  from assms(3) have "session = s \<or> session = withoutSessionPods s" unfolding t by (auto split: if_splits)
  then show ?thesis by (auto simp: s newSession_def withoutSessionPods_def)
qed

text \<open>
  C19. Which template the session controller reads from the name of a pod, in every session that a
  \<open>CreateSession\<close> answered with 201 has posted.  If the name of the session template has no dash, it
  reads the name of the client template up to its first dash, so the name leads back to the
  template exactly when that has no dash.  Otherwise it reads the third part of the name of the session,
  whatever the template of the pod.  (The first four characters of a UUID have no dash.)
\<close>

theorem created_sessions_name_pods:
  assumes "run_state (CreateSession C H ord u path (Inr body)) h = (resp, h @ t)" and "resp_Status resp = 201"
    and hex: "CHR ''-'' \<notin> set (take 4 u)"
    and post: "RestPost c ns session \<in> set t" and template: "template \<in> set (spec_ClientPodTemplates (session_Spec session))"
  shows "let readBack = templateNameOf (newPodName (session_Name session) (template_Name template) podUUID) in
    (CHR ''-'' \<notin> set (body_TemplateName body) \<longrightarrow>
      readBack = Some (takeWhile (\<lambda>c. c \<noteq> CHR ''-'') (template_Name template)) \<and>
      (readBack = Some (template_Name template) \<longleftrightarrow> CHR ''-'' \<notin> set (template_Name template))) \<and>
    (CHR ''-'' \<in> set (body_TemplateName body) \<longrightarrow>
      readBack = Some (split_on (CHR ''-'') (session_Name session) ! 2))"
  unfolding created_session_name [OF assms(1,2) post] templateNameOf_dashed [OF hex]
  by (auto simp: Let_def takeWhile_eq_all_conv)

lemma created_sessions_name_pods_witness:
  "templateNameOf (newPodName ''demo-a1b2'' ''web'' ''ffff0000'') = Some ''web''"
proof -
  let ?s = "newSession ''demo-a1b2'' \<lparr>tmpl_Name = ''demo'',
       tmpl_SessionPodTemplates = spec_SessionPodTemplates (session_Spec demo_session),
       tmpl_ClientPodTemplates = spec_ClientPodTemplates (session_Spec demo_session),
       tmpl_TimeoutSeconds = 10, tmpl_ReutilizeTimeoutSeconds = 20\<rparr>"
  let ?t = "snd (run_state (CreateSession demo_clusters demo_handler visit ''a1b2c3d4'' ''/v1/session'' (Inr demo_register)) [])"
  let ?web = "\<lparr>template_Name = ''web'', template_Spec = demo_spec, template_MaxClients = 1\<rparr>"
  have "?t ! 0 = RestPost ''cm'' ''default'' ?s" and "length ?t = 3" by code_simp+
  then have "RestPost ''cm'' ''default'' ?s \<in> set ?t" by (metis nth_mem zero_less_numeral)
  moreover have "?web \<in> set (spec_ClientPodTemplates (session_Spec ?s))" by (simp add: newSession_def demo_session_def)
  moreover have "session_Name ?s = ''demo-a1b2''" by (simp add: newSession_def)
  ultimately show ?thesis
    using created_sessions_name_pods [OF demo_create_run, of "''cm''" "''default''" ?s ?web "''ffff0000''"]
    by (simp add: demo_register_def respond_def)
qed

end
